theory Spec2Isabelle
  imports Main
begin

section \<open>JavaScript values and built-ins used by the viewer\<close>

text \<open>
  The numbers the viewer handles are JavaScript doubles whose value is an integer,
  \<open>Infinity\<close>, \<open>-Infinity\<close> or \<open>NaN\<close>: they come from \<open>parseInt\<close>, from the
  backend's integer ids, from \<open>Number\<close> of an option value and from differences of such
  numbers. \<open>Num n\<close> stands for the double whose value is the integer \<open>n\<close>; every
  integer up to \<open>2^53\<close> in absolute value is a double, and beyond that only the integers
  that \<open>to_double\<close> returns are. The two zeros \<open>+0\<close> and \<open>-0\<close> are one value here: they
  are printed alike, both are falsy, and \<open>===\<close> and \<open>>\<close> do not tell them apart. \<open>null\<close> is
  \<open>None\<close> of an option type. Strings are lists of code units below 256.
\<close>

datatype number = NaN | Num int | PosInf | NegInf

text \<open>A thrown value is an \<open>Error\<close> object with its message, or any other value.\<close>

datatype thrown = Error string | NonError

definition is_digit :: "char \<Rightarrow> bool" where
  "is_digit c = (48 \<le> (of_char c :: nat) \<and> (of_char c :: nat) \<le> 57)"

definition digit_val :: "char \<Rightarrow> nat" where
  "digit_val c = of_char c - 48"

definition digit_char :: "nat \<Rightarrow> char" where
  "digit_char d = ''0123456789'' ! d"

text \<open>The decimal digits of a natural number, most significant first.\<close>

fun digits_of :: "nat \<Rightarrow> string" where
  "digits_of n =
     (if n < 10 then [digit_char n] else digits_of (n div 10) @ [digit_char (n mod 10)])"

declare digits_of.simps [simp del]

definition decimal_value :: "string \<Rightarrow> nat" where
  "decimal_value ds = foldl (\<lambda>acc c. 10 * acc + digit_val c) 0 ds"

definition MAX_SAFE_INTEGER :: int where
  "MAX_SAFE_INTEGER = 9007199254740991"

text \<open>The number of binary digits of a natural number.\<close>

fun bits :: "nat \<Rightarrow> nat" where
  "bits n = (if n = 0 then 0 else Suc (bits (n div 2)))"

declare bits.simps [simp del]

text \<open>
  The double nearest to an integer: an integer below \<open>2^53\<close> in absolute value is a
  double itself; a larger one keeps its 53 leading binary digits, rounded to nearest
  with ties to the even neighbour, and becomes infinite from \<open>2^1024\<close> on.
\<close>

definition to_double :: "int \<Rightarrow> number" where
  "to_double n =
     (let a = \<bar>n\<bar>
      in if a < 2 ^ 53 then Num n
         else
           (let e = bits (nat a) - 53;
                q = a div 2 ^ e;
                r = a mod 2 ^ e;
                q' = (if 2 ^ (e - 1) < r \<or> (r = 2 ^ (e - 1) \<and> odd q) then q + 1 else q);
                v = q' * 2 ^ e
            in if 2 ^ 1024 \<le> v then (if n < 0 then NegInf else PosInf)
               else Num (if n < 0 then - v else v)))"

text \<open>
  Printing a number (\<open>Number::toString\<close>, as a template literal \<open>`${n}`\<close> applies it).
  The digits printed are the shortest decimal \<open>s\<close>, with a power of ten \<open>10^m\<close>, that reads
  back as the same double; \<open>digit_candidates x k\<close> lists the pairs \<open>(s, m)\<close> with \<open>k\<close>
  digits that do, and among the shortest the one nearest to \<open>x\<close> is taken (the even one
  when two are as near). Seventeen digits always suffice.
\<close>

definition digit_candidates :: "nat \<Rightarrow> nat \<Rightarrow> (nat \<times> nat) list" where
  "digit_candidates x k =
     (let nd = length (digits_of x)
      in [(s, m). m \<leftarrow> [nd - k, nd - k + 1], s \<leftarrow> [x div 10 ^ m, x div 10 ^ m + 1],
                  10 ^ (k - 1) \<le> s \<and> s < 10 ^ k \<and> to_double (int (s * 10 ^ m)) = Num (int x)])"

definition shortest_digits :: "nat \<Rightarrow> nat \<times> nat" where
  "shortest_digits x =
     (case find (\<lambda>k. digit_candidates x k \<noteq> [])
             [1, 2, 3, 4, 5, 6, 7, 8, 9, 10, 11, 12, 13, 14, 15, 16, 17] of
        None \<Rightarrow> (x, 0)
      | Some k \<Rightarrow>
          arg_min_list (\<lambda>(s, m). 2 * \<bar>int (s * 10 ^ m) - int x\<bar> + int (s mod 2))
            (digit_candidates x k))"

text \<open>
  An integer up to \<open>2^53 - 1\<close> is printed with its own digits, which are its shortest
  digits that read back. A larger number is printed with its shortest digits, followed
  by zeros while it is below \<open>10^21\<close> and in exponent form from \<open>10^21\<close> on.
\<close>

definition positive_text :: "nat \<Rightarrow> string" where
  "positive_text x =
     (if int x \<le> MAX_SAFE_INTEGER then digits_of x
      else
        (let (s, m) = shortest_digits x;
             ds = digits_of s;
             n = length ds + m
         in if n \<le> 21 then ds @ replicate m CHR ''0''
            else (case ds of
                    [] \<Rightarrow> []
                  | [d] \<Rightarrow> [d]
                  | d # rest \<Rightarrow> d # CHR ''.'' # rest) @ ''e+'' @ digits_of (n - 1)))"

fun toString :: "number \<Rightarrow> string" where
  "toString NaN = ''NaN''"
| "toString PosInf = ''Infinity''"
| "toString NegInf = ''-Infinity''"
| "toString (Num n) =
     (if n < 0 then CHR ''-'' # positive_text (nat (- n)) else positive_text (nat n))"

declare toString.simps(4) [simp del]

text \<open>
  The white space that \<open>parseInt\<close> skips, as far as it lies below 256: tab, line feed,
  vertical tab, form feed, carriage return, space and no-break space.
\<close>

definition is_whitespace :: "char \<Rightarrow> bool" where
  "is_whitespace c =
     (c \<in> set [CHR 0x09, CHR 0x0A, CHR 0x0B, CHR 0x0C, CHR 0x0D, CHR '' '', CHR 0xA0])"

text \<open>
  \<open>parseInt(s, 10)\<close>: leading white space is skipped, one sign is read, then the longest
  run of decimal digits; anything after it is ignored. No digit at all gives \<open>NaN\<close>;
  otherwise the result is the double nearest to the signed value of the digits. (The
  language allows an implementation to read the digits after the twentieth as zeros;
  that freedom is not modelled.)
\<close>

definition parseInt :: "string \<Rightarrow> number" where
  "parseInt s =
     (let t = dropWhile is_whitespace s;
          (neg, u) = (case t of
                        [] \<Rightarrow> (False, t)
                      | c # r \<Rightarrow> if c = CHR ''-'' then (True, r)
                                 else if c = CHR ''+'' then (False, r) else (False, t));
          ds = takeWhile is_digit u
      in if ds = [] then NaN
         else to_double ((if neg then - 1 else 1) * int (decimal_value ds)))"

definition isNaN :: "number \<Rightarrow> bool" where
  "isNaN x = (x = NaN)"

text \<open>The comparison \<open>x > y\<close> on numbers: false as soon as one side is \<open>NaN\<close>.\<close>

fun greater :: "number \<Rightarrow> number \<Rightarrow> bool" where
  "greater (Num a) (Num b) = (b < a)"
| "greater PosInf (Num b) = True"
| "greater PosInf NegInf = True"
| "greater (Num a) NegInf = True"
| "greater _ _ = False"

text \<open>Strict equality \<open>x === y\<close> on numbers: \<open>NaN\<close> equals nothing.\<close>

fun strict_eq :: "number \<Rightarrow> number \<Rightarrow> bool" where
  "strict_eq (Num a) (Num b) = (a = b)"
| "strict_eq PosInf PosInf = True"
| "strict_eq NegInf NegInf = True"
| "strict_eq _ _ = False"

text \<open>Truthiness of a value of type \<open>number | null\<close>.\<close>

fun truthy :: "number option \<Rightarrow> bool" where
  "truthy None = False"
| "truthy (Some NaN) = False"
| "truthy (Some (Num n)) = (n \<noteq> 0)"
| "truthy (Some PosInf) = True"
| "truthy (Some NegInf) = True"

text \<open>\<open>xs.join(sep)\<close> on an array of strings.\<close>

fun join :: "string \<Rightarrow> string list \<Rightarrow> string" where
  "join sep [] = []"
| "join sep [x] = x"
| "join sep (x # y # ys) = x @ sep @ join sep (y # ys)"

text \<open>
  \<open>path.match(/\/app\/(\d+)/)\<close>, reduced to its first capture group: the pattern is
  tried at each position from the left; at a position it needs the five characters
  \<open>/app/\<close> and then takes as many digits as there are, at least one.
\<close>

fun match_app :: "string \<Rightarrow> string option" where
  "match_app [] = None"
| "match_app (c # cs) =
     (let ds = takeWhile is_digit (drop 5 (c # cs))
      in if take 5 (c # cs) = ''/app/'' \<and> ds \<noteq> [] then Some ds else match_app cs)"


section \<open>The service module\<close>

record App =
  app_id :: number

record Review =
  review_id :: string
  review_appId :: number
  title :: string
  content :: string
  author :: string
  score :: number
  updated :: string

text \<open>\<open>GetAppsResponse\<close> and \<open>GetReviewsResponse\<close> have the same shape.\<close>

record 'a ItemsResponse =
  items :: "'a list"

type_synonym GetAppsResponse = "App ItemsResponse"
type_synonym GetReviewsResponse = "Review ItemsResponse"

record ValidationError =
  loc :: "(string + number) list"
  msg :: string
  err_type :: string

record HTTPValidationError =
  detail :: "ValidationError list"

text \<open>
  An HTTP response as \<open>apiRequest\<close> reads it: the \<open>ok\<close> flag, the status code, and the
  outcome of \<open>response.json()\<close>, which fails with a thrown value when the body does not
  decode. TypeScript gives the decoded body the type the caller asks for without a
  check, so the body is kept once per type it is read at.
\<close>

record Response =
  ok :: bool
  status :: nat
  json_apps :: "thrown + GetAppsResponse"
  json_reviews :: "thrown + GetReviewsResponse"
  json_validation :: "thrown + HTTPValidationError"

record request =
  http_method :: string
  url :: string

text \<open>
  What lies outside the repository: the configured base URL, the network (what
  \<open>fetch\<close> of a URL settles to), and the parts of the \<open>Date\<close> built-in that the
  second component variant calls: the offset of local time from UTC in milliseconds
  (\<open>LocalTZA t True\<close> at the UTC time \<open>t\<close>, \<open>LocalTZA t False\<close> at the local time
  \<open>t\<close>), the day of the month of a local time value, the ISO text of a time value
  and the message of the \<open>RangeError\<close> for an invalid date.
\<close>

record env =
  API_BASE_URL :: string
  network :: "string \<Rightarrow> thrown + Response"
  LocalTZA :: "int \<Rightarrow> bool \<Rightarrow> int"
  DateFromTime :: "int \<Rightarrow> int"
  iso_format :: "int \<Rightarrow> string"
  invalid_time_message :: string

text \<open>\<open>fetch(url)\<close> with no options is a GET request; the log records it.\<close>

definition fetch :: "env \<Rightarrow> string \<Rightarrow> request list \<Rightarrow> (thrown + Response) \<times> request list" where
  "fetch env u log = (network env u, log @ [\<lparr>http_method = ''GET'', url = u\<rparr>])"

text \<open>The \<open>catch\<close> block of \<open>apiRequest\<close>.\<close>

fun rethrow :: "thrown \<Rightarrow> thrown" where
  "rethrow (Error m) = Error m"
| "rethrow NonError = Error ''An unexpected error occurred''"

definition apiRequest ::
  "env \<Rightarrow> (Response \<Rightarrow> thrown + 'a) \<Rightarrow> string \<Rightarrow> request list \<Rightarrow> (thrown + 'a) \<times> request list" where
  "apiRequest env json endpoint log =
     (let u = API_BASE_URL env @ endpoint;
          (fetched, log') = fetch env u log;
          tried =
            (case fetched of
               Inl e \<Rightarrow> Inl e
             | Inr response \<Rightarrow>
                 if \<not> ok response then
                   (if status response = 422 then
                      (case json_validation response of
                         Inl e \<Rightarrow> Inl e
                       | Inr errorData \<Rightarrow>
                           Inl (Error (''Validation Error: '' @
                                  join '', '' (map msg (detail errorData)))))
                    else Inl (Error (''HTTP error! status: '' @ digits_of (status response))))
                 else json response)
      in (case tried of Inl e \<Rightarrow> Inl (rethrow e) | Inr v \<Rightarrow> Inr v, log'))"

definition getApps :: "env \<Rightarrow> request list \<Rightarrow> (thrown + GetAppsResponse) \<times> request list" where
  "getApps env log = apiRequest env json_apps ''/api/apps'' log"

definition getReviews ::
  "env \<Rightarrow> number \<Rightarrow> request list \<Rightarrow> (thrown + GetReviewsResponse) \<times> request list" where
  "getReviews env appId log = apiRequest env json_reviews (''/api/reviews/'' @ toString appId) log"


section \<open>The component and the part of the window it touches\<close>

text \<open>
  An interval timer set by the polling effect. Its callback is always
  \<open>() => fetchReviews(selectedAppId)\<close>, so the timer keeps the id the closure captured.
\<close>

record interval =
  handle :: nat
  callback_appId :: number
  delay :: nat
  due :: int

text \<open>
  The state of one mounted component: the window's location, its session history, the
  requests sent, the active interval timers and the clock (milliseconds since the
  epoch); the cleanup function kept by React for the polling effect (it clears the
  timer with the stored handle); and the component's state hooks.
\<close>

record world =
  pathname :: string
  history :: "string list"
  requests :: "request list"
  intervals :: "interval list"
  next_handle :: nat
  clock :: int
  polling_cleanup :: "nat option"
  apps :: "App list"
  selectedAppId :: "number option"
  reviews :: "Review list"
  loadingApps :: bool
  loadingReviews :: bool
  error :: "string option"

text \<open>The second variant of the component adds two hooks.\<close>

record world_v2 = world +
  customAppId :: string
  reviewFilterDays :: number

definition REFRESH_INTERVAL :: nat where
  "REFRESH_INTERVAL = 2000"

subsection \<open>URL helpers (the same in both variants)\<close>

definition getAppIdFromUrl :: "'a world_scheme \<Rightarrow> number option" where
  "getAppIdFromUrl w =
     (let path = pathname w
      in case match_app path of Some m1 \<Rightarrow> Some (parseInt m1) | None \<Rightarrow> None)"

text \<open>\<open>history.pushState({}, "", newPath)\<close> with an absolute path.\<close>

definition pushState :: "string \<Rightarrow> 'a world_scheme \<Rightarrow> 'a world_scheme" where
  "pushState newPath w = w\<lparr>pathname := newPath, history := history w @ [newPath]\<rparr>"

definition updateUrl :: "number option \<Rightarrow> 'a world_scheme \<Rightarrow> 'a world_scheme" where
  "updateUrl appId w =
     (let newPath = (case appId of
                       Some n \<Rightarrow> if truthy appId then ''/app/'' @ toString n else ''/''
                     | None \<Rightarrow> ''/'')
      in pushState newPath w)"


subsection \<open>Timers and the polling effect (the same in both variants)\<close>

definition setInterval :: "number \<Rightarrow> nat \<Rightarrow> 'a world_scheme \<Rightarrow> nat \<times> 'a world_scheme" where
  "setInterval appId ms w =
     (let h = next_handle w
      in (h, w\<lparr>intervals := intervals w @
                  [\<lparr>handle = h, callback_appId = appId, delay = ms, due = clock w + int ms\<rparr>],
                next_handle := Suc h\<rparr>))"

definition clearInterval :: "nat \<Rightarrow> 'a world_scheme \<Rightarrow> 'a world_scheme" where
  "clearInterval h w = w\<lparr>intervals := filter (\<lambda>i. handle i \<noteq> h) (intervals w)\<rparr>"

text \<open>
  The body of the polling effect. \<open>fetchReviews\<close> is the callback of the current
  render; the value returned is the cleanup, kept as the handle it will clear.
\<close>

definition polling_effect ::
  "(number \<Rightarrow> 'a world_scheme \<Rightarrow> 'a world_scheme) \<Rightarrow> 'a world_scheme \<Rightarrow> 'a world_scheme" where
  "polling_effect fetchReviews w =
     (case selectedAppId w of
        None \<Rightarrow> w\<lparr>polling_cleanup := None\<rparr>
      | Some appId \<Rightarrow>
          (let w1 = fetchReviews appId w;
               (h, w2) = setInterval appId REFRESH_INTERVAL w1
           in w2\<lparr>polling_cleanup := Some h\<rparr>))"

definition run_cleanup :: "'a world_scheme \<Rightarrow> 'a world_scheme" where
  "run_cleanup w =
     (case polling_cleanup w of
        None \<Rightarrow> w
      | Some h \<Rightarrow> (clearInterval h w)\<lparr>polling_cleanup := None\<rparr>)"

text \<open>
  React runs an effect again after a render in which one of its dependencies changed:
  first the cleanup of the previous run, then the effect body.
\<close>

definition rerun_polling ::
  "(number \<Rightarrow> 'a world_scheme \<Rightarrow> 'a world_scheme) \<Rightarrow> 'a world_scheme \<Rightarrow> 'a world_scheme" where
  "rerun_polling fetchReviews w = polling_effect fetchReviews (run_cleanup w)"

text \<open>A timer that is still set fires: its callback runs and it is due again one delay later.\<close>

definition fire ::
  "(number \<Rightarrow> 'a world_scheme \<Rightarrow> 'a world_scheme) \<Rightarrow> interval \<Rightarrow> 'a world_scheme \<Rightarrow> 'a world_scheme" where
  "fire fetchReviews i w =
     (if list_ex (\<lambda>j. handle j = handle i) (intervals w) then
        (let w1 = fetchReviews (callback_appId i) w
         in w1\<lparr>intervals :=
                  map (\<lambda>j. if handle j = handle i then j\<lparr>due := due j + int (delay j)\<rparr> else j)
                    (intervals w1)\<rparr>)
      else w)"

text \<open>One millisecond passes; the timers that are due fire in the order they were set.\<close>

definition tick ::
  "(number \<Rightarrow> 'a world_scheme \<Rightarrow> 'a world_scheme) \<Rightarrow> 'a world_scheme \<Rightarrow> 'a world_scheme" where
  "tick fetchReviews w =
     (let w1 = w\<lparr>clock := clock w + 1\<rparr>
      in fold (fire fetchReviews) (filter (\<lambda>i. due i \<le> clock w1) (intervals w1)) w1)"

fun elapse ::
  "(number \<Rightarrow> 'a world_scheme \<Rightarrow> 'a world_scheme) \<Rightarrow> nat \<Rightarrow> 'a world_scheme \<Rightarrow> 'a world_scheme" where
  "elapse fetchReviews 0 w = w"
| "elapse fetchReviews (Suc n) w = elapse fetchReviews n (tick fetchReviews w)"

text \<open>\<open>err instanceof Error ? err.message : fallback\<close>\<close>

fun message_or :: "thrown \<Rightarrow> string \<Rightarrow> string" where
  "message_or (Error m) fallback = m"
| "message_or NonError fallback = fallback"


subsection \<open>The first variant (App.tsx)\<close>

text \<open>
  An \<open>await\<close> is modelled as yielding the settled outcome at once: an asynchronous
  function runs from its call to its \<open>finally\<close> block as one step. The part of it that
  follows the \<open>await\<close> is a function of the outcome, defined first.
\<close>

text \<open>\<open>fetchApps\<close> from the point where \<open>await getApps()\<close> has settled with \<open>r\<close>.\<close>

definition fetchApps_settled :: "(thrown + GetAppsResponse) \<Rightarrow> world \<Rightarrow> world" where
  "fetchApps_settled r w =
     (let w4 = (case r of
                  Inr response \<Rightarrow>
                    (let w5 = w\<lparr>apps := items response\<rparr>;
                         urlAppId = getAppIdFromUrl w5
                     in if truthy urlAppId then w5\<lparr>selectedAppId := urlAppId\<rparr> else w5)
                | Inl err \<Rightarrow> w\<lparr>error := Some (message_or err ''Failed to fetch apps'')\<rparr>)
      in w4\<lparr>loadingApps := False\<rparr>)"

definition fetchApps :: "env \<Rightarrow> world \<Rightarrow> world" where
  "fetchApps env w =
     (let w1 = w\<lparr>loadingApps := True\<rparr>;
          w2 = w1\<lparr>error := None\<rparr>;
          (r, log) = getApps env (requests w2);
          w3 = w2\<lparr>requests := log\<rparr>
      in fetchApps_settled r w3)"

definition handlePopState :: "world \<Rightarrow> world" where
  "handlePopState w = (let urlAppId = getAppIdFromUrl w in w\<lparr>selectedAppId := urlAppId\<rparr>)"

text \<open>\<open>fetchReviews\<close> from the point where \<open>await getReviews(appId)\<close> has settled with \<open>r\<close>.\<close>

definition fetchReviews_settled :: "(thrown + GetReviewsResponse) \<Rightarrow> world \<Rightarrow> world" where
  "fetchReviews_settled r w =
     (let w4 = (case r of
                  Inr response \<Rightarrow> w\<lparr>reviews := items response\<rparr>
                | Inl err \<Rightarrow> w\<lparr>error := Some (message_or err ''Failed to fetch reviews'')\<rparr>)
      in w4\<lparr>loadingReviews := False\<rparr>)"

definition fetchReviews :: "env \<Rightarrow> number \<Rightarrow> world \<Rightarrow> world" where
  "fetchReviews env appId w =
     (let w1 = w\<lparr>loadingReviews := True\<rparr>;
          w2 = w1\<lparr>error := None\<rparr>;
          (r, log) = getReviews env appId (requests w2);
          w3 = w2\<lparr>requests := log\<rparr>
      in fetchReviews_settled r w3)"

definition handleAppSelect :: "number \<Rightarrow> world \<Rightarrow> world" where
  "handleAppSelect appId w = updateUrl (Some appId) (w\<lparr>selectedAppId := Some appId\<rparr>)"

text \<open>
  After a handler has run, React renders again and the polling effect, whose
  dependencies are \<open>selectedAppId\<close> and the constant callback \<open>fetchReviews\<close>, runs
  again when \<open>selectedAppId\<close> changed.
\<close>

definition commit :: "env \<Rightarrow> world \<Rightarrow> world \<Rightarrow> world" where
  "commit env before after =
     (if selectedAppId after \<noteq> selectedAppId before
      then rerun_polling (fetchReviews env) after else after)"

text \<open>
  The events of a mounted component: an option chosen in the dropdown, a
  \<open>popstate\<close> after the browser moved to the history entry with the given path, and
  the passing of one millisecond.
\<close>

datatype event = Select number | PopState string | Tick

fun step :: "env \<Rightarrow> event \<Rightarrow> world \<Rightarrow> world" where
  "step env (Select appId) w = commit env w (handleAppSelect appId w)"
| "step env (PopState p) w = commit env w (handlePopState (w\<lparr>pathname := p\<rparr>))"
| "step env Tick w = tick (fetchReviews env) w"

text \<open>The page loaded at the given path and time, before the component mounts.\<close>

definition initial_world :: "string \<Rightarrow> int \<Rightarrow> world" where
  "initial_world path t =
     \<lparr>pathname = path, history = [path], requests = [], intervals = [], next_handle = 1,
      clock = t, polling_cleanup = None, apps = [], selectedAppId = None, reviews = [],
      loadingApps = False, loadingReviews = False, error = None\<rparr>"

text \<open>
  Mounting runs the three effects: the app list is fetched, the \<open>popstate\<close> listener is
  registered, and the polling effect finds no selection; when the fetch has selected
  the id of the URL, the polling effect runs again.
\<close>

definition mount :: "env \<Rightarrow> world \<Rightarrow> world" where
  "mount env w = commit env w (fetchApps env w)"

definition unmount :: "'a world_scheme \<Rightarrow> 'a world_scheme" where
  "unmount w = run_cleanup w"

definition run :: "env \<Rightarrow> event list \<Rightarrow> world \<Rightarrow> world" where
  "run env evs w = fold (step env) evs (mount env w)"


subsection \<open>The second variant (custom id form and day filter)\<close>

text \<open>
  The part of \<open>Date\<close> that \<open>fetchReviews\<close> uses. A date object holds a time value in
  milliseconds (UTC), or \<open>NaN\<close> (\<open>None\<close>) once a computed time leaves the range of
  8.64e15 ms on either side of the epoch. \<open>getDate\<close> is the day of the month in local
  time. \<open>setDate(n)\<close> works in local time: it moves to day \<open>n\<close> of the current month,
  that is by \<open>n\<close> minus the current day of the month whole days, and turns the local
  time reached back into UTC with the offset in force there. \<open>toISOString\<close> throws a
  \<open>RangeError\<close> on an invalid date. The times handled are integers; whenever the result
  is in range, all intermediate values are below \<open>2^53\<close> and the arithmetic is exact.
\<close>

definition MAX_TIME :: int where
  "MAX_TIME = 8640000000000000"

definition msPerDay :: int where
  "msPerDay = 86400000"

definition TimeClip :: "int \<Rightarrow> int option" where
  "TimeClip t = (if \<bar>t\<bar> \<le> MAX_TIME then Some t else None)"

definition LocalTime :: "env \<Rightarrow> int \<Rightarrow> int" where
  "LocalTime env t = t + LocalTZA env t True"

definition UTC :: "env \<Rightarrow> int \<Rightarrow> int" where
  "UTC env t = t - LocalTZA env t False"

definition new_Date :: "'a world_scheme \<Rightarrow> int option" where
  "new_Date w = TimeClip (clock w)"

definition getDate :: "env \<Rightarrow> int option \<Rightarrow> number" where
  "getDate env d =
     (case d of None \<Rightarrow> NaN | Some t \<Rightarrow> Num (DateFromTime env (LocalTime env t)))"

definition setDate :: "env \<Rightarrow> number \<Rightarrow> int option \<Rightarrow> int option" where
  "setDate env dt d =
     (case d of
        None \<Rightarrow> None
      | Some t \<Rightarrow>
          (case dt of
             Num n \<Rightarrow>
               (let local = LocalTime env t;
                    newDate = local + (n - DateFromTime env local) * msPerDay
                in TimeClip (UTC env newDate))
           | _ \<Rightarrow> None))"

definition toISOString :: "env \<Rightarrow> int option \<Rightarrow> thrown + string" where
  "toISOString env d =
     (case d of
        None \<Rightarrow> Inl (Error (invalid_time_message env))
      | Some t \<Rightarrow> Inr (iso_format env t))"

text \<open>The difference \<open>x - y\<close> of two numbers, rounded to a double.\<close>

fun minus_num :: "number \<Rightarrow> number \<Rightarrow> number" where
  "minus_num (Num a) (Num b) = to_double (a - b)"
| "minus_num PosInf (Num b) = PosInf"
| "minus_num NegInf (Num b) = NegInf"
| "minus_num (Num a) PosInf = NegInf"
| "minus_num (Num a) NegInf = PosInf"
| "minus_num PosInf NegInf = PosInf"
| "minus_num NegInf PosInf = NegInf"
| "minus_num _ _ = NaN"

text \<open>
  The cut-off date that \<open>fetchReviews\<close> computes at clock time \<open>c\<close> for a day filter:
  its ISO text, or the error thrown on the way.
\<close>

definition cutoff_text :: "env \<Rightarrow> int \<Rightarrow> number \<Rightarrow> thrown + string" where
  "cutoff_text env c days =
     toISOString env (setDate env (minus_num (getDate env (TimeClip c)) days) (TimeClip c))"

definition cutoff_valid :: "env \<Rightarrow> int \<Rightarrow> number \<Rightarrow> bool" where
  "cutoff_valid env c days = (case cutoff_text env c days of Inl e \<Rightarrow> False | Inr u \<Rightarrow> True)"

text \<open>
  The call \<open>getReviews(appId, updatedMin)\<close>: \<open>getReviews\<close> declares one parameter, so
  the second argument is bound to nothing.
\<close>

definition getReviews_call2 ::
  "env \<Rightarrow> number \<Rightarrow> string \<Rightarrow> request list \<Rightarrow> (thrown + GetReviewsResponse) \<times> request list" where
  "getReviews_call2 env appId updatedMin log = getReviews env appId log"

definition fetchApps_v2_settled :: "(thrown + GetAppsResponse) \<Rightarrow> world_v2 \<Rightarrow> world_v2" where
  "fetchApps_v2_settled r w =
     (let w3 = (case r of
                  Inr response \<Rightarrow>
                    (let w4 = w\<lparr>error := None\<rparr>;
                         w5 = w4\<lparr>apps := items response\<rparr>;
                         urlAppId = getAppIdFromUrl w5
                     in case urlAppId of
                          None \<Rightarrow> w5
                        | Some n \<Rightarrow>
                            if truthy urlAppId then
                              (let appExists =
                                     list_ex (\<lambda>app. strict_eq (app_id app) n) (items response)
                               in if appExists then w5\<lparr>selectedAppId := urlAppId\<rparr>
                                  else w5\<lparr>customAppId := toString n\<rparr>)
                            else w5)
                | Inl err \<Rightarrow> w\<lparr>error := Some (message_or err ''Failed to fetch apps'')\<rparr>)
      in w3\<lparr>loadingApps := False\<rparr>)"

definition fetchApps_v2 :: "env \<Rightarrow> world_v2 \<Rightarrow> world_v2" where
  "fetchApps_v2 env w =
     (let w1 = w\<lparr>loadingApps := True\<rparr>;
          (r, log) = getApps env (requests w1);
          w2 = w1\<lparr>requests := log\<rparr>
      in fetchApps_v2_settled r w2)"

definition handlePopState_v2 :: "world_v2 \<Rightarrow> world_v2" where
  "handlePopState_v2 w =
     (let urlAppId = getAppIdFromUrl w
      in case urlAppId of
           None \<Rightarrow> w\<lparr>selectedAppId := None, customAppId := []\<rparr>
         | Some n \<Rightarrow>
             if truthy urlAppId then
               (let appExists = list_ex (\<lambda>app. strict_eq (app_id app) n) (apps w)
                in if appExists then w\<lparr>selectedAppId := urlAppId, customAppId := []\<rparr>
                   else w\<lparr>customAppId := toString n, selectedAppId := None\<rparr>)
             else w\<lparr>selectedAppId := None, customAppId := []\<rparr>)"

text \<open>
  \<open>fetchReviews\<close> is rebuilt whenever \<open>reviewFilterDays\<close> changes and the polling effect
  then runs again, so the day count its closure holds is the one of the state.
\<close>

text \<open>
  The \<open>try\<close> block of this \<open>fetchReviews\<close> also holds the date computation, so the
  \<open>RangeError\<close> of \<open>toISOString\<close> reaches the same \<open>catch\<close> as a rejection of
  \<open>getReviews\<close>, before any request is made.
\<close>

definition fetchReviews_v2_settled :: "(thrown + GetReviewsResponse) \<Rightarrow> world_v2 \<Rightarrow> world_v2" where
  "fetchReviews_v2_settled r w =
     (let w5 = (case r of
                  Inr response \<Rightarrow>
                    (let w3 = w\<lparr>error := None\<rparr> in w3\<lparr>reviews := items response\<rparr>)
                | Inl err \<Rightarrow> w\<lparr>error := Some (message_or err ''Failed to fetch reviews'')\<rparr>)
      in w5\<lparr>loadingReviews := False\<rparr>)"

definition fetchReviews_v2 :: "env \<Rightarrow> number \<Rightarrow> world_v2 \<Rightarrow> world_v2" where
  "fetchReviews_v2 env appId w =
     (let w1 = w\<lparr>loadingReviews := True\<rparr>;
          date = new_Date w1;
          date' = setDate env (minus_num (getDate env date) (reviewFilterDays w1)) date
      in case toISOString env date' of
           Inl err \<Rightarrow> fetchReviews_v2_settled (Inl err) w1
         | Inr updatedMin \<Rightarrow>
             (let (r, log) = getReviews_call2 env appId updatedMin (requests w1);
                  w2 = w1\<lparr>requests := log\<rparr>
              in fetchReviews_v2_settled r w2))"

definition handleAppSelect_v2 :: "number \<Rightarrow> world_v2 \<Rightarrow> world_v2" where
  "handleAppSelect_v2 appId w =
     updateUrl (Some appId) (w\<lparr>selectedAppId := Some appId, customAppId := []\<rparr>)"

definition handleCustomAppIdSubmit :: "world_v2 \<Rightarrow> world_v2" where
  "handleCustomAppIdSubmit w =
     (let appId = parseInt (customAppId w)
      in if \<not> isNaN appId \<and> greater appId (Num 0)
         then updateUrl (Some appId) (w\<lparr>selectedAppId := Some appId, customAppId := []\<rparr>)
         else w\<lparr>error := Some ''Please enter a valid app ID (positive number)''\<rparr>)"

text \<open>
  Here the polling effect depends on \<open>selectedAppId\<close> and on \<open>fetchReviews\<close>, which is
  a new function exactly when \<open>reviewFilterDays\<close> changed.
\<close>

definition commit_v2 :: "env \<Rightarrow> world_v2 \<Rightarrow> world_v2 \<Rightarrow> world_v2" where
  "commit_v2 env before after =
     (if selectedAppId after \<noteq> selectedAppId before
         \<or> reviewFilterDays after \<noteq> reviewFilterDays before
      then rerun_polling (fetchReviews_v2 env) after else after)"

text \<open>
  The events of the second variant add typing into the custom id field, submitting
  the form, and a new value of the day filter.
\<close>

datatype event_v2 =
    Select_v2 number
  | PopState_v2 string
  | Tick_v2
  | TypeCustomAppId string
  | SubmitCustomAppId
  | SetReviewFilterDays number

fun step_v2 :: "env \<Rightarrow> event_v2 \<Rightarrow> world_v2 \<Rightarrow> world_v2" where
  "step_v2 env (Select_v2 appId) w = commit_v2 env w (handleAppSelect_v2 appId w)"
| "step_v2 env (PopState_v2 p) w = commit_v2 env w (handlePopState_v2 (w\<lparr>pathname := p\<rparr>))"
| "step_v2 env Tick_v2 w = tick (fetchReviews_v2 env) w"
| "step_v2 env (TypeCustomAppId v) w = w\<lparr>customAppId := v\<rparr>"
| "step_v2 env SubmitCustomAppId w = commit_v2 env w (handleCustomAppIdSubmit w)"
| "step_v2 env (SetReviewFilterDays d) w = commit_v2 env w (w\<lparr>reviewFilterDays := d\<rparr>)"

definition initial_world_v2 :: "string \<Rightarrow> int \<Rightarrow> world_v2" where
  "initial_world_v2 path t =
     \<lparr>pathname = path, history = [path], requests = [], intervals = [], next_handle = 1,
      clock = t, polling_cleanup = None, apps = [], selectedAppId = None, reviews = [],
      loadingApps = False, loadingReviews = False, error = None,
      customAppId = [], reviewFilterDays = Num 10\<rparr>"

definition mount_v2 :: "env \<Rightarrow> world_v2 \<Rightarrow> world_v2" where
  "mount_v2 env w = commit_v2 env w (fetchApps_v2 env w)"

definition run_v2 :: "env \<Rightarrow> event_v2 list \<Rightarrow> world_v2 \<Rightarrow> world_v2" where
  "run_v2 env evs w = fold (step_v2 env) evs (mount_v2 env w)"


subsection \<open>The URL pattern, as a search for the first occurrence\<close>

text \<open>
  Position \<open>i\<close> of the path starts an occurrence when the five characters \<open>/app/\<close>
  stand there and a digit follows them.
\<close>

definition app_segment_at :: "string \<Rightarrow> nat \<Rightarrow> bool" where
  "app_segment_at path i =
     (take 5 (drop i path) = ''/app/'' \<and>
      (case drop (i + 5) path of [] \<Rightarrow> False | c # _ \<Rightarrow> is_digit c))"

definition first_app_segment :: "string \<Rightarrow> nat option" where
  "first_app_segment path = find (app_segment_at path) [0..<length path]"

definition digits_after :: "string \<Rightarrow> nat \<Rightarrow> string" where
  "digits_after path i = takeWhile is_digit (drop (i + 5) path)"


subsection \<open>The state of the polling timer\<close>

text \<open>
  The cleanup kept by React and the timers of the window agree: without a cleanup no
  timer is set, and with a cleanup exactly the timer it will clear is set.
\<close>

definition timer_ok :: "'a world_scheme \<Rightarrow> bool" where
  "timer_ok w =
     (case polling_cleanup w of
        None \<Rightarrow> intervals w = []
      | Some h \<Rightarrow> (case intervals w of [i] \<Rightarrow> handle i = h | _ \<Rightarrow> False))"

text \<open>
  The timers follow the selection: with nothing selected no timer is set, and with an
  app selected exactly one timer is set, which polls that app every
  \<open>REFRESH_INTERVAL\<close> milliseconds and is the one the cleanup will clear.
\<close>

definition timer_inv :: "'a world_scheme \<Rightarrow> bool" where
  "timer_inv w =
     (case selectedAppId w of
        None \<Rightarrow> intervals w = [] \<and> polling_cleanup w = None
      | Some appId \<Rightarrow>
          (case intervals w of
             [i] \<Rightarrow> polling_cleanup w = Some (handle i) \<and> callback_appId i = appId
                    \<and> delay i = REFRESH_INTERVAL
           | _ \<Rightarrow> False))"

text \<open>The request that \<open>getReviews(appId)\<close> sends.\<close>

definition review_request :: "env \<Rightarrow> number \<Rightarrow> request" where
  "review_request env appId =
     \<lparr>http_method = ''GET'', url = API_BASE_URL env @ ''/api/reviews/'' @ toString appId\<rparr>"


subsection \<open>Sample data for the worked instances\<close>

text \<open>
  The calendar in UTC: the civil date of a day number counted from 1 January 1970, the
  day of the month of a time value, and the ISO 8601 text of a time value.
\<close>

definition civil_from_days :: "int \<Rightarrow> int \<times> int \<times> int" where
  "civil_from_days z0 =
     (let z = z0 + 719468;
          era = z div 146097;
          doe = z mod 146097;
          yoe = (doe - doe div 1460 + doe div 36524 - doe div 146096) div 365;
          doy = doe - (365 * yoe + yoe div 4 - yoe div 100);
          mp = (5 * doy + 2) div 153;
          d = doy - (153 * mp + 2) div 5 + 1;
          m = (if mp < 10 then mp + 3 else mp - 9);
          y = yoe + era * 400 + (if m \<le> 2 then 1 else 0)
      in (y, m, d))"

definition utc_DateFromTime :: "int \<Rightarrow> int" where
  "utc_DateFromTime t = snd (snd (civil_from_days (t div msPerDay)))"

definition pad :: "nat \<Rightarrow> int \<Rightarrow> string" where
  "pad k n = (let ds = digits_of (nat n) in replicate (k - length ds) CHR ''0'' @ ds)"

definition utc_iso_format :: "int \<Rightarrow> string" where
  "utc_iso_format t =
     (let (y, m, d) = civil_from_days (t div msPerDay);
          ms = t mod msPerDay;
          year = (if 0 \<le> y \<and> y \<le> 9999 then pad 4 y
                  else (if y < 0 then ''-'' else ''+'') @ pad 6 \<bar>y\<bar>)
      in year @ ''-'' @ pad 2 m @ ''-'' @ pad 2 d @ ''T'' @ pad 2 (ms div 3600000) @ '':''
         @ pad 2 (ms div 60000 mod 60) @ '':'' @ pad 2 (ms div 1000 mod 60) @ ''.''
         @ pad 3 (ms mod 1000) @ ''Z'')"

text \<open>
  An environment whose network answers every request with the same outcome, in the UTC
  time zone.
\<close>

definition sample_env :: "(thrown + Response) \<Rightarrow> env" where
  "sample_env outcome =
     \<lparr>API_BASE_URL = ''http://localhost:8000'', network = (\<lambda>u. outcome),
      LocalTZA = (\<lambda>t u. 0), DateFromTime = utc_DateFromTime, iso_format = utc_iso_format,
      invalid_time_message = ''Invalid time value''\<rparr>"

definition sample_review :: Review where
  "sample_review =
     \<lparr>review_id = ''r1'', review_appId = Num 595068606, title = ''Great'',
      content = ''Works well'', author = ''ann'', score = Num 5,
      updated = ''2025-01-01T00:00:00Z''\<rparr>"

text \<open>A successful response listing two apps and one review.\<close>

definition sample_ok :: Response where
  "sample_ok =
     \<lparr>ok = True, status = 200,
      json_apps = Inr \<lparr>items = [\<lparr>app_id = Num 595068606\<rparr>, \<lparr>app_id = Num 447188370\<rparr>]\<rparr>,
      json_reviews = Inr \<lparr>items = [sample_review]\<rparr>,
      json_validation = Inr \<lparr>detail = []\<rparr>\<rparr>"

text \<open>A 422 response with two validation messages, and a 500 response.\<close>

definition sample_422 :: Response where
  "sample_422 =
     \<lparr>ok = False, status = 422,
      json_apps = Inr \<lparr>items = []\<rparr>, json_reviews = Inr \<lparr>items = []\<rparr>,
      json_validation =
        Inr \<lparr>detail = [\<lparr>loc = [Inl ''path'', Inl ''app_id''], msg = ''value is not a valid integer'',
                          err_type = ''type_error.integer''\<rparr>,
                        \<lparr>loc = [Inl ''query''], msg = ''field required'',
                          err_type = ''value_error.missing''\<rparr>]\<rparr>\<rparr>"

definition sample_500 :: Response where
  "sample_500 =
     \<lparr>ok = False, status = 500,
      json_apps = Inl (Error ''Unexpected token''), json_reviews = Inl (Error ''Unexpected token''),
      json_validation = Inl (Error ''Unexpected token'')\<rparr>"


text \<open>
  The second variant loaded at the URL of a listed app, with that id also typed into the
  custom field; and loaded at the URL of app 5, which the backend does not list.
\<close>

definition sample_listed :: world_v2 where
  "sample_listed =
     (initial_world_v2 ''/app/447188370'' 0)
       \<lparr>apps := [\<lparr>app_id = Num 447188370\<rparr>], customAppId := ''447188370''\<rparr>"

definition sample_unlisted :: world_v2 where
  "sample_unlisted = initial_world_v2 ''/app/5'' 0"


text \<open>The second variant on 2 November 2025 with a given day filter, nothing selected.\<close>

definition sample_filter :: "int \<Rightarrow> world_v2" where
  "sample_filter d = (initial_world_v2 ''/'' 1762070400000)\<lparr>reviewFilterDays := Num d\<rparr>"


text \<open>
  The second variant with app 7 selected, before and after the polling effect has set
  its timer at time 0.
\<close>

definition sample_selected :: world_v2 where
  "sample_selected = (initial_world_v2 ''/app/7'' 0)\<lparr>selectedAppId := Some (Num 7)\<rparr>"

definition sample_timer :: interval where
  "sample_timer = \<lparr>handle = 1, callback_appId = Num 7, delay = 2000, due = 2000\<rparr>"

definition sample_polling :: world_v2 where
  "sample_polling =
     sample_selected\<lparr>intervals := [sample_timer], next_handle := 2, polling_cleanup := Some 1\<rparr>"


subsection \<open>What surfacing a failure means\<close>

text \<open>
  A failure \<open>err\<close> has only been surfaced between two states when the error state holds
  the message of \<open>err\<close> (the fallback text when \<open>err\<close> is not an \<open>Error\<close>), and the app list,
  the review list, the selection and the log of requests are as before.
\<close>

definition failure_surfaced ::
  "thrown \<Rightarrow> string \<Rightarrow> 'a world_scheme \<Rightarrow> 'a world_scheme \<Rightarrow> bool" where
  "failure_surfaced err fallback before after =
     (error after = Some (case err of Error m \<Rightarrow> m | NonError \<Rightarrow> fallback)
      \<and> apps after = apps before
      \<and> reviews after = reviews before
      \<and> selectedAppId after = selectedAppId before
      \<and> requests after = requests before)"


subsection \<open>Auxiliary notions for the proofs\<close>

text \<open>The selection agrees with the URL.\<close>

definition url_synced :: "'a world_scheme \<Rightarrow> bool" where
  "url_synced w = (selectedAppId w = getAppIdFromUrl w)"

text \<open>
  A callback leaves the location, the selection, the timers and the clock alone. Both
  versions of \<open>fetchReviews\<close> do.
\<close>

definition frame_preserving :: "(number \<Rightarrow> 'a world_scheme \<Rightarrow> 'a world_scheme) \<Rightarrow> bool" where
  "frame_preserving f =
     (\<forall>a v. pathname (f a v) = pathname v \<and> history (f a v) = history v
          \<and> selectedAppId (f a v) = selectedAppId v \<and> intervals (f a v) = intervals v
          \<and> next_handle (f a v) = next_handle v \<and> clock (f a v) = clock v
          \<and> polling_cleanup (f a v) = polling_cleanup v)"


section \<open>Decimal digits and the URL pattern\<close>

lemma digit_char_cases:
  "d < 10 \<Longrightarrow> d = 0 \<or> d = 1 \<or> d = 2 \<or> d = 3 \<or> d = 4 \<or> d = 5 \<or> d = 6 \<or> d = 7 \<or> d = 8 \<or> d = (9::nat)"
  by arith

lemma digit_val_char: "d < 10 \<Longrightarrow> digit_val (digit_char d) = d"
  using digit_char_cases [of d] by (auto simp: digit_val_def digit_char_def)

lemma is_digit_char: "d < 10 \<Longrightarrow> is_digit (digit_char d)"
  using digit_char_cases [of d] by (auto simp: is_digit_def digit_char_def)

lemma decimal_value_snoc: "decimal_value (ds @ [c]) = 10 * decimal_value ds + digit_val c"
  by (simp add: decimal_value_def)

lemma decimal_value_digits_of: "decimal_value (digits_of n) = n"
proof (induction n rule: digits_of.induct)
  case (1 n)
  show ?case
  proof (cases "n < 10")
    case True
    then show ?thesis
      by (simp add: digits_of.simps [of n] decimal_value_def digit_val_char)
  next
    case False
    with 1 show ?thesis
      by (simp add: digits_of.simps [of n] decimal_value_snoc digit_val_char)
  qed
qed

lemma digits_of_all_digits: "list_all is_digit (digits_of n)"
proof (induction n rule: digits_of.induct)
  case (1 n)
  then show ?case
    by (cases "n < 10") (simp_all add: digits_of.simps [of n] is_digit_char)
qed

lemma digits_of_nonempty: "digits_of n \<noteq> []"
  by (simp add: digits_of.simps [of n])

lemma digit_not_space_sign:
  "is_digit c \<Longrightarrow> \<not> is_whitespace c \<and> c \<noteq> CHR ''-'' \<and> c \<noteq> CHR ''+''"
  by (auto simp: is_digit_def is_whitespace_def)

text \<open>Doubles: exactness up to \<open>2^53 - 1\<close>, rounding above, and the printed text.\<close>

lemma to_double_safe: "\<bar>n\<bar> \<le> MAX_SAFE_INTEGER \<Longrightarrow> to_double n = Num n"
  by (simp add: to_double_def MAX_SAFE_INTEGER_def Let_def)

lemma to_double_not_NaN: "to_double n \<noteq> NaN"
  by (simp add: to_double_def Let_def)

lemma bits_eq: "0 < k \<Longrightarrow> 2 ^ (k - 1) \<le> n \<Longrightarrow> n < 2 ^ k \<Longrightarrow> bits n = k"
proof (induction k arbitrary: n)
  case 0
  then show ?case by simp
next
  case (Suc k)
  show ?case
  proof (cases "k = 0")
    case True
    with Suc.prems have "n = Suc 0" by simp
    then show ?thesis
      using True by (simp add: bits.simps [of "Suc 0"] bits.simps [of 0])
  next
    case False
    then obtain j where j: "k = Suc j"
      by (cases k) simp_all
    have lo: "2 ^ (k - 1) \<le> n div 2"
      using Suc.prems(2) j by simp
    have hi: "n div 2 < 2 ^ k"
      using Suc.prems(3) by simp
    have p: "(1::nat) \<le> 2 ^ k"
      by simp
    have q: "2 ^ k \<le> n"
      using Suc.prems(2) by simp
    have "n \<noteq> 0"
      using p q by linarith
    then show ?thesis
      using Suc.IH [OF _ lo hi] False by (simp add: bits.simps [of n])
  qed
qed

lemma digits_length:
  "0 < k \<Longrightarrow> 10 ^ (k - 1) \<le> n \<Longrightarrow> n < 10 ^ k \<Longrightarrow> length (digits_of n) = k"
proof (induction k arbitrary: n)
  case 0
  then show ?case by simp
next
  case (Suc k)
  show ?case
  proof (cases "k = 0")
    case True
    with Suc.prems show ?thesis
      by (simp add: digits_of.simps [of n])
  next
    case False
    then obtain j where j: "k = Suc j"
      by (cases k) simp_all
    have lo: "10 ^ (k - 1) \<le> n div 10"
      using Suc.prems(2) j by simp
    have hi: "n div 10 < 10 ^ k"
      using Suc.prems(3) by simp
    have p: "10 * 10 ^ j \<le> n"
      using Suc.prems(2) j by simp
    have q: "(1::nat) \<le> 10 ^ j"
      by simp
    have "\<not> n < 10"
      using p q by linarith
    then show ?thesis
      using Suc.IH [OF _ lo hi] False by (simp add: digits_of.simps [of n])
  qed
qed

lemma toString_safe:
  "0 \<le> n \<Longrightarrow> n \<le> MAX_SAFE_INTEGER \<Longrightarrow> toString (Num n) = digits_of (nat n)"
  by (simp add: toString.simps positive_text_def)

text \<open>
  The integer \<open>2^53 + 1\<close> is not a double and rounds to \<open>2^53\<close>; \<open>10^21\<close> is a double
  and is printed in exponent form.
\<close>

lemma to_double_above_safe: "to_double 9007199254740993 = Num 9007199254740992"
proof -
  have "bits 9007199254740993 = 54"
    by (rule bits_eq) simp_all
  then show ?thesis
    by (simp add: to_double_def Let_def)
qed

lemma to_double_1e21: "to_double 1000000000000000000000 = Num 1000000000000000000000"
proof -
  have "bits 1000000000000000000000 = 70"
    by (rule bits_eq) simp_all
  then show ?thesis
    by (simp add: to_double_def Let_def)
qed

lemma toString_1e21: "toString (Num 1000000000000000000000) = ''1e+21''"
proof -
  have b: "bits 2000000000000000000000 = 71" "bits 10000000000000000000000 = 74"
    by (rule bits_eq, simp_all)+
  have d: "to_double 2000000000000000000000 = Num 2000000000000000000000"
    "to_double 10000000000000000000000 = Num 10000000000000000000000"
    by (simp_all add: to_double_def Let_def b)
  have l: "length (digits_of 1000000000000000000000) = 22"
    by (rule digits_length) simp_all
  have c: "digit_candidates 1000000000000000000000 1 = [(1, 21)]"
    using l to_double_1e21 d by (simp add: digit_candidates_def Let_def)
  have s: "shortest_digits 1000000000000000000000 = (1, 21)"
    using c by (simp add: shortest_digits_def)
  have e: "digits_of 1 = ''1''" "digits_of 21 = ''21''"
    by (simp_all add: digits_of.simps digit_char_def)
  show ?thesis
    using s e by (simp add: toString.simps positive_text_def MAX_SAFE_INTEGER_def Let_def)
qed

text \<open>
  On a non-empty run of digits \<open>parseInt\<close> is the double nearest to the decimal value,
  never \<open>NaN\<close>.
\<close>

lemma parseInt_digits:
  assumes "ds \<noteq> []" and "list_all is_digit ds"
  shows "parseInt ds = to_double (int (decimal_value ds))"
proof -
  from assms obtain c r where ds: "ds = c # r" and c: "is_digit c"
    by (cases ds) auto
  have tw: "takeWhile is_digit ds = ds"
    using assms(2) by (simp add: list_all_iff)
  from c have "\<not> is_whitespace c" "c \<noteq> CHR ''-''" "c \<noteq> CHR ''+''"
    using digit_not_space_sign by blast+
  then show ?thesis
    using tw assms(1) by (simp add: parseInt_def ds)
qed

lemma takeWhile_digits_all: "list_all is_digit (takeWhile is_digit xs)"
  by (induction xs) auto

lemma match_app_digits:
  "match_app p = Some ds \<Longrightarrow> ds \<noteq> [] \<and> list_all is_digit ds"
  by (induction p) (auto simp: Let_def takeWhile_digits_all split: if_splits)

section \<open>Parsing the app id from the URL\<close>

lemma find_map_option: "find P (map f xs) = map_option f (find (\<lambda>x. P (f x)) xs)"
  by (induction xs) auto

lemma app_segment_at_Suc: "app_segment_at (c # cs) (Suc i) = app_segment_at cs i"
  by (simp only: app_segment_at_def add_Suc drop_Suc_Cons)

lemma takeWhile_nonempty: "takeWhile P xs \<noteq> [] \<longleftrightarrow> (case xs of [] \<Rightarrow> False | x # _ \<Rightarrow> P x)"
  by (cases xs) auto

lemma app_segment_at_0:
  "app_segment_at p 0 \<longleftrightarrow> take 5 p = ''/app/'' \<and> takeWhile is_digit (drop 5 p) \<noteq> []"
  by (simp add: app_segment_at_def takeWhile_nonempty)

lemma first_app_segment_Cons:
  "first_app_segment (c # cs) =
     (if app_segment_at (c # cs) 0 then Some 0 else map_option Suc (first_app_segment cs))"
proof -
  have "[0..<length (c # cs)] = 0 # map Suc [0..<length cs]"
    by (simp add: upt_conv_Cons map_Suc_upt del: upt_Suc)
  then show ?thesis
    by (simp add: first_app_segment_def find_map_option app_segment_at_Suc)
qed

lemma digits_after_Suc: "digits_after (c # cs) (Suc i) = digits_after cs i"
  by (simp only: digits_after_def add_Suc drop_Suc_Cons)

text \<open>The pattern match finds the first occurrence and returns all its digits.\<close>

lemma match_app_first: "match_app p = map_option (digits_after p) (first_app_segment p)"
proof (induction p)
  case Nil
  show ?case by (simp add: first_app_segment_def)
next
  case (Cons c cs)
  show ?case
  proof (cases "app_segment_at (c # cs) 0")
    case True
    then show ?thesis
      using app_segment_at_0 [of "c # cs"]
      by (simp add: first_app_segment_Cons digits_after_def)
  next
    case False
    then have "match_app (c # cs) = match_app cs"
      using app_segment_at_0 [of "c # cs"] by (auto simp: Let_def)
    with False Cons show ?thesis
      by (simp add: first_app_segment_Cons option.map_comp comp_def digits_after_Suc)
  qed
qed

lemma app_segment_at_bound: "app_segment_at p i \<Longrightarrow> i < length p"
  by (cases "i < length p") (auto simp: app_segment_at_def)

lemma first_app_segment_None: "first_app_segment p = None \<longleftrightarrow> (\<forall>i. \<not> app_segment_at p i)"
  using app_segment_at_bound [of p]
  by (auto simp: first_app_segment_def find_None_iff)

lemma first_app_segment_Some:
  "first_app_segment p = Some i \<longleftrightarrow> app_segment_at p i \<and> (\<forall>j<i. \<not> app_segment_at p j)"
proof -
  have "first_app_segment p = Some i \<longleftrightarrow>
        i < length p \<and> app_segment_at p i \<and> (\<forall>j<i. \<not> app_segment_at p j)"
    by (auto simp: first_app_segment_def find_Some_iff)
  then show ?thesis
    using app_segment_at_bound [of p i] by blast
qed

lemma getAppIdFromUrl_first:
  "getAppIdFromUrl w =
     (case first_app_segment (pathname w) of
        None \<Rightarrow> None
      | Some i \<Rightarrow> Some (to_double (int (decimal_value (digits_after (pathname w) i)))))"
proof (cases "match_app (pathname w)")
  case None
  then show ?thesis
    by (simp add: getAppIdFromUrl_def match_app_first split: option.splits)
next
  case (Some ds)
  then have "parseInt ds = to_double (int (decimal_value ds))"
    using match_app_digits [of "pathname w" ds] parseInt_digits [of ds] by simp
  with Some show ?thesis
    by (auto simp: getAppIdFromUrl_def match_app_first split: option.splits)
qed

text \<open>
  C10, as the claim states it, fails: the result is a double, so the digits of
  \<open>2^53 + 1\<close> in the path yield \<open>2^53\<close>, which is not their base-10 value.
\<close>

theorem getAppIdFromUrl_substring_counterexample:
  "first_app_segment ''/app/9007199254740993'' = Some 0
   \<and> digits_after ''/app/9007199254740993'' 0 = ''9007199254740993''
   \<and> decimal_value ''9007199254740993'' = 9007199254740993
   \<and> getAppIdFromUrl (initial_world ''/app/9007199254740993'' 0) = Some (Num 9007199254740992)"
proof -
  have e: "first_app_segment ''/app/9007199254740993'' = Some 0"
    by code_simp
  have a: "digits_after ''/app/9007199254740993'' 0 = ''9007199254740993''"
    by code_simp
  have "digits_of 9007199254740993 = ''9007199254740993''"
    by (simp add: digits_of.simps digit_char_def)
  then have d: "decimal_value ''9007199254740993'' = 9007199254740993"
    using decimal_value_digits_of [of 9007199254740993] by simp
  have p: "pathname (initial_world ''/app/9007199254740993'' 0) = ''/app/9007199254740993''"
    by (simp add: initial_world_def)
  have "getAppIdFromUrl (initial_world ''/app/9007199254740993'' 0)
          = Some (to_double (int (decimal_value (digits_after ''/app/9007199254740993'' 0))))"
    by (simp add: getAppIdFromUrl_first p e)
  then have "getAppIdFromUrl (initial_world ''/app/9007199254740993'' 0)
          = Some (Num 9007199254740992)"
    unfolding a d by (simp add: to_double_above_safe)
  with e a d show ?thesis
    by blast
qed

text \<open>
  C10, amended. \<open>getAppIdFromUrl\<close> is a total function of the path. It returns the
  double nearest to the decimal value of the digits that follow the first occurrence of
  \<open>/app/\<close> followed by a digit, wherever in the path that occurrence is; this is the
  decimal value itself when that is at most \<open>2^53 - 1\<close>. It returns \<open>null\<close> exactly when
  the path has no such occurrence. The first occurrence is the least position that
  starts one, and the result is never \<open>NaN\<close>.
\<close>

theorem getAppIdFromUrl_substring:
  "getAppIdFromUrl w =
     (case first_app_segment (pathname w) of
        None \<Rightarrow> None
      | Some i \<Rightarrow> Some (to_double (int (decimal_value (digits_after (pathname w) i)))))
   \<and> (first_app_segment (pathname w) = Some i \<longleftrightarrow>
        app_segment_at (pathname w) i \<and> (\<forall>j<i. \<not> app_segment_at (pathname w) j))
   \<and> (first_app_segment (pathname w) = Some i
        \<and> int (decimal_value (digits_after (pathname w) i)) \<le> MAX_SAFE_INTEGER \<longrightarrow>
      getAppIdFromUrl w = Some (Num (int (decimal_value (digits_after (pathname w) i)))))
   \<and> (getAppIdFromUrl w = None \<longleftrightarrow> (\<forall>j. \<not> app_segment_at (pathname w) j))
   \<and> getAppIdFromUrl w \<noteq> Some NaN"
proof -
  have a: "getAppIdFromUrl w =
     (case first_app_segment (pathname w) of
        None \<Rightarrow> None
      | Some i \<Rightarrow> Some (to_double (int (decimal_value (digits_after (pathname w) i)))))"
    by (rule getAppIdFromUrl_first)
  have b: "getAppIdFromUrl w = None \<longleftrightarrow> (\<forall>j. \<not> app_segment_at (pathname w) j)"
    using first_app_segment_None [of "pathname w"]
    by (cases "first_app_segment (pathname w)") (simp_all add: a)
  have c: "getAppIdFromUrl w \<noteq> Some NaN"
    by (simp add: a to_double_not_NaN split: option.splits)
  have d: "first_app_segment (pathname w) = Some i
        \<and> int (decimal_value (digits_after (pathname w) i)) \<le> MAX_SAFE_INTEGER \<longrightarrow>
      getAppIdFromUrl w = Some (Num (int (decimal_value (digits_after (pathname w) i))))"
    by (simp add: a to_double_safe)
  show ?thesis
    using a b c d first_app_segment_Some [of "pathname w" i] by blast
qed

text \<open>The path \<open>/x/app/12/y\<close> has its first occurrence at position 2 and yields 12.\<close>

theorem getAppIdFromUrl_substring_witness:
  "getAppIdFromUrl (initial_world ''/x/app/12/y'' 0) = Some (Num 12)
   \<and> first_app_segment ''/x/app/12/y'' = Some 2
   \<and> int (decimal_value (digits_after ''/x/app/12/y'' 2)) \<le> MAX_SAFE_INTEGER
   \<and> app_segment_at ''/x/app/12/y'' 2
   \<and> \<not> app_segment_at ''/x/app/12/y'' 0 \<and> \<not> app_segment_at ''/x/app/12/y'' 1"
proof -
  have e: "first_app_segment ''/x/app/12/y'' = Some 2"
    by code_simp
  have d: "decimal_value (digits_after ''/x/app/12/y'' 2) = 12"
    by code_simp
  have p: "pathname (initial_world ''/x/app/12/y'' 0) = ''/x/app/12/y''"
    by (simp add: initial_world_def)
  show ?thesis
    using getAppIdFromUrl_substring [of "initial_world ''/x/app/12/y'' 0" 2] e d
    unfolding p by (simp add: MAX_SAFE_INTEGER_def to_double_def)
qed

section \<open>Writing the app id into the URL\<close>

lemma match_app_prefix_digits:
  assumes "ds \<noteq> []" and "list_all is_digit ds"
  shows "match_app (''/app/'' @ ds) = Some ds"
proof -
  have tw: "takeWhile is_digit ds = ds"
    using assms(2) by (simp add: list_all_iff)
  show ?thesis
    using assms(1) by (simp add: tw)
qed

lemma getAppIdFromUrl_pushState_digits:
  "getAppIdFromUrl (pushState (''/app/'' @ digits_of k) w) = Some (to_double (int k))"
proof -
  have m: "match_app (''/app/'' @ digits_of k) = Some (digits_of k)"
    by (rule match_app_prefix_digits [OF digits_of_nonempty digits_of_all_digits])
  have "parseInt (digits_of k) = to_double (int k)"
    using parseInt_digits [OF digits_of_nonempty digits_of_all_digits, of k]
    by (simp add: decimal_value_digits_of)
  then show ?thesis
    using m by (simp add: getAppIdFromUrl_def pushState_def del: match_app.simps)
qed

lemma updateUrl_truthy:
  "truthy (Some a) \<Longrightarrow> updateUrl (Some a) w = pushState (''/app/'' @ toString a) w"
  by (simp add: updateUrl_def)

lemma updateUrl_positive:
  "0 < n \<Longrightarrow> n \<le> MAX_SAFE_INTEGER \<Longrightarrow>
   updateUrl (Some (Num n)) w = pushState (''/app/'' @ digits_of (nat n)) w"
  by (simp add: updateUrl_truthy toString_safe)

lemma updateUrl_null: "updateUrl None w = pushState ''/'' w"
  by (simp add: updateUrl_def)

lemma getAppIdFromUrl_root: "getAppIdFromUrl (pushState ''/'' w) = None"
  by (simp add: getAppIdFromUrl_def pushState_def)

lemma getAppIdFromUrl_updateUrl_positive:
  "0 < n \<Longrightarrow> n \<le> MAX_SAFE_INTEGER \<Longrightarrow>
   getAppIdFromUrl (updateUrl (Some (Num n)) w) = Some (Num n)"
  using getAppIdFromUrl_pushState_digits [of "nat n" w]
  by (simp add: updateUrl_positive to_double_safe)

text \<open>
  The path pushed for the number \<open>10^21\<close>, and what is read back from it: the pattern
  stops at the letter \<open>e\<close>.
\<close>

lemma pushed_1e21:
  "pathname (updateUrl (Some (Num 1000000000000000000000)) w) = ''/app/1e+21''"
  by (simp add: updateUrl_truthy toString_1e21 pushState_def)

lemma read_back_1e21:
  "pathname w = ''/app/1e+21'' \<Longrightarrow> getAppIdFromUrl w = Some (Num 1)"
proof -
  assume p: "pathname w = ''/app/1e+21''"
  have m: "match_app ''/app/1e+21'' = Some ''1''"
    by code_simp
  have "parseInt ''1'' = Num 1"
    by code_simp
  then show ?thesis
    using m p by (simp add: getAppIdFromUrl_def del: match_app.simps)
qed

text \<open>
  C2, as the claim states it, fails: for the positive integer \<open>10^21\<close> the path pushed
  is \<open>/app/1e+21\<close>, not \<open>/app/\<close> followed by its 22 digits, and \<open>getAppIdFromUrl\<close> reads
  1 from it. (\<open>10^21\<close> is a double.)
\<close>

theorem updateUrl_roundtrip_counterexample:
  "pathname (updateUrl (Some (Num 1000000000000000000000)) (initial_world ''/'' 0))
     = ''/app/1e+21''
   \<and> to_double 1000000000000000000000 = Num 1000000000000000000000
   \<and> digits_of 1000000000000000000000 = ''1000000000000000000000''
   \<and> getAppIdFromUrl (updateUrl (Some (Num 1000000000000000000000)) (initial_world ''/'' 0))
       = Some (Num 1)"
proof -
  have "digits_of 1000000000000000000000 = ''1000000000000000000000''"
    by (simp add: digits_of.simps digit_char_def)
  then show ?thesis
    using pushed_1e21 [of "initial_world ''/'' 0"] to_double_1e21
      read_back_1e21 [of "updateUrl (Some (Num 1000000000000000000000)) (initial_world ''/'' 0)"]
    by simp
qed

text \<open>
  C2, amended. For every positive integer \<open>n\<close> up to \<open>2^53 - 1\<close>, \<open>updateUrl(n)\<close> pushes
  the path \<open>/app/\<close> followed by the decimal digits of \<open>n\<close>, and \<open>getAppIdFromUrl\<close> then
  returns \<open>n\<close>; \<open>updateUrl(null)\<close> pushes \<open>/\<close>, from which \<open>getAppIdFromUrl\<close> returns
  \<open>null\<close>.
\<close>

theorem updateUrl_roundtrip:
  "(0 < n \<and> n \<le> MAX_SAFE_INTEGER \<longrightarrow>
      pathname (updateUrl (Some (Num n)) w) = ''/app/'' @ digits_of (nat n)
    \<and> history (updateUrl (Some (Num n)) w) = history w @ [''/app/'' @ digits_of (nat n)]
    \<and> getAppIdFromUrl (updateUrl (Some (Num n)) w) = Some (Num n))
   \<and> pathname (updateUrl None w) = ''/''
   \<and> history (updateUrl None w) = history w @ [''/'']
   \<and> getAppIdFromUrl (updateUrl None w) = None"
proof -
  have "0 < n \<Longrightarrow> n \<le> MAX_SAFE_INTEGER \<Longrightarrow>
      pathname (updateUrl (Some (Num n)) w) = ''/app/'' @ digits_of (nat n)"
    by (simp add: updateUrl_positive pushState_def)
  moreover have "0 < n \<Longrightarrow> n \<le> MAX_SAFE_INTEGER \<Longrightarrow>
      history (updateUrl (Some (Num n)) w) = history w @ [''/app/'' @ digits_of (nat n)]"
    by (simp add: updateUrl_positive pushState_def)
  moreover have "pathname (updateUrl None w) = ''/''"
    by (simp add: updateUrl_null pushState_def)
  moreover have "history (updateUrl None w) = history w @ [''/'']"
    by (simp add: updateUrl_null pushState_def)
  moreover have "getAppIdFromUrl (updateUrl None w) = None"
    by (simp add: updateUrl_null getAppIdFromUrl_root)
  ultimately show ?thesis
    using getAppIdFromUrl_updateUrl_positive [of n w] by blast
qed

theorem updateUrl_roundtrip_witness:
  "(0::int) < 1234567890 \<and> 1234567890 \<le> MAX_SAFE_INTEGER
   \<and> pathname (updateUrl (Some (Num 1234567890)) (initial_world ''/'' 0)) = ''/app/1234567890''
   \<and> history (updateUrl (Some (Num 1234567890)) (initial_world ''/'' 0)) = [''/'', ''/app/1234567890'']
   \<and> getAppIdFromUrl (updateUrl (Some (Num 1234567890)) (initial_world ''/'' 0))
       = Some (Num 1234567890)"
proof -
  have d: "digits_of (nat 1234567890) = ''1234567890''"
    by (simp add: digits_of.simps digit_char_def)
  have h: "history (initial_world ''/'' 0) = [''/'']"
    by (simp add: initial_world_def)
  show ?thesis
    using updateUrl_roundtrip [of 1234567890 "initial_world ''/'' 0"]
    unfolding d h by (simp add: MAX_SAFE_INTEGER_def)
qed

section \<open>The service module: outcomes and endpoints\<close>

lemma apiRequest_log:
  "snd (apiRequest env json endpoint log) =
     log @ [\<lparr>http_method = ''GET'', url = API_BASE_URL env @ endpoint\<rparr>]"
  by (simp add: apiRequest_def fetch_def Let_def)

lemma apiRequest_result:
  "fst (apiRequest env json endpoint log) =
     (case network env (API_BASE_URL env @ endpoint) of
        Inl e \<Rightarrow> Inl (rethrow e)
      | Inr response \<Rightarrow>
          if ok response then (case json response of Inl e \<Rightarrow> Inl (rethrow e) | Inr v \<Rightarrow> Inr v)
          else if status response = 422 then
            (case json_validation response of
               Inl e \<Rightarrow> Inl (rethrow e)
             | Inr errorData \<Rightarrow>
                 Inl (Error (''Validation Error: '' @ join '', '' (map msg (detail errorData)))))
          else Inl (Error (''HTTP error! status: '' @ digits_of (status response))))"
  by (simp add: apiRequest_def fetch_def Let_def split: sum.splits)

lemma rethrow_is_Error: "rethrow e \<noteq> NonError"
  by (cases e) simp_all

lemma apiRequest_never_NonError: "fst (apiRequest env json endpoint log) \<noteq> Inl NonError"
  by (simp add: apiRequest_result rethrow_is_Error split: sum.splits)

text \<open>
  C6. For every outcome of the request: an ok response whose body decodes is returned
  decoded; a response that is not ok and has status 422 throws an \<open>Error\<close> whose message
  is \<open>Validation Error: \<close> followed by the \<open>msg\<close> fields of \<open>detail\<close> joined with a comma
  and a space; any other status \<open>N\<close> that is not ok throws \<open>HTTP error! status: N\<close>; an
  \<open>Error\<close> thrown on the way is thrown on unchanged, and a thrown value that is not an
  \<open>Error\<close> is replaced by the \<open>Error\<close> \<open>An unexpected error occurred\<close>, so that
  \<open>apiRequest\<close> never throws anything but an \<open>Error\<close>.
\<close>

theorem apiRequest_discrimination:
  "(network env (API_BASE_URL env @ endpoint) = Inr r \<and> ok r \<and> json r = Inr v \<longrightarrow>
      fst (apiRequest env json endpoint log) = Inr v)
   \<and> (network env (API_BASE_URL env @ endpoint) = Inr r \<and> \<not> ok r \<and> status r = 422
        \<and> json_validation r = Inr errorData \<longrightarrow>
      fst (apiRequest env json endpoint log) =
        Inl (Error (''Validation Error: '' @ join '', '' (map msg (detail errorData)))))
   \<and> (network env (API_BASE_URL env @ endpoint) = Inr r \<and> \<not> ok r \<and> status r \<noteq> 422 \<longrightarrow>
      fst (apiRequest env json endpoint log) =
        Inl (Error (''HTTP error! status: '' @ digits_of (status r))))
   \<and> (network env (API_BASE_URL env @ endpoint) = Inl (Error m) \<longrightarrow>
      fst (apiRequest env json endpoint log) = Inl (Error m))
   \<and> (network env (API_BASE_URL env @ endpoint) = Inl NonError
        \<or> (network env (API_BASE_URL env @ endpoint) = Inr r \<and> ok r \<and> json r = Inl NonError)
        \<or> (network env (API_BASE_URL env @ endpoint) = Inr r \<and> \<not> ok r \<and> status r = 422
             \<and> json_validation r = Inl NonError) \<longrightarrow>
      fst (apiRequest env json endpoint log) = Inl (Error ''An unexpected error occurred''))
   \<and> fst (apiRequest env json endpoint log) \<noteq> Inl NonError"
proof -
  have "fst (apiRequest env json endpoint log) \<noteq> Inl NonError"
    by (rule apiRequest_never_NonError)
  then show ?thesis
    by (auto simp: apiRequest_result)
qed

theorem apiRequest_discrimination_witness:
  "fst (apiRequest (sample_env (Inr sample_ok)) json_apps ''/api/apps'' []) =
     Inr \<lparr>items = [\<lparr>app_id = Num 595068606\<rparr>, \<lparr>app_id = Num 447188370\<rparr>]\<rparr>
   \<and> fst (apiRequest (sample_env (Inr sample_422)) json_apps ''/api/apps'' []) =
     Inl (Error ''Validation Error: value is not a valid integer, field required'')
   \<and> fst (apiRequest (sample_env (Inr sample_500)) json_apps ''/api/apps'' []) =
     Inl (Error ''HTTP error! status: 500'')
   \<and> fst (apiRequest (sample_env (Inl (Error ''Failed to fetch''))) json_apps ''/api/apps'' []) =
     Inl (Error ''Failed to fetch'')
   \<and> fst (apiRequest (sample_env (Inl NonError)) json_apps ''/api/apps'' []) =
     Inl (Error ''An unexpected error occurred'')"
proof -
  have d: "digits_of 500 = ''500''"
    by (simp add: digits_of.simps digit_char_def)
  have a: "fst (apiRequest (sample_env (Inr sample_ok)) json_apps ''/api/apps'' []) =
     Inr \<lparr>items = [\<lparr>app_id = Num 595068606\<rparr>, \<lparr>app_id = Num 447188370\<rparr>]\<rparr>"
    using apiRequest_discrimination
      [of "sample_env (Inr sample_ok)" "''/api/apps''" sample_ok json_apps
          "\<lparr>items = [\<lparr>app_id = Num 595068606\<rparr>, \<lparr>app_id = Num 447188370\<rparr>]\<rparr>" "[]"]
    by (simp add: sample_env_def sample_ok_def)
  have b: "fst (apiRequest (sample_env (Inr sample_422)) json_apps ''/api/apps'' []) =
     Inl (Error ''Validation Error: value is not a valid integer, field required'')"
    using apiRequest_discrimination
      [of "sample_env (Inr sample_422)" "''/api/apps''" sample_422 json_apps _ "[]"
          "\<lparr>detail = [\<lparr>loc = [Inl ''path'', Inl ''app_id''], msg = ''value is not a valid integer'',
                          err_type = ''type_error.integer''\<rparr>,
                        \<lparr>loc = [Inl ''query''], msg = ''field required'',
                          err_type = ''value_error.missing''\<rparr>]\<rparr>"]
    by (simp add: sample_env_def sample_422_def)
  have c: "fst (apiRequest (sample_env (Inr sample_500)) json_apps ''/api/apps'' []) =
     Inl (Error ''HTTP error! status: 500'')"
    using apiRequest_discrimination
      [of "sample_env (Inr sample_500)" "''/api/apps''" sample_500 json_apps _ "[]"]
    by (simp add: sample_env_def sample_500_def d)
  have e: "fst (apiRequest (sample_env (Inl (Error ''Failed to fetch''))) json_apps ''/api/apps'' []) =
     Inl (Error ''Failed to fetch'')"
    using apiRequest_discrimination
      [of "sample_env (Inl (Error ''Failed to fetch''))" "''/api/apps''" _ json_apps _ "[]" _
          "''Failed to fetch''"]
    by (simp add: sample_env_def)
  have f: "fst (apiRequest (sample_env (Inl NonError)) json_apps ''/api/apps'' []) =
     Inl (Error ''An unexpected error occurred'')"
    using apiRequest_discrimination
      [of "sample_env (Inl NonError)" "''/api/apps''" _ json_apps _ "[]"]
    by (simp add: sample_env_def)
  show ?thesis
    using a b c e f by blast
qed

lemma getApps_log:
  "snd (getApps env log) = log @ [\<lparr>http_method = ''GET'', url = API_BASE_URL env @ ''/api/apps''\<rparr>]"
  by (simp add: getApps_def apiRequest_log)

lemma getReviews_log:
  "snd (getReviews env appId log) =
     log @ [\<lparr>http_method = ''GET'', url = API_BASE_URL env @ ''/api/reviews/'' @ toString appId\<rparr>]"
  by (simp add: getReviews_def apiRequest_log)

lemma getApps_ok:
  "network env (API_BASE_URL env @ ''/api/apps'') = Inr r \<Longrightarrow> ok r \<Longrightarrow> json_apps r = Inr v
   \<Longrightarrow> fst (getApps env log) = Inr v"
  by (simp add: getApps_def apiRequest_result)

lemma getReviews_ok:
  "network env (API_BASE_URL env @ ''/api/reviews/'' @ toString appId) = Inr r \<Longrightarrow> ok r
   \<Longrightarrow> json_reviews r = Inr v \<Longrightarrow> fst (getReviews env appId log) = Inr v"
  by (simp add: getReviews_def apiRequest_result)

text \<open>
  C7, as the claim states it, fails: for the app id \<open>10^21\<close>, which is a double, the
  request goes to \<open>/api/reviews/1e+21\<close>, not to \<open>/api/reviews/\<close> followed by the 22 digits
  of the id.
\<close>

theorem endpoint_mapping_counterexample:
  "snd (getReviews (sample_env (Inr sample_ok)) (Num 1000000000000000000000) []) =
     [\<lparr>http_method = ''GET'', url = ''http://localhost:8000/api/reviews/1e+21''\<rparr>]
   \<and> to_double 1000000000000000000000 = Num 1000000000000000000000
   \<and> digits_of 1000000000000000000000 = ''1000000000000000000000''"
proof -
  have "digits_of 1000000000000000000000 = ''1000000000000000000000''"
    by (simp add: digits_of.simps digit_char_def)
  then show ?thesis
    by (simp add: getReviews_log toString_1e21 to_double_1e21 sample_env_def)
qed

text \<open>
  C7, amended. \<open>getApps\<close> sends exactly one request, a GET to the base URL followed by
  \<open>/api/apps\<close>, and returns the decoded body of an ok response as a \<open>GetAppsResponse\<close>.
  \<open>getReviews(appId)\<close> sends exactly one request, a GET to the base URL followed by
  \<open>/api/reviews/\<close> and the text JavaScript prints for \<open>appId\<close>, and returns the decoded
  body of an ok response as a \<open>GetReviewsResponse\<close>; for every integer \<open>appId\<close> from 0 to
  \<open>2^53 - 1\<close> that text is the decimal digits of \<open>appId\<close>.
\<close>

theorem endpoint_mapping:
  "snd (getApps env log) =
     log @ [\<lparr>http_method = ''GET'', url = API_BASE_URL env @ ''/api/apps''\<rparr>]
   \<and> (network env (API_BASE_URL env @ ''/api/apps'') = Inr r \<and> ok r \<and> json_apps r = Inr apps_body
        \<longrightarrow> fst (getApps env log) = Inr apps_body)
   \<and> snd (getReviews env appId log) =
        log @ [\<lparr>http_method = ''GET'',
                 url = API_BASE_URL env @ ''/api/reviews/'' @ toString appId\<rparr>]
   \<and> (network env (API_BASE_URL env @ ''/api/reviews/'' @ toString appId) = Inr r'' \<and> ok r''
         \<and> json_reviews r'' = Inr reviews_body
       \<longrightarrow> fst (getReviews env appId log) = Inr reviews_body)
   \<and> (0 \<le> n \<and> n \<le> MAX_SAFE_INTEGER \<longrightarrow>
        snd (getReviews env (Num n) log) =
          log @ [\<lparr>http_method = ''GET'',
                   url = API_BASE_URL env @ ''/api/reviews/'' @ digits_of (nat n)\<rparr>]
        \<and> (network env (API_BASE_URL env @ ''/api/reviews/'' @ digits_of (nat n)) = Inr r' \<and> ok r'
              \<and> json_reviews r' = Inr reviews_body
            \<longrightarrow> fst (getReviews env (Num n) log) = Inr reviews_body))"
proof -
  have a: "snd (getApps env log) =
     log @ [\<lparr>http_method = ''GET'', url = API_BASE_URL env @ ''/api/apps''\<rparr>]"
    by (rule getApps_log)
  have b: "network env (API_BASE_URL env @ ''/api/apps'') = Inr r \<and> ok r \<and> json_apps r = Inr apps_body
        \<longrightarrow> fst (getApps env log) = Inr apps_body"
    using getApps_ok [of env r apps_body log] by blast
  have c: "snd (getReviews env appId log) =
        log @ [\<lparr>http_method = ''GET'',
                 url = API_BASE_URL env @ ''/api/reviews/'' @ toString appId\<rparr>]"
    by (rule getReviews_log)
  have d: "network env (API_BASE_URL env @ ''/api/reviews/'' @ toString appId) = Inr r'' \<and> ok r''
         \<and> json_reviews r'' = Inr reviews_body
       \<longrightarrow> fst (getReviews env appId log) = Inr reviews_body"
    using getReviews_ok [of env appId r'' reviews_body log] by blast
  have e: "0 \<le> n \<Longrightarrow> n \<le> MAX_SAFE_INTEGER \<Longrightarrow> snd (getReviews env (Num n) log) =
          log @ [\<lparr>http_method = ''GET'',
                   url = API_BASE_URL env @ ''/api/reviews/'' @ digits_of (nat n)\<rparr>]"
    using getReviews_log [of env "Num n" log] by (simp only: toString_safe)
  have f: "0 \<le> n \<Longrightarrow> n \<le> MAX_SAFE_INTEGER \<Longrightarrow>
        network env (API_BASE_URL env @ ''/api/reviews/'' @ digits_of (nat n)) = Inr r' \<and> ok r'
              \<and> json_reviews r' = Inr reviews_body
            \<longrightarrow> fst (getReviews env (Num n) log) = Inr reviews_body"
    using getReviews_ok [of env "Num n" r' reviews_body log] by (simp only: toString_safe) blast
  show ?thesis
    using a b c d e f by blast
qed

theorem endpoint_mapping_witness:
  "snd (getApps (sample_env (Inr sample_ok)) []) =
     [\<lparr>http_method = ''GET'', url = ''http://localhost:8000/api/apps''\<rparr>]
   \<and> fst (getApps (sample_env (Inr sample_ok)) []) =
     Inr \<lparr>items = [\<lparr>app_id = Num 595068606\<rparr>, \<lparr>app_id = Num 447188370\<rparr>]\<rparr>
   \<and> (0::int) \<le> 595068606 \<and> 595068606 \<le> MAX_SAFE_INTEGER
   \<and> snd (getReviews (sample_env (Inr sample_ok)) (Num 595068606) []) =
     [\<lparr>http_method = ''GET'', url = ''http://localhost:8000/api/reviews/595068606''\<rparr>]
   \<and> fst (getReviews (sample_env (Inr sample_ok)) (Num 595068606) []) =
     Inr \<lparr>items = [sample_review]\<rparr>"
proof -
  have d: "digits_of (nat 595068606) = ''595068606''"
    by (simp add: digits_of.simps digit_char_def)
  have t: "toString (Num 595068606) = ''595068606''"
    using toString_safe [of 595068606] d by (simp add: MAX_SAFE_INTEGER_def)
  show ?thesis
    using endpoint_mapping
      [where env = "sample_env (Inr sample_ok)" and log = "[]" and r = sample_ok
         and apps_body = "\<lparr>items = [\<lparr>app_id = Num 595068606\<rparr>, \<lparr>app_id = Num 447188370\<rparr>]\<rparr>"
         and n = 595068606 and r' = sample_ok and reviews_body = "\<lparr>items = [sample_review]\<rparr>"
         and appId = "Num 595068606" and r'' = sample_ok]
    unfolding d by (simp add: sample_env_def sample_ok_def MAX_SAFE_INTEGER_def t)
qed

section \<open>The cut-off date of the day filter\<close>

lemma minus_num_safe:
  "\<bar>a - b\<bar> \<le> MAX_SAFE_INTEGER \<Longrightarrow> minus_num (Num a) (Num b) = Num (a - b)"
  by (simp add: to_double_safe)

text \<open>
  For a day count \<open>d\<close> that leaves the difference with the day of the month exact, the
  cut-off is the local time \<open>d\<close> whole days before now, turned back into UTC.
\<close>

lemma cutoff_text_Num:
  assumes "\<bar>c\<bar> \<le> MAX_TIME"
    and "\<bar>DateFromTime env (LocalTime env c) - d\<bar> \<le> MAX_SAFE_INTEGER"
  shows "cutoff_text env c (Num d) =
     toISOString env (TimeClip (UTC env (LocalTime env c - d * msPerDay)))"
proof -
  have "LocalTime env c
          + (DateFromTime env (LocalTime env c) - d - DateFromTime env (LocalTime env c)) * msPerDay
        = LocalTime env c - d * msPerDay"
    by (simp add: algebra_simps)
  then show ?thesis
    using assms
    by (simp add: cutoff_text_def TimeClip_def getDate_def setDate_def to_double_safe Let_def)
qed

lemma cutoff_text_sample:
  assumes "\<bar>c\<bar> \<le> MAX_TIME" and "\<bar>utc_DateFromTime c - d\<bar> \<le> MAX_SAFE_INTEGER"
  shows "cutoff_text (sample_env x) c (Num d) =
     (if \<bar>c - d * msPerDay\<bar> \<le> MAX_TIME then Inr (utc_iso_format (c - d * msPerDay))
      else Inl (Error ''Invalid time value''))"
proof -
  have l: "LocalTime (sample_env x) t = t" and u: "UTC (sample_env x) t = t" for t
    by (simp_all add: LocalTime_def UTC_def sample_env_def)
  have f: "DateFromTime (sample_env x) = utc_DateFromTime"
    "iso_format (sample_env x) = utc_iso_format"
    "invalid_time_message (sample_env x) = ''Invalid time value''"
    by (simp_all add: sample_env_def)
  have "\<bar>DateFromTime (sample_env x) (LocalTime (sample_env x) c) - d\<bar> \<le> MAX_SAFE_INTEGER"
    using assms(2) by (simp add: l f)
  then show ?thesis
    using cutoff_text_Num [OF assms(1), of "sample_env x" d]
    by (simp add: l u f toISOString_def TimeClip_def)
qed

lemma new_Date_cutoff:
  "toISOString env
     (setDate env (minus_num (getDate env (new_Date w)) (reviewFilterDays w)) (new_Date w))
   = cutoff_text env (clock w) (reviewFilterDays w)"
  by (simp add: cutoff_text_def new_Date_def)


section \<open>Failures of the two fetches\<close>

lemma message_or_case: "message_or e fb = (case e of Error m \<Rightarrow> m | NonError \<Rightarrow> fb)"
  by (cases e) simp_all

lemma fetchApps_settled_failure:
  "failure_surfaced e ''Failed to fetch apps'' w (fetchApps_settled (Inl e) w)
   \<and> \<not> loadingApps (fetchApps_settled (Inl e) w)"
  by (simp add: failure_surfaced_def fetchApps_settled_def message_or_case)

lemma fetchReviews_settled_failure:
  "failure_surfaced e ''Failed to fetch reviews'' w (fetchReviews_settled (Inl e) w)
   \<and> \<not> loadingReviews (fetchReviews_settled (Inl e) w)"
  by (simp add: failure_surfaced_def fetchReviews_settled_def message_or_case)

lemma fetchApps_v2_settled_failure:
  "failure_surfaced e ''Failed to fetch apps'' w (fetchApps_v2_settled (Inl e) w)
   \<and> \<not> loadingApps (fetchApps_v2_settled (Inl e) w)"
  by (simp add: failure_surfaced_def fetchApps_v2_settled_def message_or_case)

lemma fetchReviews_v2_settled_failure:
  "failure_surfaced e ''Failed to fetch reviews'' w (fetchReviews_v2_settled (Inl e) w)
   \<and> \<not> loadingReviews (fetchReviews_v2_settled (Inl e) w)"
  by (simp add: failure_surfaced_def fetchReviews_v2_settled_def message_or_case)

lemma fetchApps_unfold:
  "fetchApps env w =
     fetchApps_settled (fst (getApps env (requests w)))
       (w\<lparr>loadingApps := True, error := None, requests := snd (getApps env (requests w))\<rparr>)"
  by (simp add: fetchApps_def Let_def split: prod.splits)

lemma fetchReviews_unfold:
  "fetchReviews env appId w =
     fetchReviews_settled (fst (getReviews env appId (requests w)))
       (w\<lparr>loadingReviews := True, error := None,
          requests := snd (getReviews env appId (requests w))\<rparr>)"
  by (simp add: fetchReviews_def Let_def split: prod.splits)

lemma fetchApps_v2_unfold:
  "fetchApps_v2 env w =
     fetchApps_v2_settled (fst (getApps env (requests w)))
       (w\<lparr>loadingApps := True, requests := snd (getApps env (requests w))\<rparr>)"
  by (simp add: fetchApps_v2_def Let_def split: prod.splits)

lemma fetchApps_rejected:
  assumes "fst (getApps env (requests w)) = Inl e"
  shows "error (fetchApps env w) = Some (message_or e ''Failed to fetch apps'')
     \<and> \<not> loadingApps (fetchApps env w)
     \<and> apps (fetchApps env w) = apps w \<and> reviews (fetchApps env w) = reviews w
     \<and> requests (fetchApps env w) =
         requests w @ [\<lparr>http_method = ''GET'', url = API_BASE_URL env @ ''/api/apps''\<rparr>]"
  using assms by (simp add: fetchApps_unfold fetchApps_settled_def getApps_log)

lemma fetchReviews_rejected:
  assumes "fst (getReviews env appId (requests w)) = Inl e"
  shows "error (fetchReviews env appId w) = Some (message_or e ''Failed to fetch reviews'')
     \<and> \<not> loadingReviews (fetchReviews env appId w)
     \<and> apps (fetchReviews env appId w) = apps w
     \<and> reviews (fetchReviews env appId w) = reviews w
     \<and> requests (fetchReviews env appId w) =
         requests w @ [\<lparr>http_method = ''GET'',
                         url = API_BASE_URL env @ ''/api/reviews/'' @ toString appId\<rparr>]"
  using assms by (simp add: fetchReviews_unfold fetchReviews_settled_def getReviews_log)

lemma fetchApps_v2_rejected:
  assumes "fst (getApps env (requests w)) = Inl e"
  shows "error (fetchApps_v2 env w) = Some (message_or e ''Failed to fetch apps'')
     \<and> \<not> loadingApps (fetchApps_v2 env w)
     \<and> apps (fetchApps_v2 env w) = apps w \<and> reviews (fetchApps_v2 env w) = reviews w
     \<and> requests (fetchApps_v2 env w) =
         requests w @ [\<lparr>http_method = ''GET'', url = API_BASE_URL env @ ''/api/apps''\<rparr>]"
  using assms by (simp add: fetchApps_v2_unfold fetchApps_v2_settled_def getApps_log)

text \<open>The date from which the second variant asks for reviews, as an ISO string or a throw.\<close>

lemma fetchReviews_v2_unfold:
  "fetchReviews_v2 env appId w =
     (case toISOString env
             (setDate env (minus_num (getDate env (new_Date w)) (reviewFilterDays w)) (new_Date w)) of
        Inl err \<Rightarrow> fetchReviews_v2_settled (Inl err) (w\<lparr>loadingReviews := True\<rparr>)
      | Inr updatedMin \<Rightarrow>
          fetchReviews_v2_settled (fst (getReviews env appId (requests w)))
            (w\<lparr>loadingReviews := True, requests := snd (getReviews env appId (requests w))\<rparr>))"
  by (simp add: fetchReviews_v2_def getReviews_call2_def new_Date_def Let_def
           split: prod.splits sum.splits)

lemma fetchReviews_v2_rejected:
  assumes "toISOString env
             (setDate env (minus_num (getDate env (new_Date w)) (reviewFilterDays w)) (new_Date w))
           = Inr updatedMin"
    and "fst (getReviews env appId (requests w)) = Inl e"
  shows "error (fetchReviews_v2 env appId w) = Some (message_or e ''Failed to fetch reviews'')
     \<and> \<not> loadingReviews (fetchReviews_v2 env appId w)
     \<and> apps (fetchReviews_v2 env appId w) = apps w
     \<and> reviews (fetchReviews_v2 env appId w) = reviews w
     \<and> requests (fetchReviews_v2 env appId w) =
         requests w @ [\<lparr>http_method = ''GET'',
                         url = API_BASE_URL env @ ''/api/reviews/'' @ toString appId\<rparr>]"
  using assms by (simp add: fetchReviews_v2_unfold fetchReviews_v2_settled_def getReviews_log)

text \<open>
  C5. When \<open>getApps\<close> or \<open>getReviews\<close> rejects with \<open>e\<close>, the rest of the fetching function
  only surfaces the failure: the error state becomes the message of \<open>e\<close>, or the fallback
  text when \<open>e\<close> is not an \<open>Error\<close>; the loading flag of that fetch is cleared; the app
  list, the review list and the selection stay as they were; and no further request is
  sent, so the whole call has sent exactly the one request that failed. This holds for
  \<open>fetchApps\<close> and \<open>fetchReviews\<close> of both variants.
\<close>

theorem failure_is_surfacing_only:
  "failure_surfaced e ''Failed to fetch apps'' w (fetchApps_settled (Inl e) w)
   \<and> \<not> loadingApps (fetchApps_settled (Inl e) w)
   \<and> failure_surfaced e ''Failed to fetch reviews'' w (fetchReviews_settled (Inl e) w)
   \<and> \<not> loadingReviews (fetchReviews_settled (Inl e) w)
   \<and> failure_surfaced e ''Failed to fetch apps'' w2 (fetchApps_v2_settled (Inl e) w2)
   \<and> \<not> loadingApps (fetchApps_v2_settled (Inl e) w2)
   \<and> failure_surfaced e ''Failed to fetch reviews'' w2 (fetchReviews_v2_settled (Inl e) w2)
   \<and> \<not> loadingReviews (fetchReviews_v2_settled (Inl e) w2)
   \<and> (fst (getApps env (requests w)) = Inl e \<longrightarrow>
        error (fetchApps env w) = Some (message_or e ''Failed to fetch apps'')
        \<and> \<not> loadingApps (fetchApps env w)
        \<and> apps (fetchApps env w) = apps w \<and> reviews (fetchApps env w) = reviews w
        \<and> requests (fetchApps env w) =
            requests w @ [\<lparr>http_method = ''GET'', url = API_BASE_URL env @ ''/api/apps''\<rparr>])
   \<and> (fst (getReviews env appId (requests w)) = Inl e \<longrightarrow>
        error (fetchReviews env appId w) = Some (message_or e ''Failed to fetch reviews'')
        \<and> \<not> loadingReviews (fetchReviews env appId w)
        \<and> apps (fetchReviews env appId w) = apps w
        \<and> reviews (fetchReviews env appId w) = reviews w
        \<and> requests (fetchReviews env appId w) =
            requests w @ [\<lparr>http_method = ''GET'',
                            url = API_BASE_URL env @ ''/api/reviews/'' @ toString appId\<rparr>])
   \<and> (fst (getApps env (requests w2)) = Inl e \<longrightarrow>
        error (fetchApps_v2 env w2) = Some (message_or e ''Failed to fetch apps'')
        \<and> \<not> loadingApps (fetchApps_v2 env w2)
        \<and> apps (fetchApps_v2 env w2) = apps w2 \<and> reviews (fetchApps_v2 env w2) = reviews w2
        \<and> requests (fetchApps_v2 env w2) =
            requests w2 @ [\<lparr>http_method = ''GET'', url = API_BASE_URL env @ ''/api/apps''\<rparr>])
   \<and> (toISOString env
          (setDate env (minus_num (getDate env (new_Date w2)) (reviewFilterDays w2)) (new_Date w2))
        = Inr updatedMin
        \<and> fst (getReviews env appId (requests w2)) = Inl e \<longrightarrow>
        error (fetchReviews_v2 env appId w2) = Some (message_or e ''Failed to fetch reviews'')
        \<and> \<not> loadingReviews (fetchReviews_v2 env appId w2)
        \<and> apps (fetchReviews_v2 env appId w2) = apps w2
        \<and> reviews (fetchReviews_v2 env appId w2) = reviews w2
        \<and> requests (fetchReviews_v2 env appId w2) =
            requests w2 @ [\<lparr>http_method = ''GET'',
                             url = API_BASE_URL env @ ''/api/reviews/'' @ toString appId\<rparr>])"
  using fetchApps_settled_failure [of e w] fetchReviews_settled_failure [of e w]
    fetchApps_v2_settled_failure [of e w2] fetchReviews_v2_settled_failure [of e w2]
    fetchApps_rejected [of env w e] fetchReviews_rejected [of env appId w e]
    fetchApps_v2_rejected [of env w2 e] fetchReviews_v2_rejected [of env w2 updatedMin appId e]
  by blast

theorem failure_is_surfacing_only_witness:
  "fst (getApps (sample_env (Inr sample_500)) (requests (initial_world ''/'' 0)))
     = Inl (Error ''HTTP error! status: 500'')
   \<and> error (fetchApps (sample_env (Inr sample_500)) (initial_world ''/'' 0))
     = Some ''HTTP error! status: 500''
   \<and> requests (fetchApps (sample_env (Inr sample_500)) (initial_world ''/'' 0))
     = [\<lparr>http_method = ''GET'', url = ''http://localhost:8000/api/apps''\<rparr>]
   \<and> fst (getReviews (sample_env (Inr sample_500)) (Num 7) (requests (initial_world ''/'' 0)))
     = Inl (Error ''HTTP error! status: 500'')
   \<and> error (fetchReviews (sample_env (Inr sample_500)) (Num 7) (initial_world ''/'' 0))
     = Some ''HTTP error! status: 500''
   \<and> requests (fetchReviews (sample_env (Inr sample_500)) (Num 7) (initial_world ''/'' 0))
     = [\<lparr>http_method = ''GET'', url = ''http://localhost:8000/api/reviews/7''\<rparr>]
   \<and> error (fetchApps_v2 (sample_env (Inr sample_500)) (initial_world_v2 ''/'' 0))
     = Some ''HTTP error! status: 500''
   \<and> toISOString (sample_env (Inr sample_500))
        (setDate (sample_env (Inr sample_500))
           (minus_num (getDate (sample_env (Inr sample_500)) (new_Date (initial_world_v2 ''/'' 0)))
              (reviewFilterDays (initial_world_v2 ''/'' 0)))
           (new_Date (initial_world_v2 ''/'' 0)))
     = Inr ''1969-12-22T00:00:00.000Z''
   \<and> error (fetchReviews_v2 (sample_env (Inr sample_500)) (Num 7) (initial_world_v2 ''/'' 0))
     = Some ''HTTP error! status: 500''
   \<and> requests (fetchReviews_v2 (sample_env (Inr sample_500)) (Num 7) (initial_world_v2 ''/'' 0))
     = [\<lparr>http_method = ''GET'', url = ''http://localhost:8000/api/reviews/7''\<rparr>]
   \<and> error (fetchApps_settled (Inl NonError) (initial_world ''/'' 0)) = Some ''Failed to fetch apps''
   \<and> error (fetchReviews_settled (Inl NonError) (initial_world ''/'' 0))
     = Some ''Failed to fetch reviews''"
proof -
  have d: "digits_of 500 = ''500''" "digits_of 7 = ''7''"
    by (simp_all add: digits_of.simps digit_char_def)
  have r1: "requests (initial_world ''/'' 0) = []" and u1: "API_BASE_URL (sample_env x) = ''http://localhost:8000''" for x
    by (simp_all add: initial_world_def sample_env_def)
  have r2: "requests (initial_world_v2 ''/'' 0) = []"
    by (simp add: initial_world_v2_def)
  have h1: "fst (getApps (sample_env (Inr sample_500)) []) = Inl (Error ''HTTP error! status: 500'')"
    by (simp add: getApps_def apiRequest_result sample_env_def sample_500_def d)
  have t: "toString (Num 7) = ''7''"
    using toString_safe [of 7] d by (simp add: MAX_SAFE_INTEGER_def)
  have h2: "fst (getReviews (sample_env (Inr sample_500)) (Num 7) [])
     = Inl (Error ''HTTP error! status: 500'')"
    by (simp add: getReviews_def apiRequest_result sample_env_def sample_500_def d)
  have iso: "utc_iso_format (- 864000000) = ''1969-12-22T00:00:00.000Z''"
    by code_simp
  have dom: "utc_DateFromTime 0 = 1"
    by code_simp
  have h3: "toISOString (sample_env (Inr sample_500))
        (setDate (sample_env (Inr sample_500))
           (minus_num (getDate (sample_env (Inr sample_500)) (new_Date (initial_world_v2 ''/'' 0)))
              (reviewFilterDays (initial_world_v2 ''/'' 0)))
           (new_Date (initial_world_v2 ''/'' 0)))
     = Inr ''1969-12-22T00:00:00.000Z''"
    using cutoff_text_sample [of 0 10 "Inr sample_500"] dom iso
    unfolding new_Date_cutoff
    by (simp add: initial_world_v2_def MAX_TIME_def MAX_SAFE_INTEGER_def msPerDay_def)
  have s: "error (fetchApps_settled (Inl NonError) (initial_world ''/'' 0)) = Some ''Failed to fetch apps''"
    "error (fetchReviews_settled (Inl NonError) (initial_world ''/'' 0)) = Some ''Failed to fetch reviews''"
    using failure_is_surfacing_only
      [of NonError "initial_world ''/'' 0" "initial_world_v2 ''/'' 0" "sample_env (Inr sample_500)"
          "Num 7" "''1969-12-22T00:00:00.000Z''"]
    by (simp_all add: failure_surfaced_def)
  show ?thesis
    using failure_is_surfacing_only
      [of "Error ''HTTP error! status: 500''" "initial_world ''/'' 0" "initial_world_v2 ''/'' 0"
          "sample_env (Inr sample_500)" "Num 7" "''1969-12-22T00:00:00.000Z''"]
      h1 h2 h3 s
    unfolding r1 r2 u1 by (simp add: d t)
qed

section \<open>What the callbacks and the polling effect leave unchanged\<close>

lemma fetchReviews_frame: "frame_preserving (fetchReviews env)"
  by (simp add: frame_preserving_def fetchReviews_unfold fetchReviews_settled_def
           split: sum.splits)

lemma fetchReviews_v2_frame: "frame_preserving (fetchReviews_v2 env)"
  by (simp add: frame_preserving_def fetchReviews_v2_unfold fetchReviews_v2_settled_def
           split: sum.splits)

lemma fetchReviews_v2_hooks:
  "customAppId (fetchReviews_v2 env a v) = customAppId v
   \<and> reviewFilterDays (fetchReviews_v2 env a v) = reviewFilterDays v
   \<and> apps (fetchReviews_v2 env a v) = apps v"
  by (simp add: fetchReviews_v2_unfold fetchReviews_v2_settled_def split: sum.splits)

lemma run_cleanup_fields:
  "pathname (run_cleanup w) = pathname w \<and> history (run_cleanup w) = history w
   \<and> selectedAppId (run_cleanup w) = selectedAppId w \<and> requests (run_cleanup w) = requests w
   \<and> clock (run_cleanup w) = clock w \<and> next_handle (run_cleanup w) = next_handle w
   \<and> polling_cleanup (run_cleanup w) = None"
  by (simp add: run_cleanup_def clearInterval_def split: option.splits)

lemma polling_effect_None:
  "selectedAppId w = None \<Longrightarrow> polling_effect f w = w\<lparr>polling_cleanup := None\<rparr>"
  by (simp add: polling_effect_def)

lemma polling_effect_Some:
  "selectedAppId w = Some appId \<Longrightarrow>
   polling_effect f w =
     (f appId w)\<lparr>intervals := intervals (f appId w) @
                    [\<lparr>handle = next_handle (f appId w), callback_appId = appId,
                      delay = REFRESH_INTERVAL,
                      due = clock (f appId w) + int REFRESH_INTERVAL\<rparr>],
                  next_handle := Suc (next_handle (f appId w)),
                  polling_cleanup := Some (next_handle (f appId w))\<rparr>"
  by (simp add: polling_effect_def setInterval_def Let_def)

lemma rerun_polling_location:
  assumes "frame_preserving f"
  shows "pathname (rerun_polling f w) = pathname w
     \<and> selectedAppId (rerun_polling f w) = selectedAppId w"
proof (cases "selectedAppId w")
  case None
  then show ?thesis
    by (simp add: rerun_polling_def polling_effect_None run_cleanup_fields)
next
  case (Some appId)
  then have "selectedAppId (run_cleanup w) = Some appId"
    by (simp add: run_cleanup_fields)
  then show ?thesis
    using assms Some
    by (simp add: rerun_polling_def polling_effect_Some frame_preserving_def run_cleanup_fields)
qed

lemma url_synced_rerun:
  "frame_preserving f \<Longrightarrow> url_synced (rerun_polling f w) = url_synced w"
  using rerun_polling_location [of f w]
  by (simp add: url_synced_def getAppIdFromUrl_def)

lemma url_synced_commit: "url_synced (commit env before after) = url_synced after"
  by (simp add: commit_def url_synced_rerun fetchReviews_frame)

lemma url_synced_commit_v2: "url_synced (commit_v2 env before after) = url_synced after"
  by (simp add: commit_v2_def url_synced_rerun fetchReviews_v2_frame)

lemma rerun_polling_v2_hooks:
  "customAppId (rerun_polling (fetchReviews_v2 env) w) = customAppId w
   \<and> apps (rerun_polling (fetchReviews_v2 env) w) = apps w"
proof (cases "selectedAppId w")
  case None
  then show ?thesis
    by (simp add: rerun_polling_def polling_effect_None run_cleanup_fields run_cleanup_def
          clearInterval_def split: option.splits)
next
  case (Some appId)
  then have "selectedAppId (run_cleanup w) = Some appId"
    by (simp add: run_cleanup_fields)
  then show ?thesis
    by (simp add: rerun_polling_def polling_effect_Some fetchReviews_v2_hooks run_cleanup_def
          clearInterval_def split: option.splits)
qed

lemma commit_v2_fields:
  "selectedAppId (commit_v2 env before after) = selectedAppId after
   \<and> pathname (commit_v2 env before after) = pathname after
   \<and> customAppId (commit_v2 env before after) = customAppId after
   \<and> apps (commit_v2 env before after) = apps after"
  using rerun_polling_location [OF fetchReviews_v2_frame, of env after]
    rerun_polling_v2_hooks [of env after]
  by (simp add: commit_v2_def)

lemma commit_fields:
  "selectedAppId (commit env before after) = selectedAppId after
   \<and> pathname (commit env before after) = pathname after"
  using rerun_polling_location [OF fetchReviews_frame, of env after]
  by (simp add: commit_def)

section \<open>Submitting a custom app id\<close>


lemma greater_zero_truthy: "greater p (Num 0) \<Longrightarrow> truthy (Some p)"
  by (cases p) simp_all

lemma submit_accepted:
  assumes "\<not> isNaN (parseInt (customAppId w))" and "greater (parseInt (customAppId w)) (Num 0)"
  shows "handleCustomAppIdSubmit w =
           pushState (''/app/'' @ toString (parseInt (customAppId w)))
             (w\<lparr>selectedAppId := Some (parseInt (customAppId w)), customAppId := []\<rparr>)"
  using assms
  by (simp add: handleCustomAppIdSubmit_def Let_def updateUrl_truthy greater_zero_truthy)

lemma submit_valid:
  assumes "parseInt (customAppId w) = Num n" and "0 < n" and "n \<le> MAX_SAFE_INTEGER"
  shows "handleCustomAppIdSubmit w =
           pushState (''/app/'' @ digits_of (nat n)) (w\<lparr>selectedAppId := Some (Num n), customAppId := []\<rparr>)"
  using assms by (simp add: submit_accepted isNaN_def toString_safe)

lemma parseInt_digits_of: "parseInt (digits_of k) = to_double (int k)"
  using parseInt_digits [OF digits_of_nonempty digits_of_all_digits, of k]
  by (simp add: decimal_value_digits_of)

lemma parseInt_1e21: "parseInt ''1000000000000000000000'' = Num 1000000000000000000000"
proof -
  have d: "digits_of 1000000000000000000000 = ''1000000000000000000000''"
    by (simp add: digits_of.simps digit_char_def)
  show ?thesis
    using parseInt_digits_of [of 1000000000000000000000]
    unfolding d by (simp add: to_double_1e21)
qed



section \<open>The selection and the URL\<close>

lemma getAppIdFromUrl_pathname:
  "pathname a = pathname b \<Longrightarrow> getAppIdFromUrl a = getAppIdFromUrl b"
  by (simp add: getAppIdFromUrl_def)

lemma getAppIdFromUrl_not_NaN: "getAppIdFromUrl w \<noteq> Some NaN"
  by (simp add: getAppIdFromUrl_first to_double_not_NaN split: option.splits)

lemma truthy_url:
  "truthy (getAppIdFromUrl w) \<longleftrightarrow>
     getAppIdFromUrl w \<noteq> None \<and> getAppIdFromUrl w \<noteq> Some (Num 0)"
proof (cases "getAppIdFromUrl w")
  case None
  then show ?thesis by simp
next
  case (Some x)
  then show ?thesis
    using getAppIdFromUrl_not_NaN [of w] by (cases x) auto
qed

lemma fold_fire_location:
  assumes "frame_preserving f"
  shows "pathname (fold (fire f) js w) = pathname w
     \<and> selectedAppId (fold (fire f) js w) = selectedAppId w"
proof (induction js arbitrary: w)
  case Nil
  show ?case by simp
next
  case (Cons j js)
  have "pathname (fire f j w) = pathname w \<and> selectedAppId (fire f j w) = selectedAppId w"
    using assms by (simp add: fire_def frame_preserving_def Let_def)
  with Cons [of "fire f j w"] show ?case by simp
qed

lemma tick_location:
  assumes "frame_preserving f"
  shows "pathname (tick f w) = pathname w \<and> selectedAppId (tick f w) = selectedAppId w"
  using fold_fire_location [OF assms] by (simp add: tick_def Let_def)

lemma url_synced_tick: "frame_preserving f \<Longrightarrow> url_synced (tick f w) = url_synced w"
  using tick_location [of f w] by (simp add: url_synced_def getAppIdFromUrl_def)

text \<open>The first variant.\<close>

lemma popstate_synced: "url_synced (step env (PopState p) w)"
proof -
  have "url_synced (handlePopState (w\<lparr>pathname := p\<rparr>))"
    by (simp add: url_synced_def handlePopState_def getAppIdFromUrl_def)
  then show ?thesis
    by (simp add: url_synced_commit)
qed

lemma select_synced:
  assumes "0 < n" and "n \<le> MAX_SAFE_INTEGER"
  shows "url_synced (step env (Select (Num n)) w)
     \<and> selectedAppId (step env (Select (Num n)) w) = Some (Num n)"
proof -
  have a: "handleAppSelect (Num n) w =
             pushState (''/app/'' @ digits_of (nat n)) (w\<lparr>selectedAppId := Some (Num n)\<rparr>)"
    using assms by (simp add: handleAppSelect_def updateUrl_positive)
  have b: "getAppIdFromUrl (handleAppSelect (Num n) w) = Some (Num n)"
    using assms getAppIdFromUrl_pushState_digits [of "nat n"] by (simp add: a to_double_safe)
  have c: "selectedAppId (handleAppSelect (Num n) w) = Some (Num n)"
    by (simp add: a pushState_def)
  have "url_synced (handleAppSelect (Num n) w)"
    using b c by (simp add: url_synced_def)
  then show ?thesis
    using c by (simp add: url_synced_commit commit_fields)
qed

lemma fetchApps_success:
  assumes "fst (getApps env (requests w)) = Inr response"
  shows "pathname (fetchApps env w) = pathname w
     \<and> apps (fetchApps env w) = items response
     \<and> selectedAppId (fetchApps env w) =
         (if truthy (getAppIdFromUrl w) then getAppIdFromUrl w else selectedAppId w)"
  using assms
  by (simp add: fetchApps_unfold fetchApps_settled_def Let_def getAppIdFromUrl_def)

lemma mount_synced:
  assumes "fst (getApps env (requests w)) = Inr response"
    and "selectedAppId w = None" and "getAppIdFromUrl w \<noteq> Some (Num 0)"
  shows "url_synced (mount env w)"
proof -
  have p: "getAppIdFromUrl (fetchApps env w) = getAppIdFromUrl w"
    using fetchApps_success [OF assms(1)] by (simp add: getAppIdFromUrl_def)
  have "selectedAppId (fetchApps env w) = getAppIdFromUrl w"
  proof (cases "truthy (getAppIdFromUrl w)")
    case True
    then show ?thesis
      using fetchApps_success [OF assms(1)] by simp
  next
    case False
    then have "getAppIdFromUrl w = None"
      using assms(3) truthy_url [of w] by blast
    then show ?thesis
      using fetchApps_success [OF assms(1)] assms(2) by simp
  qed
  then have "url_synced (fetchApps env w)"
    by (simp add: url_synced_def p)
  then show ?thesis
    by (simp add: mount_def url_synced_commit)
qed

text \<open>The second variant.\<close>

lemma select_v2_synced:
  assumes "0 < n" and "n \<le> MAX_SAFE_INTEGER"
  shows "url_synced (step_v2 env (Select_v2 (Num n)) w)
     \<and> selectedAppId (step_v2 env (Select_v2 (Num n)) w) = Some (Num n)"
proof -
  have a: "handleAppSelect_v2 (Num n) w =
             pushState (''/app/'' @ digits_of (nat n))
               (w\<lparr>selectedAppId := Some (Num n), customAppId := []\<rparr>)"
    using assms by (simp add: handleAppSelect_v2_def updateUrl_positive)
  have b: "getAppIdFromUrl (handleAppSelect_v2 (Num n) w) = Some (Num n)"
    using assms getAppIdFromUrl_pushState_digits [of "nat n"] by (simp add: a to_double_safe)
  have c: "selectedAppId (handleAppSelect_v2 (Num n) w) = Some (Num n)"
    by (simp add: a pushState_def)
  have "url_synced (handleAppSelect_v2 (Num n) w)"
    using b c by (simp add: url_synced_def)
  then show ?thesis
    using c by (simp add: url_synced_commit_v2 commit_v2_fields)
qed

lemma submit_synced:
  assumes "parseInt (customAppId w) = Num n" and "0 < n" and "n \<le> MAX_SAFE_INTEGER"
  shows "url_synced (step_v2 env SubmitCustomAppId w)
     \<and> selectedAppId (step_v2 env SubmitCustomAppId w) = Some (Num n)"
proof -
  have b: "getAppIdFromUrl (handleCustomAppIdSubmit w) = Some (Num n)"
    using assms getAppIdFromUrl_pushState_digits [of "nat n"]
    by (simp add: submit_valid [OF assms] to_double_safe)
  have c: "selectedAppId (handleCustomAppIdSubmit w) = Some (Num n)"
    by (simp add: submit_valid [OF assms] pushState_def)
  have "url_synced (handleCustomAppIdSubmit w)"
    using b c by (simp add: url_synced_def)
  then show ?thesis
    using c by (simp add: url_synced_commit_v2 commit_v2_fields)
qed

text \<open>
  Beyond \<open>2^53 - 1\<close> the agreement can fail: after submitting the 22 digits of \<open>10^21\<close>
  the selection is \<open>10^21\<close> and the URL is \<open>/app/1e+21\<close>, from which 1 is read.
\<close>

lemma submit_large_id:
  "selectedAppId (step_v2 env SubmitCustomAppId (w\<lparr>customAppId := ''1000000000000000000000''\<rparr>))
     = Some (Num 1000000000000000000000)
   \<and> getAppIdFromUrl
        (step_v2 env SubmitCustomAppId (w\<lparr>customAppId := ''1000000000000000000000''\<rparr>))
     = Some (Num 1)"
proof -
  let ?w = "w\<lparr>customAppId := ''1000000000000000000000''\<rparr>"
  have a: "handleCustomAppIdSubmit ?w =
             pushState ''/app/1e+21''
               (?w\<lparr>selectedAppId := Some (Num 1000000000000000000000), customAppId := []\<rparr>)"
    using submit_accepted [of ?w] by (simp add: parseInt_1e21 toString_1e21 isNaN_def)
  have "pathname (step_v2 env SubmitCustomAppId ?w) = ''/app/1e+21''"
    by (simp add: commit_v2_fields a pushState_def)
  then have "getAppIdFromUrl (step_v2 env SubmitCustomAppId ?w) = Some (Num 1)"
    by (rule read_back_1e21)
  then show ?thesis
    by (simp add: commit_v2_fields a pushState_def)
qed

lemma popstate_v2_listed:
  assumes "getAppIdFromUrl (w\<lparr>pathname := p\<rparr>) = Some (Num n)" and "n \<noteq> 0"
    and "list_ex (\<lambda>app. strict_eq (app_id app) (Num n)) (apps w)"
  shows "url_synced (step_v2 env (PopState_v2 p) w)
     \<and> selectedAppId (step_v2 env (PopState_v2 p) w) = Some (Num n)"
proof -
  have a: "handlePopState_v2 (w\<lparr>pathname := p\<rparr>) =
             w\<lparr>pathname := p, selectedAppId := Some (Num n), customAppId := []\<rparr>"
    using assms by (simp add: handlePopState_v2_def)
  have b: "getAppIdFromUrl (handlePopState_v2 (w\<lparr>pathname := p\<rparr>)) = Some (Num n)"
    using assms(1) by (simp add: a getAppIdFromUrl_def)
  have c: "selectedAppId (handlePopState_v2 (w\<lparr>pathname := p\<rparr>)) = getAppIdFromUrl (w\<lparr>pathname := p\<rparr>)"
    using assms(1) by (simp add: a)
  have "url_synced (handlePopState_v2 (w\<lparr>pathname := p\<rparr>))"
    using b c assms(1) by (simp add: url_synced_def)
  then show ?thesis
    using c assms(1) by (simp add: url_synced_commit_v2 commit_v2_fields)
qed

lemma popstate_v2_unlisted:
  assumes "getAppIdFromUrl (w\<lparr>pathname := p\<rparr>) = Some (Num n)" and "0 < n"
    and "\<not> list_ex (\<lambda>app. strict_eq (app_id app) (Num n)) (apps w)"
  shows "selectedAppId (step_v2 env (PopState_v2 p) w) = None
     \<and> customAppId (step_v2 env (PopState_v2 p) w) = toString (Num n)
     \<and> pathname (step_v2 env (PopState_v2 p) w) = p"
proof -
  have a: "handlePopState_v2 (w\<lparr>pathname := p\<rparr>) =
             w\<lparr>pathname := p, customAppId := toString (Num n), selectedAppId := None\<rparr>"
    using assms by (simp add: handlePopState_v2_def)
  show ?thesis
    by (simp add: commit_v2_fields a)
qed

lemma popstate_v2_no_id:
  assumes "getAppIdFromUrl (w\<lparr>pathname := p\<rparr>) = None"
  shows "url_synced (step_v2 env (PopState_v2 p) w)
     \<and> selectedAppId (step_v2 env (PopState_v2 p) w) = None"
proof -
  have a: "handlePopState_v2 (w\<lparr>pathname := p\<rparr>) =
             w\<lparr>pathname := p, selectedAppId := None, customAppId := []\<rparr>"
    using assms by (simp add: handlePopState_v2_def)
  have b: "getAppIdFromUrl (handlePopState_v2 (w\<lparr>pathname := p\<rparr>)) = None"
    using assms by (simp add: a getAppIdFromUrl_def)
  have c: "selectedAppId (handlePopState_v2 (w\<lparr>pathname := p\<rparr>)) = getAppIdFromUrl (w\<lparr>pathname := p\<rparr>)"
    using assms(1) by (simp add: a)
  have "url_synced (handlePopState_v2 (w\<lparr>pathname := p\<rparr>))"
    using b c assms(1) by (simp add: url_synced_def)
  then show ?thesis
    using c assms(1) by (simp add: url_synced_commit_v2 commit_v2_fields)
qed

lemma fetchApps_v2_success:
  assumes "fst (getApps env (requests w)) = Inr response"
    and "getAppIdFromUrl w = Some (Num n)" and "0 < n"
  shows "pathname (fetchApps_v2 env w) = pathname w
     \<and> (list_ex (\<lambda>app. strict_eq (app_id app) (Num n)) (items response) \<longrightarrow>
          selectedAppId (fetchApps_v2 env w) = Some (Num n)
          \<and> customAppId (fetchApps_v2 env w) = customAppId w)
     \<and> (\<not> list_ex (\<lambda>app. strict_eq (app_id app) (Num n)) (items response) \<longrightarrow>
          selectedAppId (fetchApps_v2 env w) = selectedAppId w
          \<and> customAppId (fetchApps_v2 env w) = toString (Num n))"
proof -
  have u: "getAppIdFromUrl
             (w\<lparr>loadingApps := True, requests := snd (getApps env (requests w)),
                error := None, apps := items response\<rparr>) = Some (Num n)"
    using assms(2) by (simp add: getAppIdFromUrl_def)
  show ?thesis
    using assms(1,3) u
    by (simp add: fetchApps_v2_unfold fetchApps_v2_settled_def Let_def)
qed

lemma mount_v2_outcome:
  assumes "fst (getApps env (requests w)) = Inr response"
    and "getAppIdFromUrl w = Some (Num n)" and "0 < n"
  shows "(list_ex (\<lambda>app. strict_eq (app_id app) (Num n)) (items response) \<longrightarrow>
            url_synced (mount_v2 env w))
     \<and> (\<not> list_ex (\<lambda>app. strict_eq (app_id app) (Num n)) (items response) \<longrightarrow>
            selectedAppId (mount_v2 env w) = selectedAppId w
            \<and> customAppId (mount_v2 env w) = toString (Num n))"
proof -
  have "getAppIdFromUrl (fetchApps_v2 env w) = Some (Num n)"
    using fetchApps_v2_success [OF assms] assms(2) by (simp add: getAppIdFromUrl_def)
  then have "list_ex (\<lambda>app. strict_eq (app_id app) (Num n)) (items response) \<longrightarrow>
            url_synced (fetchApps_v2 env w)"
    using fetchApps_v2_success [OF assms] by (simp add: url_synced_def)
  then show ?thesis
    using fetchApps_v2_success [OF assms]
    by (simp add: mount_v2_def url_synced_commit_v2 commit_v2_fields)
qed

lemma getAppIdFromUrl_digits_path:
  assumes "pathname x = ''/app/'' @ digits_of k" and "int k \<le> MAX_SAFE_INTEGER"
  shows "getAppIdFromUrl x = Some (Num (int k))"
proof -
  have "getAppIdFromUrl x = getAppIdFromUrl (pushState (''/app/'' @ digits_of k) x)"
    using assms(1) by (simp add: getAppIdFromUrl_def pushState_def)
  then show ?thesis
    using assms(2) by (simp only: getAppIdFromUrl_pushState_digits) (simp add: to_double_safe)
qed

lemma sample_ok_apps:
  "fst (getApps (sample_env (Inr sample_ok)) log) =
     Inr \<lparr>items = [\<lparr>app_id = Num 595068606\<rparr>, \<lparr>app_id = Num 447188370\<rparr>]\<rparr>"
  by (simp add: getApps_def apiRequest_result sample_env_def sample_ok_def)

lemma sample_digits:
  "digits_of 447188370 = ''447188370''" "digits_of 5 = ''5''"
  by (simp_all add: digits_of.simps digit_char_def)

lemma sample_texts:
  "toString (Num 447188370) = ''447188370''" "toString (Num 5) = ''5''"
  using toString_safe [of 447188370] toString_safe [of 5]
  by (simp_all add: sample_digits MAX_SAFE_INTEGER_def)

text \<open>
  C1, as the claim states it, fails in the second variant. Loaded at \<open>/app/5\<close> with a
  backend that does not list app 5, the component has mounted with no selection while
  the URL holds the id 5; and going back to \<open>/app/5\<close> from \<open>/\<close> ends the same way.
\<close>

theorem selection_url_counterexample:
  "selectedAppId (mount_v2 (sample_env (Inr sample_ok)) sample_unlisted) = None
   \<and> getAppIdFromUrl (mount_v2 (sample_env (Inr sample_ok)) sample_unlisted) = Some (Num 5)
   \<and> selectedAppId
        (step_v2 (sample_env (Inr sample_ok)) (PopState_v2 ''/app/5'')
           (mount_v2 (sample_env (Inr sample_ok)) (initial_world_v2 ''/'' 0))) = None
   \<and> getAppIdFromUrl
        (step_v2 (sample_env (Inr sample_ok)) (PopState_v2 ''/app/5'')
           (mount_v2 (sample_env (Inr sample_ok)) (initial_world_v2 ''/'' 0))) = Some (Num 5)"
proof -
  let ?env = "sample_env (Inr sample_ok)"
  let ?r = "\<lparr>items = [\<lparr>app_id = Num 595068606\<rparr>, \<lparr>app_id = Num 447188370\<rparr>]\<rparr> :: GetAppsResponse"
  have ms: "(5::int) \<le> MAX_SAFE_INTEGER"
    by (simp add: MAX_SAFE_INTEGER_def)
  have u: "getAppIdFromUrl sample_unlisted = Some (Num 5)"
    using getAppIdFromUrl_digits_path [of sample_unlisted 5]
    by (simp add: sample_unlisted_def initial_world_v2_def sample_digits ms)
  have s: "selectedAppId sample_unlisted = None"
    by (simp add: sample_unlisted_def initial_world_v2_def)
  have m: "selectedAppId (mount_v2 ?env sample_unlisted) = None"
    using mount_v2_outcome [of ?env sample_unlisted ?r 5] u s
    by (simp add: sample_ok_apps)
  have pm: "pathname (mount_v2 ?env sample_unlisted) = ''/app/5''"
    using fetchApps_v2_success [of ?env sample_unlisted ?r 5] u
    by (simp add: mount_v2_def commit_v2_fields sample_ok_apps sample_unlisted_def
          initial_world_v2_def)
  have um: "getAppIdFromUrl (mount_v2 ?env sample_unlisted) = Some (Num 5)"
    using getAppIdFromUrl_digits_path [of "mount_v2 ?env sample_unlisted" 5]
    by (simp add: pm sample_digits ms)
  let ?w = "mount_v2 ?env (initial_world_v2 ''/'' 0)"
  have a: "apps ?w = items ?r"
    by (simp add: mount_v2_def commit_v2_fields fetchApps_v2_unfold fetchApps_v2_settled_def
          sample_ok_apps getAppIdFromUrl_def initial_world_v2_def)
  have up: "getAppIdFromUrl (?w\<lparr>pathname := ''/app/5''\<rparr>) = Some (Num 5)"
    using getAppIdFromUrl_digits_path [of "?w\<lparr>pathname := ''/app/5''\<rparr>" 5]
    by (simp add: sample_digits ms)
  have nl: "\<not> list_ex (\<lambda>app. strict_eq (app_id app) (Num 5)) (apps ?w)"
    by (simp add: a)
  have p: "selectedAppId (step_v2 ?env (PopState_v2 ''/app/5'') ?w) = None
     \<and> pathname (step_v2 ?env (PopState_v2 ''/app/5'') ?w) = ''/app/5''"
    using popstate_v2_unlisted [OF up _ nl, where env = ?env] by simp
  have "getAppIdFromUrl (step_v2 ?env (PopState_v2 ''/app/5'') ?w) = Some (Num 5)"
    using getAppIdFromUrl_digits_path [of "step_v2 ?env (PopState_v2 ''/app/5'') ?w" 5] p
    by (simp add: sample_digits ms)
  then show ?thesis
    using m um p by simp
qed

text \<open>
  C1, amended. Ids are positive integers up to \<open>2^53 - 1\<close>. In the first variant the
  selection equals the id parsed from the URL after every \<open>popstate\<close>, after selecting an
  id in the dropdown, and after the mount once \<open>getApps\<close> has succeeded (for a URL whose
  id is not 0); a timer tick keeps the agreement. In the second variant the same holds
  after selecting an id in the dropdown, after submitting a custom id, and after a
  \<open>popstate\<close> to a URL without an id. For a URL with an id, the second variant selects
  that id on mount and on \<open>popstate\<close> only when the app list holds it; when the list does
  not, the decimal text of the id goes into the custom field and the selection stays as
  it was (mount) or becomes \<open>null\<close> (\<open>popstate\<close>).
\<close>

theorem selection_follows_url:
  "url_synced (step env (PopState p) w)
   \<and> (0 < n \<and> n \<le> MAX_SAFE_INTEGER \<longrightarrow>
        url_synced (step env (Select (Num n)) w)
        \<and> selectedAppId (step env (Select (Num n)) w) = Some (Num n))
   \<and> (fst (getApps env (requests w)) = Inr response \<and> selectedAppId w = None
        \<and> getAppIdFromUrl w \<noteq> Some (Num 0) \<longrightarrow> url_synced (mount env w))
   \<and> (url_synced w' \<longrightarrow> url_synced (step env Tick w'))
   \<and> (0 < n \<and> n \<le> MAX_SAFE_INTEGER \<longrightarrow>
        url_synced (step_v2 env (Select_v2 (Num n)) w2)
        \<and> selectedAppId (step_v2 env (Select_v2 (Num n)) w2) = Some (Num n))
   \<and> (parseInt (customAppId w2) = Num n \<and> 0 < n \<and> n \<le> MAX_SAFE_INTEGER \<longrightarrow>
        url_synced (step_v2 env SubmitCustomAppId w2)
        \<and> selectedAppId (step_v2 env SubmitCustomAppId w2) = Some (Num n))
   \<and> (getAppIdFromUrl (w2\<lparr>pathname := p0\<rparr>) = None \<longrightarrow>
        url_synced (step_v2 env (PopState_v2 p0) w2)
        \<and> selectedAppId (step_v2 env (PopState_v2 p0) w2) = None)
   \<and> (getAppIdFromUrl (w2\<lparr>pathname := p\<rparr>) = Some (Num n) \<and> 0 < n \<longrightarrow>
        (list_ex (\<lambda>app. strict_eq (app_id app) (Num n)) (apps w2) \<longrightarrow>
           url_synced (step_v2 env (PopState_v2 p) w2)
           \<and> selectedAppId (step_v2 env (PopState_v2 p) w2) = Some (Num n))
        \<and> (\<not> list_ex (\<lambda>app. strict_eq (app_id app) (Num n)) (apps w2) \<longrightarrow>
           selectedAppId (step_v2 env (PopState_v2 p) w2) = None
           \<and> customAppId (step_v2 env (PopState_v2 p) w2) = toString (Num n)
           \<and> (n \<le> MAX_SAFE_INTEGER \<longrightarrow>
                customAppId (step_v2 env (PopState_v2 p) w2) = digits_of (nat n))))
   \<and> (fst (getApps env (requests w2)) = Inr response2 \<and> getAppIdFromUrl w2 = Some (Num n)
        \<and> 0 < n \<longrightarrow>
        (list_ex (\<lambda>app. strict_eq (app_id app) (Num n)) (items response2) \<longrightarrow>
           url_synced (mount_v2 env w2))
        \<and> (\<not> list_ex (\<lambda>app. strict_eq (app_id app) (Num n)) (items response2) \<longrightarrow>
           selectedAppId (mount_v2 env w2) = selectedAppId w2
           \<and> customAppId (mount_v2 env w2) = toString (Num n)
           \<and> (n \<le> MAX_SAFE_INTEGER \<longrightarrow>
                customAppId (mount_v2 env w2) = digits_of (nat n))))"
proof -
  have a: "url_synced (step env (PopState p) w)"
    by (rule popstate_synced)
  have b: "0 < n \<and> n \<le> MAX_SAFE_INTEGER \<longrightarrow>
        url_synced (step env (Select (Num n)) w)
        \<and> selectedAppId (step env (Select (Num n)) w) = Some (Num n)"
    using select_synced [of n env w] by blast
  have c: "fst (getApps env (requests w)) = Inr response \<and> selectedAppId w = None
        \<and> getAppIdFromUrl w \<noteq> Some (Num 0) \<longrightarrow> url_synced (mount env w)"
    using mount_synced [of env w response] by blast
  have d: "url_synced w' \<longrightarrow> url_synced (step env Tick w')"
    by (simp add: url_synced_tick fetchReviews_frame)
  have e: "0 < n \<and> n \<le> MAX_SAFE_INTEGER \<longrightarrow>
        url_synced (step_v2 env (Select_v2 (Num n)) w2)
        \<and> selectedAppId (step_v2 env (Select_v2 (Num n)) w2) = Some (Num n)"
    using select_v2_synced [of n env w2] by blast
  have f: "parseInt (customAppId w2) = Num n \<and> 0 < n \<and> n \<le> MAX_SAFE_INTEGER \<longrightarrow>
        url_synced (step_v2 env SubmitCustomAppId w2)
        \<and> selectedAppId (step_v2 env SubmitCustomAppId w2) = Some (Num n)"
    using submit_synced [of w2 n env] by blast
  have g: "getAppIdFromUrl (w2\<lparr>pathname := p0\<rparr>) = None \<longrightarrow>
        url_synced (step_v2 env (PopState_v2 p0) w2)
        \<and> selectedAppId (step_v2 env (PopState_v2 p0) w2) = None"
    using popstate_v2_no_id [where w = w2 and p = p0 and env = env] by blast
  have t: "0 < n \<Longrightarrow> n \<le> MAX_SAFE_INTEGER \<Longrightarrow> toString (Num n) = digits_of (nat n)"
    by (simp add: toString_safe)
  have h: "getAppIdFromUrl (w2\<lparr>pathname := p\<rparr>) = Some (Num n) \<and> 0 < n \<longrightarrow>
        (list_ex (\<lambda>app. strict_eq (app_id app) (Num n)) (apps w2) \<longrightarrow>
           url_synced (step_v2 env (PopState_v2 p) w2)
           \<and> selectedAppId (step_v2 env (PopState_v2 p) w2) = Some (Num n))
        \<and> (\<not> list_ex (\<lambda>app. strict_eq (app_id app) (Num n)) (apps w2) \<longrightarrow>
           selectedAppId (step_v2 env (PopState_v2 p) w2) = None
           \<and> customAppId (step_v2 env (PopState_v2 p) w2) = toString (Num n)
           \<and> (n \<le> MAX_SAFE_INTEGER \<longrightarrow>
                customAppId (step_v2 env (PopState_v2 p) w2) = digits_of (nat n)))"
    using popstate_v2_listed [where w = w2 and p = p and n = n and env = env]
      popstate_v2_unlisted [where w = w2 and p = p and n = n and env = env] t by auto
  have i: "fst (getApps env (requests w2)) = Inr response2 \<and> getAppIdFromUrl w2 = Some (Num n)
        \<and> 0 < n \<longrightarrow>
        (list_ex (\<lambda>app. strict_eq (app_id app) (Num n)) (items response2) \<longrightarrow>
           url_synced (mount_v2 env w2))
        \<and> (\<not> list_ex (\<lambda>app. strict_eq (app_id app) (Num n)) (items response2) \<longrightarrow>
           selectedAppId (mount_v2 env w2) = selectedAppId w2
           \<and> customAppId (mount_v2 env w2) = toString (Num n)
           \<and> (n \<le> MAX_SAFE_INTEGER \<longrightarrow>
                customAppId (mount_v2 env w2) = digits_of (nat n)))"
    using mount_v2_outcome [of env w2 response2 n] t by auto
  show ?thesis
    using a b c d e f g h i by (intro conjI)
qed

text \<open>
  The first variant loaded at \<open>/app/447188370\<close>, and the second variant at the URL of a
  listed app and at the URL of an app that is not listed.
\<close>

theorem selection_follows_url_witness:
  "(447188370::int) \<le> MAX_SAFE_INTEGER
   \<and> url_synced (step (sample_env (Inr sample_ok)) (Select (Num 447188370))
                 (initial_world ''/app/447188370'' 0))
   \<and> url_synced (mount (sample_env (Inr sample_ok)) (initial_world ''/app/447188370'' 0))
   \<and> url_synced (initial_world ''/'' 0)
   \<and> url_synced (step (sample_env (Inr sample_ok)) Tick (initial_world ''/'' 0))
   \<and> parseInt (customAppId sample_listed) = Num 447188370
   \<and> url_synced (step_v2 (sample_env (Inr sample_ok)) SubmitCustomAppId sample_listed)
   \<and> url_synced (step_v2 (sample_env (Inr sample_ok)) (PopState_v2 ''/'') sample_listed)
   \<and> url_synced (step_v2 (sample_env (Inr sample_ok)) (PopState_v2 ''/app/447188370'')
                    sample_listed)
   \<and> url_synced (mount_v2 (sample_env (Inr sample_ok)) sample_listed)
   \<and> selectedAppId (step_v2 (sample_env (Inr sample_ok)) (PopState_v2 ''/app/5'')
                       sample_unlisted) = None
   \<and> customAppId (step_v2 (sample_env (Inr sample_ok)) (PopState_v2 ''/app/5'')
                     sample_unlisted) = ''5''
   \<and> selectedAppId (mount_v2 (sample_env (Inr sample_ok)) sample_unlisted) = None
   \<and> customAppId (mount_v2 (sample_env (Inr sample_ok)) sample_unlisted) = ''5''"
proof -
  let ?env = "sample_env (Inr sample_ok)"
  let ?r = "\<lparr>items = [\<lparr>app_id = Num 595068606\<rparr>, \<lparr>app_id = Num 447188370\<rparr>]\<rparr> :: GetAppsResponse"
  let ?w = "initial_world ''/app/447188370'' 0"
  have ms: "(447188370::int) \<le> MAX_SAFE_INTEGER" "(5::int) \<le> MAX_SAFE_INTEGER"
    by (simp_all add: MAX_SAFE_INTEGER_def)
  have u1: "getAppIdFromUrl ?w = Some (Num 447188370)"
    using getAppIdFromUrl_digits_path [of ?w 447188370]
    by (simp add: initial_world_def sample_digits ms)
  have s1: "selectedAppId ?w = None"
    by (simp add: initial_world_def)
  have y0: "url_synced (initial_world ''/'' 0)"
    by (simp add: url_synced_def getAppIdFromUrl_def initial_world_def)
  have pl: "parseInt (customAppId sample_listed) = Num 447188370"
    using parseInt_digits_of [of 447188370] to_double_safe [of 447188370]
    by (simp add: sample_listed_def sample_digits ms)
  have ul: "getAppIdFromUrl sample_listed = Some (Num 447188370)"
    "getAppIdFromUrl (sample_listed\<lparr>pathname := ''/app/447188370''\<rparr>) = Some (Num 447188370)"
    using getAppIdFromUrl_digits_path [of sample_listed 447188370]
      getAppIdFromUrl_digits_path [of "sample_listed\<lparr>pathname := ''/app/447188370''\<rparr>" 447188370]
    by (simp_all add: sample_listed_def initial_world_v2_def sample_digits ms)
  have u0: "getAppIdFromUrl (sample_listed\<lparr>pathname := ''/''\<rparr>) = None"
    by (simp add: getAppIdFromUrl_def)
  have al: "list_ex (\<lambda>app. strict_eq (app_id app) (Num 447188370)) (apps sample_listed)"
    by (simp add: sample_listed_def initial_world_v2_def)
  have uu: "getAppIdFromUrl sample_unlisted = Some (Num 5)"
    "getAppIdFromUrl (sample_unlisted\<lparr>pathname := ''/app/5''\<rparr>) = Some (Num 5)"
    using getAppIdFromUrl_digits_path [of sample_unlisted 5]
      getAppIdFromUrl_digits_path [of "sample_unlisted\<lparr>pathname := ''/app/5''\<rparr>" 5]
    by (simp_all add: sample_unlisted_def initial_world_v2_def sample_digits ms)
  have au: "apps sample_unlisted = []" "selectedAppId sample_unlisted = None"
    by (simp_all add: sample_unlisted_def initial_world_v2_def)
  have A: "url_synced (step ?env (Select (Num 447188370)) ?w)
     \<and> url_synced (mount ?env ?w)
     \<and> url_synced (step ?env Tick (initial_world ''/'' 0))
     \<and> url_synced (step_v2 ?env SubmitCustomAppId sample_listed)
     \<and> url_synced (step_v2 ?env (PopState_v2 ''/'') sample_listed)
     \<and> url_synced (step_v2 ?env (PopState_v2 ''/app/447188370'') sample_listed)
     \<and> url_synced (mount_v2 ?env sample_listed)"
    using selection_follows_url
      [where env = ?env and p = "''/app/447188370''" and w = ?w and n = 447188370
         and response = ?r and w' = "initial_world ''/'' 0" and ?w2.0 = sample_listed
         and ?p0.0 = "''/''" and ?response2.0 = ?r]
      u1 s1 y0 pl ul u0 al
    by (simp add: sample_ok_apps ms)
  have B: "selectedAppId (step_v2 ?env (PopState_v2 ''/app/5'') sample_unlisted) = None
     \<and> customAppId (step_v2 ?env (PopState_v2 ''/app/5'') sample_unlisted) = ''5''
     \<and> selectedAppId (mount_v2 ?env sample_unlisted) = None
     \<and> customAppId (mount_v2 ?env sample_unlisted) = ''5''"
    using selection_follows_url
      [where env = ?env and p = "''/app/5''" and w = ?w and n = 5
         and response = ?r and w' = "initial_world ''/'' 0" and ?w2.0 = sample_unlisted
         and ?p0.0 = "''/''" and ?response2.0 = ?r]
      uu au
    by (simp add: sample_ok_apps sample_digits sample_texts ms)
  show ?thesis
    using A B y0 pl ms by simp
qed

section \<open>The day filter and the review request\<close>

lemma fetchReviews_v2_valid:
  assumes "cutoff_valid env (clock w) (reviewFilterDays w)"
  shows "fetchReviews_v2 env appId w =
           fetchReviews_v2_settled (fst (getReviews env appId (requests w)))
             (w\<lparr>loadingReviews := True, requests := snd (getReviews env appId (requests w))\<rparr>)"
  using assms
  by (simp add: fetchReviews_v2_unfold new_Date_cutoff cutoff_valid_def split: sum.splits)

lemma cutoff_text_Inl:
  "cutoff_text env c days = Inl e \<Longrightarrow> e = Error (invalid_time_message env)"
  by (simp add: cutoff_text_def toISOString_def split: option.splits)

lemma fetchReviews_v2_invalid:
  assumes "\<not> cutoff_valid env (clock w) (reviewFilterDays w)"
  shows "fetchReviews_v2 env appId w =
           w\<lparr>loadingReviews := False, error := Some (invalid_time_message env)\<rparr>"
proof -
  obtain e where e: "cutoff_text env (clock w) (reviewFilterDays w) = Inl e"
    using assms by (auto simp: cutoff_valid_def split: sum.splits)
  then have "e = Error (invalid_time_message env)"
    by (rule cutoff_text_Inl)
  then show ?thesis
    using e by (simp add: fetchReviews_v2_unfold new_Date_cutoff fetchReviews_v2_settled_def)
qed

lemma fetchReviews_v2_requests:
  "cutoff_valid env (clock w) (reviewFilterDays w) \<Longrightarrow>
   requests (fetchReviews_v2 env appId w) =
     requests w @ [\<lparr>http_method = ''GET'',
                     url = API_BASE_URL env @ ''/api/reviews/'' @ toString appId\<rparr>]"
  by (simp add: fetchReviews_v2_valid fetchReviews_v2_settled_def getReviews_log
        split: sum.splits)

lemma fetchReviews_requests:
  "requests (fetchReviews env appId w) =
     requests w @ [\<lparr>http_method = ''GET'',
                     url = API_BASE_URL env @ ''/api/reviews/'' @ toString appId\<rparr>]"
  by (simp add: fetchReviews_unfold fetchReviews_settled_def getReviews_log split: sum.splits)

text \<open>
  While the cut-off date can be printed, the day count has no influence on the request
  or on what is received: \<open>getReviews\<close> binds only \<open>appId\<close>.
\<close>

lemma fetchReviews_v2_days_irrelevant:
  assumes "cutoff_valid env (clock w) (reviewFilterDays w)" and "cutoff_valid env (clock w) d'"
  shows "fetchReviews_v2 env appId (w\<lparr>reviewFilterDays := d'\<rparr>) =
           (fetchReviews_v2 env appId w)\<lparr>reviewFilterDays := d'\<rparr>"
proof -
  have "cutoff_valid env (clock (w\<lparr>reviewFilterDays := d'\<rparr>))
          (reviewFilterDays (w\<lparr>reviewFilterDays := d'\<rparr>))"
    using assms(2) by simp
  then show ?thesis
    by (simp add: fetchReviews_v2_valid [OF assms(1)] fetchReviews_v2_valid
          fetchReviews_v2_settled_def split: sum.splits)
qed

text \<open>The cut-off dates on 2 November 2025, 08:00 UTC, for 10 and for 200000000 days.\<close>

lemma sample_cutoff_10:
  "cutoff_text (sample_env x) 1762070400000 (Num 10) = Inr ''2025-10-23T08:00:00.000Z''"
proof -
  have d: "utc_DateFromTime 1762070400000 = 2"
    by code_simp
  have u: "utc_iso_format 1761206400000 = ''2025-10-23T08:00:00.000Z''"
    by code_simp
  show ?thesis
    using cutoff_text_sample [of 1762070400000 10 x]
    by (simp add: d u MAX_TIME_def MAX_SAFE_INTEGER_def msPerDay_def)
qed

lemma sample_cutoff_200000000:
  "cutoff_text (sample_env x) 1762070400000 (Num 200000000) = Inl (Error ''Invalid time value'')"
proof -
  have d: "utc_DateFromTime 1762070400000 = 2"
    by code_simp
  show ?thesis
    using cutoff_text_sample [of 1762070400000 200000000 x]
    by (simp add: d MAX_TIME_def MAX_SAFE_INTEGER_def msPerDay_def)
qed

text \<open>
  C8 holds wherever the cut-off date can be printed, and the code breaks it by a slip:
  the date is computed and printed inside the \<open>try\<close> block before \<open>getReviews\<close> is
  called, and the day count comes from a number input whose \<open>min\<close> and \<open>max\<close> do not
  stop a typed value. On 2 November 2025 with the filter at 10 days the second variant
  sends the request that the first variant sends and shows the reviews; with
  \<open>200000000\<close> typed into the filter, and nothing else changed, \<open>toISOString\<close> throws, no
  request is sent, no review is received and \<open>Invalid time value\<close> is shown.
\<close>

theorem day_filter_failing_input:
  "parseInt ''200000000'' = Num 200000000
   \<and> truthy (Some (Num 200000000))
   \<and> requests (fetchReviews (sample_env (Inr sample_ok)) (Num 595068606)
                 (initial_world ''/'' 1762070400000)) =
     [\<lparr>http_method = ''GET'', url = ''http://localhost:8000/api/reviews/595068606''\<rparr>]
   \<and> requests (fetchReviews_v2 (sample_env (Inr sample_ok)) (Num 595068606) (sample_filter 10)) =
     [\<lparr>http_method = ''GET'', url = ''http://localhost:8000/api/reviews/595068606''\<rparr>]
   \<and> reviews (fetchReviews_v2 (sample_env (Inr sample_ok)) (Num 595068606) (sample_filter 10)) =
     [sample_review]
   \<and> sample_filter 200000000 = (sample_filter 10)\<lparr>reviewFilterDays := Num 200000000\<rparr>
   \<and> cutoff_text (sample_env (Inr sample_ok)) (clock (sample_filter 200000000))
        (reviewFilterDays (sample_filter 200000000)) = Inl (Error ''Invalid time value'')
   \<and> requests (fetchReviews_v2 (sample_env (Inr sample_ok)) (Num 595068606)
                 (sample_filter 200000000)) = []
   \<and> reviews (fetchReviews_v2 (sample_env (Inr sample_ok)) (Num 595068606)
                (sample_filter 200000000)) = []
   \<and> error (fetchReviews_v2 (sample_env (Inr sample_ok)) (Num 595068606)
              (sample_filter 200000000)) = Some ''Invalid time value''"
proof -
  let ?env = "sample_env (Inr sample_ok)"
  have ds: "digits_of 200000000 = ''200000000''"
    by (simp add: digits_of.simps digit_char_def)
  have p: "parseInt ''200000000'' = Num 200000000"
    using parseInt_digits_of [of 200000000] to_double_safe [of 200000000]
    unfolding ds by (simp add: MAX_SAFE_INTEGER_def)
  have c: "clock (sample_filter k) = 1762070400000" "reviewFilterDays (sample_filter k) = Num k"
    "requests (sample_filter k) = []" "reviews (sample_filter k) = []" for k
    by (simp_all add: sample_filter_def initial_world_v2_def)
  have a: "cutoff_valid ?env (clock (sample_filter 10)) (reviewFilterDays (sample_filter 10))"
    by (simp add: c cutoff_valid_def sample_cutoff_10)
  have b: "\<not> cutoff_valid ?env (clock (sample_filter 200000000))
              (reviewFilterDays (sample_filter 200000000))"
    by (simp add: c cutoff_valid_def sample_cutoff_200000000)
  have d: "digits_of 595068606 = ''595068606''"
    by (simp add: digits_of.simps digit_char_def)
  have t: "toString (Num 595068606) = ''595068606''"
    using toString_safe [of 595068606] d by (simp add: MAX_SAFE_INTEGER_def)
  have r: "fst (getReviews ?env (Num 595068606) log) = Inr \<lparr>items = [sample_review]\<rparr>" for log
    by (simp add: getReviews_def apiRequest_result sample_env_def sample_ok_def)
  have u: "API_BASE_URL ?env = ''http://localhost:8000''"
    by (simp add: sample_env_def)
  have i: "invalid_time_message ?env = ''Invalid time value''"
    by (simp add: sample_env_def)
  have 0: "requests (fetchReviews ?env (Num 595068606) (initial_world ''/'' 1762070400000)) =
     [\<lparr>http_method = ''GET'', url = ''http://localhost:8000/api/reviews/595068606''\<rparr>]"
    by (simp add: fetchReviews_requests u t) (simp add: initial_world_def)
  have 1: "requests (fetchReviews_v2 ?env (Num 595068606) (sample_filter 10)) =
     [\<lparr>http_method = ''GET'', url = ''http://localhost:8000/api/reviews/595068606''\<rparr>]"
    using fetchReviews_v2_requests [OF a, of "Num 595068606"]
    by (simp add: u t c)
  have 2: "reviews (fetchReviews_v2 ?env (Num 595068606) (sample_filter 10)) = [sample_review]"
    by (simp add: fetchReviews_v2_valid [OF a] fetchReviews_v2_settled_def r)
  have 3: "sample_filter 200000000 = (sample_filter 10)\<lparr>reviewFilterDays := Num 200000000\<rparr>"
    by (simp add: sample_filter_def)
  have 4: "cutoff_text ?env (clock (sample_filter 200000000))
        (reviewFilterDays (sample_filter 200000000)) = Inl (Error ''Invalid time value'')"
    by (simp add: c sample_cutoff_200000000)
  have o: "fetchReviews_v2 ?env (Num 595068606) (sample_filter 200000000) =
       (sample_filter 200000000)\<lparr>loadingReviews := False, error := Some ''Invalid time value''\<rparr>"
    using fetchReviews_v2_invalid [OF b, of "Num 595068606"]
    by (simp only: i)
  have 5: "requests (fetchReviews_v2 ?env (Num 595068606) (sample_filter 200000000)) = []"
    by (simp add: o c)
  have 6: "reviews (fetchReviews_v2 ?env (Num 595068606) (sample_filter 200000000)) = []"
    by (simp add: o c)
  have 7: "error (fetchReviews_v2 ?env (Num 595068606) (sample_filter 200000000))
             = Some ''Invalid time value''"
    by (simp add: o)
  have 8: "truthy (Some (Num 200000000))"
    by simp
  show ?thesis
    using p 8 0 1 2 3 4 5 6 7 by (intro conjI)
qed

section \<open>The polling timer\<close>

lemma timer_inv_ok: "timer_inv w \<Longrightarrow> timer_ok w"
  by (auto simp: timer_inv_def timer_ok_def split: option.splits list.splits)

lemma timer_inv_length: "timer_inv w \<Longrightarrow> length (intervals w) \<le> 1"
  by (auto simp: timer_inv_def split: option.splits list.splits)

lemma timer_inv_None: "timer_inv w \<Longrightarrow> selectedAppId w = None \<Longrightarrow> intervals w = []"
  by (simp add: timer_inv_def)

lemma timer_inv_Some: "timer_inv w \<Longrightarrow> selectedAppId w = Some a \<Longrightarrow> length (intervals w) = 1"
  by (auto simp: timer_inv_def split: list.splits)

text \<open>The cleanup leaves no timer behind.\<close>

lemma run_cleanup_clears: "timer_ok w \<Longrightarrow> intervals (run_cleanup w) = []"
  by (auto simp: timer_ok_def run_cleanup_def clearInterval_def split: option.splits list.splits)

text \<open>Running the effect again sets up the timer that fits the selection.\<close>

lemma rerun_polling_inv:
  assumes "frame_preserving f" and "timer_ok w"
  shows "timer_inv (rerun_polling f w)"
proof (cases "selectedAppId w")
  case None
  then show ?thesis
    using run_cleanup_clears [OF assms(2)]
    by (simp add: rerun_polling_def polling_effect_None run_cleanup_fields timer_inv_def)
next
  case (Some appId)
  then have s: "selectedAppId (run_cleanup w) = Some appId"
    by (simp add: run_cleanup_fields)
  have i: "intervals (f appId (run_cleanup w)) = []"
    using assms(1) run_cleanup_clears [OF assms(2)] by (simp add: frame_preserving_def)
  have "selectedAppId (f appId (run_cleanup w)) = Some appId"
    using assms(1) s by (simp add: frame_preserving_def)
  then show ?thesis
    using i by (simp add: rerun_polling_def polling_effect_Some [OF s] timer_inv_def)
qed

lemma timer_inv_unchanged:
  assumes "timer_inv before" and "selectedAppId after = selectedAppId before"
    and "intervals after = intervals before" and "polling_cleanup after = polling_cleanup before"
  shows "timer_inv after"
  using assms by (auto simp: timer_inv_def split: option.splits list.splits)

lemma timer_ok_unchanged:
  assumes "timer_ok before"
    and "intervals after = intervals before" and "polling_cleanup after = polling_cleanup before"
  shows "timer_ok after"
  using assms by (auto simp: timer_ok_def split: option.splits list.splits)

lemma commit_inv:
  assumes "timer_inv before"
    and "intervals after = intervals before" and "polling_cleanup after = polling_cleanup before"
  shows "timer_inv (commit env before after)"
proof (cases "selectedAppId after = selectedAppId before")
  case True
  then show ?thesis
    using timer_inv_unchanged [OF assms(1) True assms(2,3)] by (simp add: commit_def)
next
  case False
  have "timer_ok after"
    using timer_ok_unchanged [OF timer_inv_ok [OF assms(1)] assms(2,3)] .
  then show ?thesis
    using False rerun_polling_inv [OF fetchReviews_frame] by (simp add: commit_def)
qed

lemma commit_v2_inv:
  assumes "timer_inv before"
    and "intervals after = intervals before" and "polling_cleanup after = polling_cleanup before"
  shows "timer_inv (commit_v2 env before after)"
proof (cases "selectedAppId after = selectedAppId before")
  case True
  have "timer_ok after"
    using timer_ok_unchanged [OF timer_inv_ok [OF assms(1)] assms(2,3)] .
  then show ?thesis
    using timer_inv_unchanged [OF assms(1) True assms(2,3)]
      rerun_polling_inv [OF fetchReviews_v2_frame]
    by (simp add: commit_v2_def)
next
  case False
  have "timer_ok after"
    using timer_ok_unchanged [OF timer_inv_ok [OF assms(1)] assms(2,3)] .
  then show ?thesis
    using False rerun_polling_inv [OF fetchReviews_v2_frame] by (simp add: commit_v2_def)
qed

text \<open>A tick with at most one timer.\<close>

lemma tick_no_timer: "intervals w = [] \<Longrightarrow> tick f w = w\<lparr>clock := clock w + 1\<rparr>"
  by (simp add: tick_def Let_def)

lemma tick_not_due:
  "intervals w = [i] \<Longrightarrow> clock w + 1 < due i \<Longrightarrow> tick f w = w\<lparr>clock := clock w + 1\<rparr>"
  by (simp add: tick_def Let_def)

lemma tick_due:
  assumes "frame_preserving f" and "intervals w = [i]" and "due i \<le> clock w + 1"
  shows "tick f w =
           (f (callback_appId i) (w\<lparr>clock := clock w + 1\<rparr>))
             \<lparr>intervals := [i\<lparr>due := due i + int (delay i)\<rparr>]\<rparr>"
proof -
  have "intervals (f (callback_appId i) (w\<lparr>clock := clock w + 1\<rparr>)) = [i]"
    using assms(1,2) by (simp add: frame_preserving_def)
  then show ?thesis
    using assms(2,3) by (simp add: tick_def fire_def Let_def)
qed

lemma tick_inv:
  assumes "frame_preserving f" and "timer_inv w"
  shows "timer_inv (tick f w)"
proof (cases "intervals w")
  case Nil
  then show ?thesis
    using assms(2) by (auto simp: tick_no_timer timer_inv_def split: option.splits)
next
  case (Cons i js)
  then have one: "intervals w = [i]"
    using timer_inv_length [OF assms(2)] by simp
  show ?thesis
  proof (cases "due i \<le> clock w + 1")
    case True
    have "selectedAppId (f (callback_appId i) (w\<lparr>clock := clock w + 1\<rparr>)) = selectedAppId w"
      "polling_cleanup (f (callback_appId i) (w\<lparr>clock := clock w + 1\<rparr>)) = polling_cleanup w"
      using assms(1) by (simp_all add: frame_preserving_def)
    then show ?thesis
      using assms(2) one
      by (auto simp: tick_due [OF assms(1) one True] timer_inv_def split: option.splits)
  next
    case False
    then show ?thesis
      using assms(2) one by (auto simp: tick_not_due timer_inv_def split: option.splits)
  qed
qed

text \<open>The handlers do not touch the timers.\<close>

lemma updateUrl_timers:
  "intervals (updateUrl a w) = intervals w \<and> polling_cleanup (updateUrl a w) = polling_cleanup w"
  by (simp add: updateUrl_def pushState_def Let_def)

lemma handlers_timers:
  "intervals (handleAppSelect a w) = intervals w
   \<and> polling_cleanup (handleAppSelect a w) = polling_cleanup w
   \<and> intervals (handlePopState w) = intervals w
   \<and> polling_cleanup (handlePopState w) = polling_cleanup w
   \<and> intervals (fetchApps env w) = intervals w
   \<and> polling_cleanup (fetchApps env w) = polling_cleanup w"
  by (simp add: handleAppSelect_def updateUrl_timers handlePopState_def fetchApps_unfold
        fetchApps_settled_def Let_def split: sum.splits)

lemma handlers_v2_timers:
  "intervals (handleAppSelect_v2 a w) = intervals w
   \<and> polling_cleanup (handleAppSelect_v2 a w) = polling_cleanup w
   \<and> intervals (handlePopState_v2 w) = intervals w
   \<and> polling_cleanup (handlePopState_v2 w) = polling_cleanup w
   \<and> intervals (handleCustomAppIdSubmit w) = intervals w
   \<and> polling_cleanup (handleCustomAppIdSubmit w) = polling_cleanup w
   \<and> intervals (fetchApps_v2 env w) = intervals w
   \<and> polling_cleanup (fetchApps_v2 env w) = polling_cleanup w"
  by (simp add: handleAppSelect_v2_def updateUrl_timers handlePopState_v2_def
        handleCustomAppIdSubmit_def fetchApps_v2_unfold fetchApps_v2_settled_def Let_def
        split: sum.splits option.splits)

lemma step_inv: "timer_inv w \<Longrightarrow> timer_inv (step env ev w)"
proof (cases ev)
  case (Select a)
  assume "timer_inv w"
  then show ?thesis
    using Select by (simp add: commit_inv handlers_timers)
next
  case (PopState p)
  assume "timer_inv w"
  then show ?thesis
    using PopState by (simp add: commit_inv handlers_timers)
next
  case Tick
  assume "timer_inv w"
  then show ?thesis
    using Tick by (simp add: tick_inv fetchReviews_frame)
qed

lemma step_v2_inv: "timer_inv w \<Longrightarrow> timer_inv (step_v2 env ev w)"
proof (cases ev)
  case (Select_v2 a)
  assume "timer_inv w"
  then show ?thesis
    using Select_v2 by (simp add: commit_v2_inv handlers_v2_timers)
next
  case (PopState_v2 p)
  assume "timer_inv w"
  then show ?thesis
    using PopState_v2 by (simp add: commit_v2_inv handlers_v2_timers)
next
  case Tick_v2
  assume "timer_inv w"
  then show ?thesis
    using Tick_v2 by (simp add: tick_inv fetchReviews_v2_frame)
next
  case (TypeCustomAppId v)
  assume "timer_inv w"
  then show ?thesis
    using TypeCustomAppId by (auto simp: timer_inv_def split: option.splits list.splits)
next
  case SubmitCustomAppId
  assume "timer_inv w"
  then show ?thesis
    using SubmitCustomAppId by (simp add: commit_v2_inv handlers_v2_timers)
next
  case (SetReviewFilterDays d)
  assume "timer_inv w"
  then show ?thesis
    using SetReviewFilterDays by (simp add: commit_v2_inv)
qed

lemma fold_step_inv: "timer_inv w \<Longrightarrow> timer_inv (fold (step env) evs w)"
  by (induction evs arbitrary: w) (simp_all add: step_inv)

lemma fold_step_v2_inv: "timer_inv w \<Longrightarrow> timer_inv (fold (step_v2 env) evs w)"
  by (induction evs arbitrary: w) (simp_all add: step_v2_inv)

lemma run_inv: "timer_inv (run env evs (initial_world path t))"
proof -
  have "timer_inv (initial_world path t)"
    by (simp add: timer_inv_def initial_world_def)
  then have "timer_inv (mount env (initial_world path t))"
    by (simp add: mount_def commit_inv handlers_timers)
  then show ?thesis
    by (simp add: run_def fold_step_inv)
qed

lemma run_v2_inv: "timer_inv (run_v2 env evs (initial_world_v2 path t))"
proof -
  have "timer_inv (initial_world_v2 path t)"
    by (simp add: timer_inv_def initial_world_v2_def)
  then have "timer_inv (mount_v2 env (initial_world_v2 path t))"
    by (simp add: mount_v2_def commit_v2_inv handlers_v2_timers)
  then show ?thesis
    by (simp add: run_v2_def fold_step_v2_inv)
qed

text \<open>
  C3. After every event of a mounted component, of either variant, at most one polling
  timer is set: none while nothing is selected, exactly one while an app is selected,
  and it is the timer that the cleanup kept by React will clear. The cleanup clears it
  before the effect body can set a new one, and unmounting leaves no timer.
\<close>

theorem single_polling_timer:
  "timer_inv (run env evs (initial_world path t))
   \<and> length (intervals (run env evs (initial_world path t))) \<le> 1
   \<and> (selectedAppId (run env evs (initial_world path t)) = None \<longrightarrow>
        intervals (run env evs (initial_world path t)) = [])
   \<and> (selectedAppId (run env evs (initial_world path t)) \<noteq> None \<longrightarrow>
        length (intervals (run env evs (initial_world path t))) = 1)
   \<and> intervals (unmount (run env evs (initial_world path t))) = []
   \<and> timer_inv (run_v2 env evs2 (initial_world_v2 path t))
   \<and> length (intervals (run_v2 env evs2 (initial_world_v2 path t))) \<le> 1
   \<and> (selectedAppId (run_v2 env evs2 (initial_world_v2 path t)) = None \<longrightarrow>
        intervals (run_v2 env evs2 (initial_world_v2 path t)) = [])
   \<and> (selectedAppId (run_v2 env evs2 (initial_world_v2 path t)) \<noteq> None \<longrightarrow>
        length (intervals (run_v2 env evs2 (initial_world_v2 path t))) = 1)
   \<and> intervals (unmount (run_v2 env evs2 (initial_world_v2 path t))) = []
   \<and> (timer_inv w \<longrightarrow> intervals (run_cleanup w) = [])"
proof -
  let ?a = "run env evs (initial_world path t)"
  let ?b = "run_v2 env evs2 (initial_world_v2 path t)"
  have a: "timer_inv ?a"
    by (rule run_inv)
  have b: "timer_inv ?b"
    by (rule run_v2_inv)
  have a1: "length (intervals ?a) \<le> 1"
    by (rule timer_inv_length [OF a])
  have a2: "selectedAppId ?a = None \<longrightarrow> intervals ?a = []"
    using timer_inv_None [OF a] by blast
  have a3: "selectedAppId ?a \<noteq> None \<longrightarrow> length (intervals ?a) = 1"
    using timer_inv_Some [OF a] by blast
  have a4: "intervals (unmount ?a) = []"
    using run_cleanup_clears [OF timer_inv_ok [OF a]] by (simp add: unmount_def)
  have b1: "length (intervals ?b) \<le> 1"
    by (rule timer_inv_length [OF b])
  have b2: "selectedAppId ?b = None \<longrightarrow> intervals ?b = []"
    using timer_inv_None [OF b] by blast
  have b3: "selectedAppId ?b \<noteq> None \<longrightarrow> length (intervals ?b) = 1"
    using timer_inv_Some [OF b] by blast
  have b4: "intervals (unmount ?b) = []"
    using run_cleanup_clears [OF timer_inv_ok [OF b]] by (simp add: unmount_def)
  have c: "timer_inv w \<longrightarrow> intervals (run_cleanup w) = []"
    using run_cleanup_clears [OF timer_inv_ok, of w] by blast
  show ?thesis
    using a a1 a2 a3 a4 b b1 b2 b3 b4 c by (intro conjI)
qed

lemma mount_root_unselected:
  "selectedAppId (mount (sample_env (Inr sample_ok)) (initial_world ''/'' t)) = None"
proof -
  have "getAppIdFromUrl (initial_world ''/'' t) = None"
    by (simp add: getAppIdFromUrl_def initial_world_def)
  then show ?thesis
    using fetchApps_success [OF sample_ok_apps, of "initial_world ''/'' t"]
    by (simp add: mount_def commit_fields initial_world_def)
qed

lemma mount_v2_root_unselected:
  "selectedAppId (mount_v2 (sample_env (Inr sample_ok)) (initial_world_v2 ''/'' t)) = None"
  by (simp add: mount_v2_def commit_v2_fields fetchApps_v2_unfold fetchApps_v2_settled_def
        sample_ok_apps getAppIdFromUrl_def initial_world_v2_def)

text \<open>
  Mounted at \<open>/\<close> nothing is selected and no timer is set; after an app is chosen, and
  after another one is chosen, one timer is set; unmounting clears it.
\<close>

theorem single_polling_timer_witness:
  "selectedAppId (run (sample_env (Inr sample_ok)) [] (initial_world ''/'' 0)) = None
   \<and> intervals (run (sample_env (Inr sample_ok)) [] (initial_world ''/'' 0)) = []
   \<and> selectedAppId (run (sample_env (Inr sample_ok))
                       [Select (Num 595068606), Tick, Select (Num 447188370)]
                       (initial_world ''/'' 0)) \<noteq> None
   \<and> length (intervals (run (sample_env (Inr sample_ok))
                          [Select (Num 595068606), Tick, Select (Num 447188370)]
                          (initial_world ''/'' 0))) = 1
   \<and> intervals (unmount (run (sample_env (Inr sample_ok))
                            [Select (Num 595068606), Tick, Select (Num 447188370)]
                            (initial_world ''/'' 0))) = []
   \<and> selectedAppId (run_v2 (sample_env (Inr sample_ok)) [] (initial_world_v2 ''/'' 0)) = None
   \<and> intervals (run_v2 (sample_env (Inr sample_ok)) [] (initial_world_v2 ''/'' 0)) = []
   \<and> selectedAppId (run_v2 (sample_env (Inr sample_ok))
                       [Select_v2 (Num 595068606), SetReviewFilterDays (Num 30)]
                       (initial_world_v2 ''/'' 0)) \<noteq> None
   \<and> length (intervals (run_v2 (sample_env (Inr sample_ok))
                          [Select_v2 (Num 595068606), SetReviewFilterDays (Num 30)]
                          (initial_world_v2 ''/'' 0))) = 1
   \<and> timer_inv (run (sample_env (Inr sample_ok)) [Select (Num 595068606)] (initial_world ''/'' 0))
   \<and> intervals (run_cleanup (run (sample_env (Inr sample_ok)) [Select (Num 595068606)]
                                (initial_world ''/'' 0))) = []"
proof -
  let ?env = "sample_env (Inr sample_ok)"
  have n1: "selectedAppId (run ?env [] (initial_world ''/'' 0)) = None"
    by (simp add: run_def mount_root_unselected)
  have s1: "selectedAppId (run ?env [Select (Num 595068606), Tick, Select (Num 447188370)]
                             (initial_world ''/'' 0)) \<noteq> None"
    using select_synced [of 447188370 ?env] by (simp add: run_def MAX_SAFE_INTEGER_def)
  have n2: "selectedAppId (run_v2 ?env [] (initial_world_v2 ''/'' 0)) = None"
    by (simp add: run_v2_def mount_v2_root_unselected)
  have s2: "selectedAppId (run_v2 ?env [Select_v2 (Num 595068606), SetReviewFilterDays (Num 30)]
                             (initial_world_v2 ''/'' 0)) \<noteq> None"
    using select_v2_synced [of 595068606 ?env]
    by (simp add: run_v2_def commit_v2_fields MAX_SAFE_INTEGER_def)
  have A: "intervals (run ?env [] (initial_world ''/'' 0)) = []
     \<and> intervals (run_v2 ?env [] (initial_world_v2 ''/'' 0)) = []"
    using single_polling_timer
      [where env = ?env and evs = "[]" and ?evs2.0 = "[]" and path = "''/''" and t = 0
         and w = "run ?env [Select (Num 595068606)] (initial_world ''/'' 0)"] n1 n2
    by blast
  have B: "length (intervals (run ?env [Select (Num 595068606), Tick, Select (Num 447188370)]
                                (initial_world ''/'' 0))) = 1
     \<and> intervals (unmount (run ?env [Select (Num 595068606), Tick, Select (Num 447188370)]
                               (initial_world ''/'' 0))) = []
     \<and> length (intervals (run_v2 ?env [Select_v2 (Num 595068606), SetReviewFilterDays (Num 30)]
                                (initial_world_v2 ''/'' 0))) = 1"
    using single_polling_timer
      [where env = ?env and evs = "[Select (Num 595068606), Tick, Select (Num 447188370)]"
         and ?evs2.0 = "[Select_v2 (Num 595068606), SetReviewFilterDays (Num 30)]"
         and path = "''/''" and t = 0
         and w = "run ?env [Select (Num 595068606)] (initial_world ''/'' 0)"] s1 s2
    by blast
  have C: "timer_inv (run ?env [Select (Num 595068606)] (initial_world ''/'' 0))
     \<and> intervals (run_cleanup (run ?env [Select (Num 595068606)] (initial_world ''/'' 0))) = []"
    using single_polling_timer
      [where env = ?env and evs = "[Select (Num 595068606)]" and ?evs2.0 = "[]"
         and path = "''/''" and t = 0
         and w = "run ?env [Select (Num 595068606)] (initial_world ''/'' 0)"]
    by blast
  show ?thesis
    using n1 s1 n2 s2 A B C by (intro conjI) blast+
qed

section \<open>Polling while an app is selected\<close>

lemma elapse_add: "elapse f (m + n) w = elapse f n (elapse f m w)"
  by (induction m arbitrary: w) simp_all

lemma elapse_no_timer: "intervals w = [] \<Longrightarrow> elapse f n w = w\<lparr>clock := clock w + int n\<rparr>"
proof (induction n arbitrary: w)
  case 0
  show ?case by simp
next
  case (Suc n)
  have "elapse f n (w\<lparr>clock := clock w + 1\<rparr>) = w\<lparr>clock := clock w + 1 + int n\<rparr>"
    using Suc.IH [of "w\<lparr>clock := clock w + 1\<rparr>"] Suc.prems by simp
  then show ?case
    using Suc.prems by (simp add: tick_no_timer add.commute add.left_commute)
qed

text \<open>Until the timer is due, time passes and nothing else happens.\<close>

lemma elapse_wait:
  "intervals w = [i] \<Longrightarrow> clock w + int n < due i \<Longrightarrow>
   elapse f n w = w\<lparr>clock := clock w + int n\<rparr>"
proof (induction n arbitrary: w)
  case 0
  show ?case by simp
next
  case (Suc n)
  have t: "tick f w = w\<lparr>clock := clock w + 1\<rparr>"
    using Suc.prems by (simp add: tick_not_due)
  have "elapse f n (w\<lparr>clock := clock w + 1\<rparr>) = w\<lparr>clock := clock w + 1 + int n\<rparr>"
    using Suc.IH [of "w\<lparr>clock := clock w + 1\<rparr>"] Suc.prems by simp
  then show ?case
    by (simp add: t add.commute add.left_commute)
qed

text \<open>One delay after it was set or last fired, the timer fires once.\<close>

lemma elapse_period:
  assumes "frame_preserving f" and "intervals w = [i]"
    and "due i = clock w + int (delay i)" and "0 < delay i"
  shows "elapse f (delay i) w =
           (f (callback_appId i) (w\<lparr>clock := clock w + int (delay i)\<rparr>))
             \<lparr>intervals := [i\<lparr>due := due i + int (delay i)\<rparr>]\<rparr>"
proof -
  obtain m where m: "delay i = Suc m"
    using assms(4) by (cases "delay i") simp_all
  have w1: "elapse f m w = w\<lparr>clock := clock w + int m\<rparr>"
    using assms(2,3) m by (simp add: elapse_wait)
  have "elapse f (delay i) w = tick f (elapse f m w)"
    using elapse_add [of f m 1 w] m by simp
  also have "\<dots> = (f (callback_appId i) (w\<lparr>clock := clock w + int m + 1\<rparr>))
             \<lparr>intervals := [i\<lparr>due := due i + int (delay i)\<rparr>]\<rparr>"
    using tick_due [OF assms(1), of "w\<lparr>clock := clock w + int m\<rparr>" i] assms(2,3) m
    by (simp add: w1)
  finally show ?thesis
    using m by (simp add: add.commute add.left_commute)
qed

lemma fetchReviews_fields:
  "clock (fetchReviews env a v) = clock v \<and> intervals (fetchReviews env a v) = intervals v"
  using fetchReviews_frame [of env] by (simp add: frame_preserving_def)

lemma fetchReviews_v2_fields:
  "clock (fetchReviews_v2 env a v) = clock v
   \<and> intervals (fetchReviews_v2 env a v) = intervals v
   \<and> reviewFilterDays (fetchReviews_v2 env a v) = reviewFilterDays v"
  using fetchReviews_v2_frame [of env] fetchReviews_v2_hooks [of env a v]
  by (simp add: frame_preserving_def)

text \<open>In the first variant every firing sends the review request of the captured id.\<close>

lemma elapse_periods:
  assumes "intervals w = [i]" and "due i = clock w + int (delay i)" and "0 < delay i"
  shows "requests (elapse (fetchReviews env) (k * delay i) w) =
           requests w @ replicate k (review_request env (callback_appId i))
       \<and> (\<exists>j. intervals (elapse (fetchReviews env) (k * delay i) w) = [j]
              \<and> delay j = delay i
              \<and> due j = clock (elapse (fetchReviews env) (k * delay i) w) + int (delay i))"
  using assms
proof (induction k arbitrary: w i)
  case 0
  then show ?case by simp
next
  case (Suc k)
  let ?f = "fetchReviews env"
  let ?w1 = "elapse ?f (delay i) w"
  let ?i1 = "i\<lparr>due := due i + int (delay i)\<rparr>"
  have p: "?w1 = (?f (callback_appId i) (w\<lparr>clock := clock w + int (delay i)\<rparr>))
                   \<lparr>intervals := [?i1]\<rparr>"
    by (rule elapse_period [OF fetchReviews_frame Suc.prems])
  have c: "clock ?w1 = clock w + int (delay i)"
    by (simp add: p fetchReviews_fields)
  have r: "requests ?w1 = requests w @ [review_request env (callback_appId i)]"
    by (simp add: p fetchReviews_requests review_request_def)
  have i1: "intervals ?w1 = [?i1]" "due ?i1 = clock ?w1 + int (delay ?i1)" "0 < delay ?i1"
    using Suc.prems by (simp_all add: p fetchReviews_fields)
  have "elapse ?f (Suc k * delay i) w = elapse ?f (k * delay ?i1) ?w1"
    using elapse_add [of ?f "delay i" "k * delay i" w] by simp
  then show ?case
    using Suc.IH [OF i1] by (simp add: r replicate_app_Cons_same)
qed

lemma elapse_polling:
  assumes "intervals w = [i]" and "due i = clock w + int (delay i)" and "n < delay i"
  shows "requests (elapse (fetchReviews env) (k * delay i + n) w) =
           requests w @ replicate k (review_request env (callback_appId i))"
proof -
  let ?f = "fetchReviews env"
  let ?wk = "elapse ?f (k * delay i) w"
  have pos: "0 < delay i"
    using assms(3) by simp
  obtain j where j: "intervals ?wk = [j]" "delay j = delay i" "due j = clock ?wk + int (delay i)"
    using elapse_periods [OF assms(1,2) pos, of env k] by blast
  have "clock ?wk + int n < due j"
    using j assms(3) by simp
  then have "elapse ?f n ?wk = ?wk\<lparr>clock := clock ?wk + int n\<rparr>"
    using elapse_wait [OF j(1)] by blast
  then show ?thesis
    using elapse_periods [OF assms(1,2) pos, of env k] by (simp add: elapse_add)
qed

text \<open>
  In the second variant every firing at which the cut-off date can be printed sends the
  review request of the captured id.
\<close>

lemma elapse_periods_v2:
  assumes "intervals w = [i]" and "due i = clock w + int (delay i)" and "0 < delay i"
    and "\<forall>j. 1 \<le> j \<and> j \<le> k \<longrightarrow>
           cutoff_valid env (clock w + int (j * delay i)) (reviewFilterDays w)"
  shows "requests (elapse (fetchReviews_v2 env) (k * delay i) w) =
           requests w @ replicate k (review_request env (callback_appId i))
       \<and> (\<exists>j. intervals (elapse (fetchReviews_v2 env) (k * delay i) w) = [j]
              \<and> delay j = delay i
              \<and> due j = clock (elapse (fetchReviews_v2 env) (k * delay i) w) + int (delay i))"
  using assms
proof (induction k arbitrary: w i)
  case 0
  then show ?case by simp
next
  case (Suc k)
  let ?f = "fetchReviews_v2 env"
  let ?w0 = "w\<lparr>clock := clock w + int (delay i)\<rparr>"
  let ?w1 = "elapse ?f (delay i) w"
  let ?i1 = "i\<lparr>due := due i + int (delay i)\<rparr>"
  have p: "?w1 = (?f (callback_appId i) ?w0)\<lparr>intervals := [?i1]\<rparr>"
    by (rule elapse_period [OF fetchReviews_v2_frame Suc.prems(1,2,3)])
  have "1 \<le> (1::nat) \<and> (1::nat) \<le> Suc k"
    by simp
  then have "cutoff_valid env (clock w + int (1 * delay i)) (reviewFilterDays w)"
    using Suc.prems(4) by blast
  then have v: "cutoff_valid env (clock ?w0) (reviewFilterDays ?w0)"
    by simp
  have c: "clock ?w1 = clock w + int (delay i)" "reviewFilterDays ?w1 = reviewFilterDays w"
    by (simp_all add: p fetchReviews_v2_fields)
  have r: "requests ?w1 = requests w @ [review_request env (callback_appId i)]"
    using fetchReviews_v2_requests [OF v, of "callback_appId i"]
    by (simp add: p review_request_def)
  have i1: "intervals ?w1 = [?i1]" "due ?i1 = clock ?w1 + int (delay ?i1)" "0 < delay ?i1"
    using Suc.prems(1,2,3) by (simp_all add: p fetchReviews_v2_fields)
  have v1: "\<forall>j. 1 \<le> j \<and> j \<le> k \<longrightarrow>
              cutoff_valid env (clock ?w1 + int (j * delay ?i1)) (reviewFilterDays ?w1)"
  proof (intro allI impI)
    fix j
    assume "1 \<le> j \<and> j \<le> k"
    then have "1 \<le> Suc j \<and> Suc j \<le> Suc k"
      by simp
    then have "cutoff_valid env (clock w + int (Suc j * delay i)) (reviewFilterDays w)"
      using Suc.prems(4) by blast
    moreover have "clock ?w1 + int (j * delay ?i1) = clock w + int (Suc j * delay i)"
      by (simp add: c)
    ultimately show "cutoff_valid env (clock ?w1 + int (j * delay ?i1)) (reviewFilterDays ?w1)"
      by (simp only: c(2))
  qed
  have "elapse ?f (Suc k * delay i) w = elapse ?f (k * delay ?i1) ?w1"
    using elapse_add [of ?f "delay i" "k * delay i" w] by simp
  then show ?case
    using Suc.IH [OF i1 v1] by (simp add: r replicate_app_Cons_same)
qed

lemma elapse_polling_v2:
  assumes "intervals w = [i]" and "due i = clock w + int (delay i)" and "n < delay i"
    and "\<forall>j. 1 \<le> j \<and> j \<le> k \<longrightarrow>
           cutoff_valid env (clock w + int (j * delay i)) (reviewFilterDays w)"
  shows "requests (elapse (fetchReviews_v2 env) (k * delay i + n) w) =
           requests w @ replicate k (review_request env (callback_appId i))"
proof -
  let ?f = "fetchReviews_v2 env"
  let ?wk = "elapse ?f (k * delay i) w"
  have pos: "0 < delay i"
    using assms(3) by simp
  obtain j where j: "intervals ?wk = [j]" "delay j = delay i" "due j = clock ?wk + int (delay i)"
    using elapse_periods_v2 [OF assms(1,2) pos assms(4)] by blast
  have "clock ?wk + int n < due j"
    using j assms(3) by simp
  then have "elapse ?f n ?wk = ?wk\<lparr>clock := clock ?wk + int n\<rparr>"
    using elapse_wait [OF j(1)] by blast
  then show ?thesis
    using elapse_periods_v2 [OF assms(1,2) pos assms(4)] by (simp add: elapse_add)
qed

text \<open>What the effect leaves behind when it has run for a selection.\<close>

lemma rerun_polling_selected:
  assumes "selectedAppId w = Some appId" and "timer_ok w"
  shows "requests (rerun_polling (fetchReviews env) w) = requests w @ [review_request env appId]
     \<and> (\<exists>i. intervals (rerun_polling (fetchReviews env) w) = [i]
            \<and> callback_appId i = appId \<and> delay i = REFRESH_INTERVAL
            \<and> due i = clock (rerun_polling (fetchReviews env) w) + int (delay i))"
proof -
  let ?c = "run_cleanup w"
  have s: "selectedAppId ?c = Some appId"
    using assms(1) by (simp add: run_cleanup_fields)
  have fr: "intervals (fetchReviews env appId ?c) = []"
    "clock (fetchReviews env appId ?c) = clock ?c"
    using fetchReviews_frame [of env] run_cleanup_clears [OF assms(2)]
    by (simp_all add: frame_preserving_def)
  show ?thesis
    by (simp add: rerun_polling_def polling_effect_Some [OF s] fr fetchReviews_requests
          review_request_def run_cleanup_fields)
qed

lemma run_cleanup_days: "reviewFilterDays (run_cleanup w) = reviewFilterDays w"
  by (simp add: run_cleanup_def clearInterval_def split: option.splits)

lemma rerun_polling_selected_v2:
  assumes "selectedAppId w = Some appId" and "timer_ok w"
    and "cutoff_valid env (clock w) (reviewFilterDays w)"
  shows "requests (rerun_polling (fetchReviews_v2 env) w) =
           requests w @ [review_request env appId]
     \<and> clock (rerun_polling (fetchReviews_v2 env) w) = clock w
     \<and> reviewFilterDays (rerun_polling (fetchReviews_v2 env) w) = reviewFilterDays w
     \<and> (\<exists>i. intervals (rerun_polling (fetchReviews_v2 env) w) = [i]
            \<and> callback_appId i = appId \<and> delay i = REFRESH_INTERVAL
            \<and> due i = clock (rerun_polling (fetchReviews_v2 env) w) + int (delay i))"
proof -
  let ?c = "run_cleanup w"
  have s: "selectedAppId ?c = Some appId"
    using assms(1) by (simp add: run_cleanup_fields)
  have v: "cutoff_valid env (clock ?c) (reviewFilterDays ?c)"
    using assms(3) by (simp add: run_cleanup_fields run_cleanup_days)
  have fr: "intervals (fetchReviews_v2 env appId ?c) = []"
    "clock (fetchReviews_v2 env appId ?c) = clock w"
    "reviewFilterDays (fetchReviews_v2 env appId ?c) = reviewFilterDays w"
    using run_cleanup_clears [OF assms(2)]
    by (simp_all add: fetchReviews_v2_fields run_cleanup_fields run_cleanup_days)
  have r: "requests (fetchReviews_v2 env appId ?c) = requests w @ [review_request env appId]"
    using fetchReviews_v2_requests [OF v, of appId]
    by (simp add: review_request_def run_cleanup_fields)
  show ?thesis
    by (simp add: rerun_polling_def polling_effect_Some [OF s] fr r)
qed

lemma rerun_polling_unselected:
  assumes "selectedAppId w = None" and "timer_ok w"
  shows "requests (rerun_polling f w) = requests w \<and> intervals (rerun_polling f w) = []"
  using assms run_cleanup_clears [OF assms(2)]
  by (simp add: rerun_polling_def polling_effect_None run_cleanup_fields)

lemma commit_selected:
  assumes "selectedAppId after = Some appId" and "selectedAppId before \<noteq> Some appId"
    and "timer_ok after" and "n < 2000"
  shows "requests (commit env before after) = requests after @ [review_request env appId]
     \<and> requests (elapse (fetchReviews env) (k * 2000 + n) (commit env before after)) =
         requests after @ replicate (Suc k) (review_request env appId)"
proof -
  let ?w = "rerun_polling (fetchReviews env) after"
  have c: "commit env before after = ?w"
    using assms(1,2) by (auto simp: commit_def)
  obtain i where i: "intervals ?w = [i]" "callback_appId i = appId" "delay i = 2000"
    "due i = clock ?w + int (delay i)"
    and r: "requests ?w = requests after @ [review_request env appId]"
    using rerun_polling_selected [OF assms(1,3), of env] by (auto simp: REFRESH_INTERVAL_def)
  have "requests (elapse (fetchReviews env) (k * delay i + n) ?w) =
          requests ?w @ replicate k (review_request env (callback_appId i))"
    using elapse_polling [OF i(1,4), of n env k] assms(4) i(3) by simp
  then show ?thesis
    using i r by (simp add: c replicate_app_Cons_same)
qed

text \<open>
  In the second variant the effect runs again when the selection or the day filter
  changed.
\<close>

lemma commit_v2_selected:
  assumes "selectedAppId after = Some appId"
    and "selectedAppId before \<noteq> Some appId \<or> reviewFilterDays after \<noteq> reviewFilterDays before"
    and "timer_ok after" and "n < 2000"
    and "\<forall>j\<le>k. cutoff_valid env (clock after + int (j * 2000)) (reviewFilterDays after)"
  shows "requests (commit_v2 env before after) = requests after @ [review_request env appId]
     \<and> requests (elapse (fetchReviews_v2 env) (k * 2000 + n) (commit_v2 env before after)) =
         requests after @ replicate (Suc k) (review_request env appId)"
proof -
  let ?w = "rerun_polling (fetchReviews_v2 env) after"
  have c: "commit_v2 env before after = ?w"
    using assms(1,2) by (auto simp: commit_v2_def)
  have "cutoff_valid env (clock after + int (0 * 2000)) (reviewFilterDays after)"
    using assms(5) by blast
  then have v0: "cutoff_valid env (clock after) (reviewFilterDays after)"
    by simp
  obtain i where i: "intervals ?w = [i]" "callback_appId i = appId" "delay i = 2000"
    "due i = clock ?w + int (delay i)"
    and r: "requests ?w = requests after @ [review_request env appId]"
    and h: "clock ?w = clock after" "reviewFilterDays ?w = reviewFilterDays after"
    using rerun_polling_selected_v2 [OF assms(1,3) v0] by (auto simp: REFRESH_INTERVAL_def)
  have v: "\<forall>j. 1 \<le> j \<and> j \<le> k \<longrightarrow>
             cutoff_valid env (clock ?w + int (j * delay i)) (reviewFilterDays ?w)"
    using assms(5) by (simp add: h i(3))
  have "requests (elapse (fetchReviews_v2 env) (k * delay i + n) ?w) =
          requests ?w @ replicate k (review_request env (callback_appId i))"
    using elapse_polling_v2 [OF i(1,4) _ v, of n] assms(4) i(3) by simp
  then show ?thesis
    using i r by (simp add: c replicate_app_Cons_same)
qed

lemma commit_unselected:
  assumes "selectedAppId after = None" and "timer_ok after" and "intervals after = []"
  shows "requests (commit env before after) = requests after
     \<and> requests (elapse (fetchReviews env) m (commit env before after)) = requests after"
proof -
  have "requests (commit env before after) = requests after
     \<and> intervals (commit env before after) = []"
    using rerun_polling_unselected [OF assms(1,2), of "fetchReviews env"] assms(3)
    by (simp add: commit_def)
  then show ?thesis
    by (simp add: elapse_no_timer)
qed

lemma updateUrl_hooks:
  "selectedAppId (updateUrl x w) = selectedAppId w \<and> requests (updateUrl x w) = requests w
   \<and> clock (updateUrl x w) = clock w"
  by (simp add: updateUrl_def pushState_def Let_def)

lemma updateUrl_days: "reviewFilterDays (updateUrl x w) = reviewFilterDays w"
  by (simp add: updateUrl_def pushState_def Let_def)

lemma select_polls:
  assumes "timer_inv w" and "selectedAppId w \<noteq> Some a" and "n < 2000"
  shows "requests (step env (Select a) w) = requests w @ [review_request env a]
     \<and> requests (elapse (fetchReviews env) (k * 2000 + n) (step env (Select a) w)) =
         requests w @ replicate (Suc k) (review_request env a)"
proof -
  let ?after = "handleAppSelect a w"
  have s: "selectedAppId ?after = Some a"
    by (simp add: handleAppSelect_def updateUrl_hooks)
  have r: "requests ?after = requests w"
    by (simp add: handleAppSelect_def updateUrl_hooks)
  have ok: "timer_ok ?after"
    using timer_ok_unchanged [OF timer_inv_ok [OF assms(1)], of ?after]
    by (simp add: handlers_timers)
  show ?thesis
    using commit_selected [OF s assms(2) ok assms(3), of env k] by (simp add: r)
qed

lemma select_v2_polls:
  assumes "timer_inv w" and "selectedAppId w \<noteq> Some a" and "n < 2000"
    and "\<forall>j\<le>k. cutoff_valid env (clock w + int (j * 2000)) (reviewFilterDays w)"
  shows "requests (step_v2 env (Select_v2 a) w) = requests w @ [review_request env a]
     \<and> requests (elapse (fetchReviews_v2 env) (k * 2000 + n) (step_v2 env (Select_v2 a) w)) =
         requests w @ replicate (Suc k) (review_request env a)"
proof -
  let ?after = "handleAppSelect_v2 a w"
  have s: "selectedAppId ?after = Some a"
    by (simp add: handleAppSelect_v2_def updateUrl_hooks)
  have r: "requests ?after = requests w" "clock ?after = clock w"
    "reviewFilterDays ?after = reviewFilterDays w"
    by (simp_all add: handleAppSelect_v2_def updateUrl_hooks updateUrl_days)
  have ok: "timer_ok ?after"
    using timer_ok_unchanged [OF timer_inv_ok [OF assms(1)], of ?after]
    by (simp add: handlers_v2_timers)
  have v: "\<forall>j\<le>k. cutoff_valid env (clock ?after + int (j * 2000)) (reviewFilterDays ?after)"
    using assms(4) by (simp only: r)
  have d: "selectedAppId w \<noteq> Some a \<or> reviewFilterDays ?after \<noteq> reviewFilterDays w"
    using assms(2) by blast
  show ?thesis
    using commit_v2_selected [OF s d ok assms(3) v] by (simp add: r)
qed

lemma idle_unselected:
  assumes "timer_inv w" and "selectedAppId w = None"
  shows "requests (elapse f m w) = requests w"
  using timer_inv_None [OF assms] by (simp add: elapse_no_timer)

text \<open>
  When the cut-off date is valid, it is the local time the given number of days before
  now, turned back into UTC, that lies in the range of \<open>Date\<close>.
\<close>

lemma cutoff_valid_Num:
  assumes "\<bar>c\<bar> \<le> MAX_TIME"
    and "\<bar>DateFromTime env (LocalTime env c) - d\<bar> \<le> MAX_SAFE_INTEGER"
  shows "cutoff_valid env c (Num d) \<longleftrightarrow>
           \<bar>UTC env (LocalTime env c - d * msPerDay)\<bar> \<le> MAX_TIME"
  by (simp add: cutoff_valid_def cutoff_text_Num [OF assms] toISOString_def TimeClip_def)

text \<open>
  C4. The refresh interval is 2000 ms. When the polling effect runs for a newly
  selected id, \<open>fetchReviews\<close> is called with that id at once and a timer is set that
  calls it again with the same id every 2000 ms: \<open>k\<close> full periods and less than one
  more after the selection, the review request of that id has been sent \<open>k + 1\<close> times
  and nothing else has been sent. This holds in the first variant, and in the second
  variant as long as the cut-off date of the day filter can be printed at each call; in
  the second variant the effect also runs again when the day filter changed. In every
  reachable state with nothing selected, no request is sent however much time passes.
  For any callback \<open>f\<close>, the effect calls \<open>f\<close> with the selected id and sets one timer with
  delay \<open>REFRESH_INTERVAL\<close> that holds the id, one delay later the timer calls \<open>f\<close> with
  that id and is due again one delay later, and with no selection the effect does
  nothing; \<open>fetchReviews\<close> of either variant is such a callback, whatever the day
  filter.
\<close>

theorem periodic_polling:
  "REFRESH_INTERVAL = 2000
   \<and> (selectedAppId after = Some appId \<and> selectedAppId before \<noteq> Some appId \<and> timer_ok after
        \<and> n < 2000 \<longrightarrow>
        requests (commit env before after) = requests after @ [review_request env appId]
        \<and> requests (elapse (fetchReviews env) (k * 2000 + n) (commit env before after)) =
            requests after @ replicate (Suc k) (review_request env appId))
   \<and> (timer_inv w \<and> selectedAppId w \<noteq> Some a \<and> n < 2000 \<longrightarrow>
        requests (step env (Select a) w) = requests w @ [review_request env a]
        \<and> requests (elapse (fetchReviews env) (k * 2000 + n) (step env (Select a) w)) =
            requests w @ replicate (Suc k) (review_request env a))
   \<and> (selectedAppId after2 = Some appId
        \<and> (selectedAppId before2 \<noteq> Some appId
             \<or> reviewFilterDays after2 \<noteq> reviewFilterDays before2)
        \<and> timer_ok after2 \<and> n < 2000
        \<and> (\<forall>j\<le>k. cutoff_valid env (clock after2 + int (j * 2000)) (reviewFilterDays after2))
        \<longrightarrow>
        requests (commit_v2 env before2 after2) = requests after2 @ [review_request env appId]
        \<and> requests (elapse (fetchReviews_v2 env) (k * 2000 + n) (commit_v2 env before2 after2)) =
            requests after2 @ replicate (Suc k) (review_request env appId))
   \<and> (timer_inv w2 \<and> selectedAppId w2 \<noteq> Some a \<and> n < 2000
        \<and> (\<forall>j\<le>k. cutoff_valid env (clock w2 + int (j * 2000)) (reviewFilterDays w2))
        \<longrightarrow>
        requests (step_v2 env (Select_v2 a) w2) = requests w2 @ [review_request env a]
        \<and> requests (elapse (fetchReviews_v2 env) (k * 2000 + n) (step_v2 env (Select_v2 a) w2)) =
            requests w2 @ replicate (Suc k) (review_request env a))
   \<and> (selectedAppId (run env evs (initial_world path t)) = None \<longrightarrow>
        requests (elapse (fetchReviews env) m (run env evs (initial_world path t))) =
          requests (run env evs (initial_world path t)))
   \<and> (selectedAppId (run_v2 env evs2 (initial_world_v2 path t)) = None \<longrightarrow>
        requests (elapse (fetchReviews_v2 env) m (run_v2 env evs2 (initial_world_v2 path t))) =
          requests (run_v2 env evs2 (initial_world_v2 path t)))
   \<and> (selectedAppId wa = Some aid \<longrightarrow>
        polling_effect f wa =
          (f aid wa)\<lparr>intervals := intervals (f aid wa) @
                           [\<lparr>handle = next_handle (f aid wa), callback_appId = aid,
                             delay = REFRESH_INTERVAL,
                             due = clock (f aid wa) + int REFRESH_INTERVAL\<rparr>],
                        next_handle := Suc (next_handle (f aid wa)),
                        polling_cleanup := Some (next_handle (f aid wa))\<rparr>)
   \<and> (frame_preserving f \<and> intervals wb = [i] \<and> due i = clock wb + int (delay i) \<and> 0 < delay i
        \<longrightarrow>
        elapse f (delay i) wb =
          (f (callback_appId i) (wb\<lparr>clock := clock wb + int (delay i)\<rparr>))
            \<lparr>intervals := [i\<lparr>due := due i + int (delay i)\<rparr>]\<rparr>)
   \<and> (selectedAppId wc = None \<longrightarrow> polling_effect f wc = wc\<lparr>polling_cleanup := None\<rparr>)
   \<and> frame_preserving (fetchReviews env)
   \<and> frame_preserving (fetchReviews_v2 env)"
proof -
  have a: "REFRESH_INTERVAL = 2000"
    by (simp add: REFRESH_INTERVAL_def)
  have b: "selectedAppId after = Some appId \<and> selectedAppId before \<noteq> Some appId \<and> timer_ok after
        \<and> n < 2000 \<longrightarrow>
        requests (commit env before after) = requests after @ [review_request env appId]
        \<and> requests (elapse (fetchReviews env) (k * 2000 + n) (commit env before after)) =
            requests after @ replicate (Suc k) (review_request env appId)"
    using commit_selected [of after appId before n env k] by blast
  have c: "timer_inv w \<and> selectedAppId w \<noteq> Some a \<and> n < 2000 \<longrightarrow>
        requests (step env (Select a) w) = requests w @ [review_request env a]
        \<and> requests (elapse (fetchReviews env) (k * 2000 + n) (step env (Select a) w)) =
            requests w @ replicate (Suc k) (review_request env a)"
    using select_polls [of w a n env k] by blast
  have b2: "selectedAppId after2 = Some appId
        \<and> (selectedAppId before2 \<noteq> Some appId
             \<or> reviewFilterDays after2 \<noteq> reviewFilterDays before2)
        \<and> timer_ok after2 \<and> n < 2000
        \<and> (\<forall>j\<le>k. cutoff_valid env (clock after2 + int (j * 2000)) (reviewFilterDays after2))
        \<longrightarrow>
        requests (commit_v2 env before2 after2) = requests after2 @ [review_request env appId]
        \<and> requests (elapse (fetchReviews_v2 env) (k * 2000 + n) (commit_v2 env before2 after2)) =
            requests after2 @ replicate (Suc k) (review_request env appId)"
    using commit_v2_selected [of after2 appId before2 n k env] by blast
  have c2: "timer_inv w2 \<and> selectedAppId w2 \<noteq> Some a \<and> n < 2000
        \<and> (\<forall>j\<le>k. cutoff_valid env (clock w2 + int (j * 2000)) (reviewFilterDays w2))
        \<longrightarrow>
        requests (step_v2 env (Select_v2 a) w2) = requests w2 @ [review_request env a]
        \<and> requests (elapse (fetchReviews_v2 env) (k * 2000 + n) (step_v2 env (Select_v2 a) w2)) =
            requests w2 @ replicate (Suc k) (review_request env a)"
    using select_v2_polls [of w2 a n k env] by blast
  have d: "selectedAppId (run env evs (initial_world path t)) = None \<longrightarrow>
        requests (elapse (fetchReviews env) m (run env evs (initial_world path t))) =
          requests (run env evs (initial_world path t))"
    using idle_unselected [OF run_inv] by blast
  have e: "selectedAppId (run_v2 env evs2 (initial_world_v2 path t)) = None \<longrightarrow>
        requests (elapse (fetchReviews_v2 env) m (run_v2 env evs2 (initial_world_v2 path t))) =
          requests (run_v2 env evs2 (initial_world_v2 path t))"
    using idle_unselected [OF run_v2_inv] by blast
  have f: "selectedAppId wa = Some aid \<longrightarrow>
        polling_effect f wa =
          (f aid wa)\<lparr>intervals := intervals (f aid wa) @
                           [\<lparr>handle = next_handle (f aid wa), callback_appId = aid,
                             delay = REFRESH_INTERVAL,
                             due = clock (f aid wa) + int REFRESH_INTERVAL\<rparr>],
                        next_handle := Suc (next_handle (f aid wa)),
                        polling_cleanup := Some (next_handle (f aid wa))\<rparr>"
    using polling_effect_Some [of wa aid f] by blast
  have g: "frame_preserving f \<and> intervals wb = [i] \<and> due i = clock wb + int (delay i) \<and> 0 < delay i
        \<longrightarrow>
        elapse f (delay i) wb =
          (f (callback_appId i) (wb\<lparr>clock := clock wb + int (delay i)\<rparr>))
            \<lparr>intervals := [i\<lparr>due := due i + int (delay i)\<rparr>]\<rparr>"
    using elapse_period [of f wb i] by blast
  have h: "selectedAppId wc = None \<longrightarrow> polling_effect f wc = wc\<lparr>polling_cleanup := None\<rparr>"
    using polling_effect_None [of wc f] by blast
  show ?thesis
    using a b c b2 c2 d e f g h fetchReviews_frame [of env] fetchReviews_v2_frame [of env]
    by (intro conjI)
qed

lemma fetchApps_requests:
  "requests (fetchApps env w) =
     requests w @ [\<lparr>http_method = ''GET'', url = API_BASE_URL env @ ''/api/apps''\<rparr>]"
  by (simp add: fetchApps_unfold fetchApps_settled_def getApps_log Let_def split: sum.splits)

lemma fetchApps_v2_requests:
  "requests (fetchApps_v2 env w) =
     requests w @ [\<lparr>http_method = ''GET'', url = API_BASE_URL env @ ''/api/apps''\<rparr>]"
  by (simp add: fetchApps_v2_unfold fetchApps_v2_settled_def getApps_log Let_def
        split: sum.splits option.splits)

lemma mount_root_requests:
  "requests (mount (sample_env (Inr sample_ok)) (initial_world ''/'' t)) =
     [\<lparr>http_method = ''GET'', url = ''http://localhost:8000/api/apps''\<rparr>]"
proof -
  let ?env = "sample_env (Inr sample_ok)"
  let ?w = "initial_world ''/'' t"
  have "getAppIdFromUrl ?w = None"
    by (simp add: getAppIdFromUrl_def initial_world_def)
  then have "selectedAppId (fetchApps ?env ?w) = selectedAppId ?w"
    using fetchApps_success [OF sample_ok_apps, of ?w] by simp
  then have "mount ?env ?w = fetchApps ?env ?w"
    by (simp add: mount_def commit_def)
  then have "requests (mount ?env ?w) =
      requests ?w @ [\<lparr>http_method = ''GET'', url = API_BASE_URL ?env @ ''/api/apps''\<rparr>]"
    by (simp only: fetchApps_requests)
  then show ?thesis
    by (simp add: initial_world_def sample_env_def)
qed

lemma mount_v2_root:
  "mount_v2 (sample_env (Inr sample_ok)) (initial_world_v2 ''/'' t) =
     fetchApps_v2 (sample_env (Inr sample_ok)) (initial_world_v2 ''/'' t)
   \<and> clock (fetchApps_v2 (sample_env (Inr sample_ok)) (initial_world_v2 ''/'' t)) = t
   \<and> reviewFilterDays (fetchApps_v2 (sample_env (Inr sample_ok)) (initial_world_v2 ''/'' t))
       = Num 10"
proof -
  let ?env = "sample_env (Inr sample_ok)"
  let ?w = "initial_world_v2 ''/'' t"
  have f: "selectedAppId (fetchApps_v2 ?env ?w) = selectedAppId ?w
      \<and> reviewFilterDays (fetchApps_v2 ?env ?w) = reviewFilterDays ?w
      \<and> clock (fetchApps_v2 ?env ?w) = clock ?w"
    by (simp add: fetchApps_v2_unfold fetchApps_v2_settled_def sample_ok_apps Let_def
          getAppIdFromUrl_def initial_world_v2_def)
  then have "mount_v2 ?env ?w = fetchApps_v2 ?env ?w"
    by (simp add: mount_v2_def commit_v2_def)
  then show ?thesis
    using f by (simp add: initial_world_v2_def)
qed

lemma mount_v2_root_requests:
  "requests (mount_v2 (sample_env (Inr sample_ok)) (initial_world_v2 ''/'' t)) =
     [\<lparr>http_method = ''GET'', url = ''http://localhost:8000/api/apps''\<rparr>]"
proof -
  let ?env = "sample_env (Inr sample_ok)"
  let ?w = "initial_world_v2 ''/'' t"
  have "requests (mount_v2 ?env ?w) =
      requests ?w @ [\<lparr>http_method = ''GET'', url = API_BASE_URL ?env @ ''/api/apps''\<rparr>]"
    by (simp only: mount_v2_root fetchApps_v2_requests)
  then show ?thesis
    by (simp add: initial_world_v2_def sample_env_def)
qed

text \<open>
  Mounted at \<open>/\<close>, then app 595068606 is chosen: its reviews are requested at once, and
  4500 ms later they have been requested three times, in either variant. Without a
  selection 10 seconds pass without a request.
\<close>

theorem periodic_polling_witness:
  "requests (step (sample_env (Inr sample_ok)) (Select (Num 595068606))
               (run (sample_env (Inr sample_ok)) [] (initial_world ''/'' 0))) =
     [\<lparr>http_method = ''GET'', url = ''http://localhost:8000/api/apps''\<rparr>,
      \<lparr>http_method = ''GET'', url = ''http://localhost:8000/api/reviews/595068606''\<rparr>]
   \<and> requests (elapse (fetchReviews (sample_env (Inr sample_ok))) 4500
                 (step (sample_env (Inr sample_ok)) (Select (Num 595068606))
                    (run (sample_env (Inr sample_ok)) [] (initial_world ''/'' 0)))) =
     [\<lparr>http_method = ''GET'', url = ''http://localhost:8000/api/apps''\<rparr>,
      \<lparr>http_method = ''GET'', url = ''http://localhost:8000/api/reviews/595068606''\<rparr>,
      \<lparr>http_method = ''GET'', url = ''http://localhost:8000/api/reviews/595068606''\<rparr>,
      \<lparr>http_method = ''GET'', url = ''http://localhost:8000/api/reviews/595068606''\<rparr>]
   \<and> clock (run_v2 (sample_env (Inr sample_ok)) [] (initial_world_v2 ''/'' 0)) = 0
   \<and> reviewFilterDays (run_v2 (sample_env (Inr sample_ok)) [] (initial_world_v2 ''/'' 0)) = Num 10
   \<and> cutoff_valid (sample_env (Inr sample_ok)) 0 (Num 10)
   \<and> cutoff_valid (sample_env (Inr sample_ok)) 2000 (Num 10)
   \<and> cutoff_valid (sample_env (Inr sample_ok)) 4000 (Num 10)
   \<and> requests (step_v2 (sample_env (Inr sample_ok)) (Select_v2 (Num 595068606))
               (run_v2 (sample_env (Inr sample_ok)) [] (initial_world_v2 ''/'' 0))) =
     [\<lparr>http_method = ''GET'', url = ''http://localhost:8000/api/apps''\<rparr>,
      \<lparr>http_method = ''GET'', url = ''http://localhost:8000/api/reviews/595068606''\<rparr>]
   \<and> requests (elapse (fetchReviews_v2 (sample_env (Inr sample_ok))) 4500
                 (step_v2 (sample_env (Inr sample_ok)) (Select_v2 (Num 595068606))
                    (run_v2 (sample_env (Inr sample_ok)) [] (initial_world_v2 ''/'' 0)))) =
     [\<lparr>http_method = ''GET'', url = ''http://localhost:8000/api/apps''\<rparr>,
      \<lparr>http_method = ''GET'', url = ''http://localhost:8000/api/reviews/595068606''\<rparr>,
      \<lparr>http_method = ''GET'', url = ''http://localhost:8000/api/reviews/595068606''\<rparr>,
      \<lparr>http_method = ''GET'', url = ''http://localhost:8000/api/reviews/595068606''\<rparr>]
   \<and> requests (elapse (fetchReviews (sample_env (Inr sample_ok))) 10000
                 (run (sample_env (Inr sample_ok)) [] (initial_world ''/'' 0))) =
     [\<lparr>http_method = ''GET'', url = ''http://localhost:8000/api/apps''\<rparr>]
   \<and> requests (elapse (fetchReviews_v2 (sample_env (Inr sample_ok))) 10000
                 (run_v2 (sample_env (Inr sample_ok)) [] (initial_world_v2 ''/'' 0))) =
     [\<lparr>http_method = ''GET'', url = ''http://localhost:8000/api/apps''\<rparr>]
   \<and> polling_effect (fetchReviews_v2 (sample_env (Inr sample_ok))) sample_selected =
       (fetchReviews_v2 (sample_env (Inr sample_ok)) (Num 7) sample_selected)
         \<lparr>intervals := [sample_timer], next_handle := 2, polling_cleanup := Some 1\<rparr>
   \<and> elapse (fetchReviews_v2 (sample_env (Inr sample_ok))) 2000 sample_polling =
       (fetchReviews_v2 (sample_env (Inr sample_ok)) (Num 7) (sample_polling\<lparr>clock := 2000\<rparr>))
         \<lparr>intervals := [sample_timer\<lparr>due := 4000\<rparr>]\<rparr>
   \<and> polling_effect (fetchReviews_v2 (sample_env (Inr sample_ok))) (initial_world_v2 ''/'' 0) =
       (initial_world_v2 ''/'' 0)\<lparr>polling_cleanup := None\<rparr>"
proof -
  let ?env = "sample_env (Inr sample_ok)"
  let ?w = "run ?env [] (initial_world ''/'' 0)"
  let ?w2 = "run_v2 ?env [] (initial_world_v2 ''/'' 0)"
  let ?after = "handleAppSelect (Num 595068606) ?w"
  have inv: "timer_inv ?w"
    by (rule run_inv)
  have inv2: "timer_inv ?w2"
    by (rule run_v2_inv)
  have n1: "selectedAppId ?w = None"
    by (simp add: run_def mount_root_unselected)
  have n2: "selectedAppId ?w2 = None"
    by (simp add: run_v2_def mount_v2_root_unselected)
  have r1: "requests ?w = [\<lparr>http_method = ''GET'', url = ''http://localhost:8000/api/apps''\<rparr>]"
    by (simp add: run_def mount_root_requests)
  have r2: "requests ?w2 = [\<lparr>http_method = ''GET'', url = ''http://localhost:8000/api/apps''\<rparr>]"
    by (simp add: run_v2_def mount_v2_root_requests)
  have c2: "clock ?w2 = 0" "reviewFilterDays ?w2 = Num 10"
    by (simp_all add: run_v2_def mount_v2_root)
  have ds: "digits_of 595068606 = ''595068606''"
    by (simp add: digits_of.simps digit_char_def)
  have ts: "toString (Num 595068606) = ''595068606''"
    using toString_safe [of 595068606] ds by (simp add: MAX_SAFE_INTEGER_def)
  have rr: "review_request ?env (Num 595068606) =
              \<lparr>http_method = ''GET'', url = ''http://localhost:8000/api/reviews/595068606''\<rparr>"
    by (simp add: review_request_def sample_env_def ts)
  have dom: "utc_DateFromTime 0 = 1" "utc_DateFromTime 2000 = 1" "utc_DateFromTime 4000 = 1"
    by code_simp+
  have cv: "cutoff_valid ?env 0 (Num 10)" "cutoff_valid ?env 2000 (Num 10)"
    "cutoff_valid ?env 4000 (Num 10)"
    using cutoff_text_sample [of 0 10 "Inr sample_ok"]
      cutoff_text_sample [of 2000 10 "Inr sample_ok"]
      cutoff_text_sample [of 4000 10 "Inr sample_ok"]
    by (simp_all add: cutoff_valid_def dom MAX_TIME_def MAX_SAFE_INTEGER_def msPerDay_def)
  have v: "\<forall>j\<le>2. cutoff_valid ?env (clock ?w2 + int (j * 2000)) (reviewFilterDays ?w2)"
  proof (intro allI impI)
    fix j :: nat
    assume "j \<le> 2"
    then have "j = 0 \<or> j = 1 \<or> j = 2"
      by arith
    then show "cutoff_valid ?env (clock ?w2 + int (j * 2000)) (reviewFilterDays ?w2)"
      using cv by (auto simp: c2)
  qed
  have fr: "intervals sample_polling = [sample_timer]"
    "due sample_timer = clock sample_polling + int (delay sample_timer)"
    "0 < delay sample_timer" "callback_appId sample_timer = Num 7" "delay sample_timer = 2000"
    "clock sample_polling = 0"
    by (simp_all add: sample_polling_def sample_selected_def sample_timer_def
          initial_world_v2_def)
  have ss: "selectedAppId sample_selected = Some (Num 7)"
    by (simp add: sample_selected_def)
  have sf: "intervals (fetchReviews_v2 ?env (Num 7) sample_selected) = []"
    "next_handle (fetchReviews_v2 ?env (Num 7) sample_selected) = 1"
    "clock (fetchReviews_v2 ?env (Num 7) sample_selected) = 0"
    using fetchReviews_v2_frame [of ?env]
    by (simp_all add: frame_preserving_def sample_selected_def initial_world_v2_def)
  have s0: "selectedAppId (initial_world_v2 ''/'' 0) = None"
    by (simp add: initial_world_v2_def)
  note T = periodic_polling
    [where env = ?env and after = ?after and before = ?w and appId = "Num 595068606"
       and n = 500 and k = 2 and w = ?w and a = "Num 595068606" and evs = "[]"
       and ?evs2.0 = "[]" and ?w2.0 = ?w2 and ?after2.0 = ?w2 and ?before2.0 = ?w2
       and path = "''/''" and t = 0 and m = 10000 and wa = sample_selected and aid = "Num 7"
       and f = "fetchReviews_v2 ?env" and wb = sample_polling and i = sample_timer
       and wc = "initial_world_v2 ''/'' 0"]
  have A: "requests (step ?env (Select (Num 595068606)) ?w) =
             requests ?w @ [review_request ?env (Num 595068606)]
     \<and> requests (elapse (fetchReviews ?env) 4500 (step ?env (Select (Num 595068606)) ?w)) =
             requests ?w @ replicate 3 (review_request ?env (Num 595068606))"
    using T inv n1 by (simp add: numeral_3_eq_3 REFRESH_INTERVAL_def)
  have A2: "requests (step_v2 ?env (Select_v2 (Num 595068606)) ?w2) =
             requests ?w2 @ [review_request ?env (Num 595068606)]
     \<and> requests (elapse (fetchReviews_v2 ?env) 4500 (step_v2 ?env (Select_v2 (Num 595068606)) ?w2)) =
             requests ?w2 @ replicate 3 (review_request ?env (Num 595068606))"
    using T inv2 n2 v by (simp add: numeral_3_eq_3 REFRESH_INTERVAL_def)
  have B: "requests (elapse (fetchReviews ?env) 10000 ?w) = requests ?w
     \<and> requests (elapse (fetchReviews_v2 ?env) 10000 ?w2) = requests ?w2"
    using T n1 n2 by blast
  have C: "polling_effect (fetchReviews_v2 ?env) sample_selected =
       (fetchReviews_v2 ?env (Num 7) sample_selected)
         \<lparr>intervals := [sample_timer], next_handle := 2, polling_cleanup := Some 1\<rparr>"
    using T ss by (simp add: sf sample_timer_def REFRESH_INTERVAL_def)
  have D: "elapse (fetchReviews_v2 ?env) 2000 sample_polling =
       (fetchReviews_v2 ?env (Num 7) (sample_polling\<lparr>clock := 2000\<rparr>))
         \<lparr>intervals := [sample_timer\<lparr>due := 4000\<rparr>]\<rparr>"
    using T fetchReviews_v2_frame [of ?env] fr(1,2,3)
    by (simp add: fr(4,5,6) sample_timer_def REFRESH_INTERVAL_def)
  have E: "polling_effect (fetchReviews_v2 ?env) (initial_world_v2 ''/'' 0) =
       (initial_world_v2 ''/'' 0)\<lparr>polling_cleanup := None\<rparr>"
    using T s0 by blast
  show ?thesis
    using A A2 B C D E cv by (simp add: r1 r2 c2 rr numeral_3_eq_3)
qed

end
